(* ===== verification/Prelude.thy ===== *)
theory Prelude
  imports Main "HOL-Library.Char_ord" "HOL-Library.List_Lexorder"
begin

text \<open>
  What every component of the development shares.

  \<^item> The exceptions the modelled Python code can raise (\<open>exn\<close>) and the state-and-exception
    monad \<open>('s, 'a) py\<close> in which its statements are written.  An exception ends the
    computation but keeps the state reached so far, as a Python handler that raises
    half-way keeps what it has already assigned and sent.
  \<^item> The locale \<open>state_preorder\<close>: a reflexive and transitive relation between the state
    before and after a computation.  Invariant preservation and frame properties are both
    instances of it, and its rules follow the statements of the monad.
  \<^item> The locale \<open>service\<close>: a state, a handler per event and an invariant; what holds
    initially and is kept by every handler holds after every sequence of events,
    whether or not handlers raised on the way.
  \<^item> Dictionaries in insertion order (Python's \<open>dict\<close>): the locale \<open>ordered_dict\<close> states
    the laws, association lists implement them.
  \<^item> The string methods the code uses: \<open>split\<close>, \<open>strip\<close>, \<open>startswith\<close>, \<open>endswith\<close>,
    \<open>in\<close>.
\<close>

section \<open>Exceptions and the state-and-exception monad\<close>

datatype exn =
    KeyError | TypeError | ValueError | IndexError | AttributeError
  | UnicodeEncodeError | UnicodeDecodeError | JSONDecodeError | AssertionError
  | WebSocketClosedError | ConnectionRefusedError | InvalidToken
  | OSError | MqttException nat
  | SystemError nat
  | SyntaxError | MemoryError | RuntimeError | FileNotFoundError | ConfigError | OptionError

type_synonym ('s, 'a) py = "'s \<Rightarrow> (exn + 'a) \<times> 's"

definition ret :: "'a \<Rightarrow> ('s, 'a) py" where
  "ret x s = (Inr x, s)"

definition raise :: "exn \<Rightarrow> ('s, 'a) py" where
  "raise e s = (Inl e, s)"

definition lift :: "exn + 'a \<Rightarrow> ('s, 'a) py" where
  "lift r s = (r, s)"

definition gets :: "('s \<Rightarrow> 'a) \<Rightarrow> ('s, 'a) py" where
  "gets f s = (Inr (f s), s)"

definition modify :: "('s \<Rightarrow> 's) \<Rightarrow> ('s, unit) py" where
  "modify f s = (Inr (), f s)"

definition bind :: "('s, 'a) py \<Rightarrow> ('a \<Rightarrow> ('s, 'b) py) \<Rightarrow> ('s, 'b) py" where
  "bind m f s = (case m s of (Inl e, t) \<Rightarrow> (Inl e, t) | (Inr x, t) \<Rightarrow> f x t)"

definition seq :: "('s, 'a) py \<Rightarrow> ('s, 'b) py \<Rightarrow> ('s, 'b) py" where
  "seq m k = bind m (\<lambda>_. k)"

text \<open>The body of a \<open>for\<close> statement without \<open>break\<close>: an exception ends the loop.\<close>

fun for_each :: "'a list \<Rightarrow> ('a \<Rightarrow> ('s, unit) py) \<Rightarrow> ('s, unit) py" where
  "for_each [] f = ret ()"
| "for_each (x # xs) f = seq (f x) (for_each xs f)"

text \<open>\<open>d[k]\<close> and its like: \<open>None\<close> is the exception.\<close>

definition or_raise :: "exn \<Rightarrow> 'a option \<Rightarrow> exn + 'a" where
  "or_raise e v = (case v of None \<Rightarrow> Inl e | Some x \<Rightarrow> Inr x)"

named_theorems py_run \<open>running the statements of the monad on a state\<close>

lemma ret_run [py_run]: "ret x s = (Inr x, s)"
  by (simp add: ret_def)

lemma raise_run [py_run]: "raise e s = (Inl e, s)"
  by (simp add: raise_def)

lemma lift_run [py_run]: "lift r s = (r, s)"
  by (simp add: lift_def)

lemma gets_run [py_run]: "gets f s = (Inr (f s), s)"
  by (simp add: gets_def)

lemma modify_run [py_run]: "modify f s = (Inr (), f s)"
  by (simp add: modify_def)

lemma bind_run [py_run]:
  "bind m f s = (case m s of (Inl e, t) \<Rightarrow> (Inl e, t) | (Inr x, t) \<Rightarrow> f x t)"
  by (simp add: bind_def)

lemma seq_run [py_run]:
  "seq m k s = (case m s of (Inl e, t) \<Rightarrow> (Inl e, t) | (Inr x, t) \<Rightarrow> k t)"
  by (simp add: seq_def bind_def)

lemma or_raise_simps [simp]:
  "or_raise e None = Inl e"
  "or_raise e (Some x) = Inr x"
  by (simp_all add: or_raise_def)

lemma bind_ret [simp]: "bind (ret x) f = f x"
  by (rule ext) (simp add: py_run)

lemma bind_raise [simp]: "bind (raise e) f = raise e"
  by (rule ext) (simp add: py_run)

lemma bind_lift_Inl [simp]: "bind (lift (Inl e)) f = raise e"
  by (rule ext) (simp add: py_run)

lemma bind_lift_Inr [simp]: "bind (lift (Inr x)) f = f x"
  by (rule ext) (simp add: py_run)

lemma seq_ret [simp]: "seq (ret x) k = k"
  by (rule ext) (simp add: py_run)

lemma seq_raise [simp]: "seq (raise e) k = raise e"
  by (rule ext) (simp add: py_run)

text \<open>Running only the first statement of a block.\<close>

named_theorems py_step \<open>running the first statement of a block\<close>

lemma bind_gets [py_step]: "bind (gets f) k s = k (f s) s"
  by (simp add: py_run)

lemma seq_modify [py_step]: "seq (modify f) k s = k (f s)"
  by (simp add: py_run)

lemma seq_first [py_step]: "m s = (Inr x, t) \<Longrightarrow> seq m k s = k t"
  by (simp add: py_run)

lemma bind_first [py_step]: "m s = (Inr x, t) \<Longrightarrow> bind m f s = f x t"
  by (simp add: py_run)

lemma seq_fails [py_step]: "m s = (Inl e, t) \<Longrightarrow> seq m k s = (Inl e, t)"
  by (simp add: py_run)

lemma bind_fails [py_step]: "m s = (Inl e, t) \<Longrightarrow> bind m f s = (Inl e, t)"
  by (simp add: py_run)

lemma for_each_append:
  "for_each (xs @ ys) f s =
     (case for_each xs f s of (Inl e, t) \<Rightarrow> (Inl e, t) | (Inr _, t) \<Rightarrow> for_each ys f t)"
  by (induction xs arbitrary: s)
    (auto simp: py_run split: sum.splits prod.splits)

text \<open>
  A loop whose body always succeeds and applies a state update is the fold of the updates.
\<close>

lemma for_each_total:
  assumes "\<And>x t. x \<in> set xs \<Longrightarrow> I t \<Longrightarrow> f x t = (Inr (), g x t) \<and> I (g x t)"
    and "I s"
  shows "for_each xs f s = (Inr (), fold g xs s)"
  using assms
  by (induction xs arbitrary: s) (auto simp: py_run)

section \<open>Relations between the states before and after\<close>

locale state_preorder =
  fixes R :: "'s \<Rightarrow> 's \<Rightarrow> bool"
  assumes refl_state: "R s s"
    and trans_state: "R s t \<Longrightarrow> R t u \<Longrightarrow> R s u"
begin

definition upholds :: "('s, 'a) py \<Rightarrow> bool" where
  "upholds m \<longleftrightarrow> (\<forall>s. R s (snd (m s)))"

lemma upholdsI: "(\<And>s. R s (snd (m s))) \<Longrightarrow> upholds m"
  by (simp add: upholds_def)

lemma upholdsD: "upholds m \<Longrightarrow> R s (snd (m s))"
  by (simp add: upholds_def)

lemma upholds_run: "upholds m \<Longrightarrow> m s = (r, t) \<Longrightarrow> R s t"
  using upholdsD [of m s] by simp

lemma upholds_pure:
  shows upholds_ret: "upholds (ret x)"
    and upholds_raise: "upholds (raise e)"
    and upholds_lift: "upholds (lift r)"
    and upholds_gets: "upholds (gets f)"
  by (simp_all add: upholds_def py_run refl_state)

lemma upholds_modify: "(\<And>s. R s (f s)) \<Longrightarrow> upholds (modify f)"
  by (simp add: upholds_def py_run)

lemma upholds_bind:
  assumes "upholds m" and "\<And>x. upholds (f x)"
  shows "upholds (bind m f)"
proof (rule upholdsI)
  fix s
  have first: "R s (snd (m s))" using assms(1) by (rule upholdsD)
  show "R s (snd (bind m f s))"
  proof (cases "m s")
    case (Pair r t)
    show ?thesis
    proof (cases r)
      case (Inl e)
      with Pair first show ?thesis by (simp add: py_run)
    next
      case (Inr x)
      have "R t (snd (f x t))" using assms(2) by (rule upholdsD)
      with Pair Inr first show ?thesis by (auto simp: py_run intro: trans_state)
    qed
  qed
qed

lemma upholds_seq: "upholds m \<Longrightarrow> upholds k \<Longrightarrow> upholds (seq m k)"
  by (simp add: seq_def upholds_bind)

text \<open>The same for one state only.\<close>

lemma bindI: "R s (snd (m s)) \<Longrightarrow> (\<And>x. upholds (f x)) \<Longrightarrow> R s (snd (bind m f s))"
  using trans_state upholdsD by (auto simp: bind_run refl_state split: prod.split sum.split) blast

lemma seqI: "R s (snd (m s)) \<Longrightarrow> upholds k \<Longrightarrow> R s (snd (seq m k s))"
  unfolding seq_def by (rule bindI)

lemma upholds_for_each: "(\<And>x. x \<in> set xs \<Longrightarrow> upholds (f x)) \<Longrightarrow> upholds (for_each xs f)"
  by (induction xs) (auto intro: upholds_ret upholds_seq)

lemma upholds_if: "(b \<Longrightarrow> upholds m) \<Longrightarrow> (\<not> b \<Longrightarrow> upholds k) \<Longrightarrow> upholds (if b then m else k)"
  by simp

lemma upholds_option:
  "(v = None \<Longrightarrow> upholds m) \<Longrightarrow> (\<And>x. v = Some x \<Longrightarrow> upholds (k x)) \<Longrightarrow>
   upholds (case v of None \<Rightarrow> m | Some x \<Rightarrow> k x)"
  by (cases v) auto

lemma upholds_prod: "(\<And>x y. p = (x, y) \<Longrightarrow> upholds (k x y)) \<Longrightarrow> upholds (case p of (x, y) \<Rightarrow> k x y)"
  by (cases p) auto

lemmas upholds_rules =
  upholds_pure upholds_modify upholds_bind upholds_seq upholds_for_each
  upholds_if upholds_option upholds_prod

end

section \<open>Services: handlers that keep an invariant\<close>

text \<open>
  The event loop runs one handler after the other; an exception is logged by the
  framework and the loop goes on with the state the handler left.  Which events the
  framework can deliver in a state is the predicate \<open>enabled\<close>.
\<close>

inductive reachable ::
  "('e \<Rightarrow> ('s, unit) py) \<Rightarrow> ('e \<Rightarrow> 's \<Rightarrow> bool) \<Rightarrow> 's \<Rightarrow> 's \<Rightarrow> bool"
  for handle enabled start where
  reach_start: "reachable handle enabled start start"
| reach_step: "reachable handle enabled start s \<Longrightarrow> enabled e s \<Longrightarrow>
    reachable handle enabled start (snd (handle e s))"

fun run_events :: "('e \<Rightarrow> ('s, unit) py) \<Rightarrow> 's \<Rightarrow> 'e list \<Rightarrow> 's" where
  "run_events h s [] = s"
| "run_events h s (e # es) = run_events h (snd (h e s)) es"

fun run_enabled :: "('e \<Rightarrow> ('s, unit) py) \<Rightarrow> ('e \<Rightarrow> 's \<Rightarrow> bool) \<Rightarrow> 's \<Rightarrow> 'e list \<Rightarrow> bool" where
  "run_enabled h en s [] \<longleftrightarrow> True"
| "run_enabled h en s (e # es) \<longleftrightarrow> en e s \<and> run_enabled h en (snd (h e s)) es"

lemma run_events_append: "run_events h s (es @ fs) = run_events h (run_events h s es) fs"
  by (induction es arbitrary: s) auto

lemma run_enabled_append: "run_enabled h en s (es @ fs) \<longleftrightarrow> run_enabled h en s es \<and> run_enabled h en (run_events h s es) fs"
  by (induction es arbitrary: s) auto

lemma reachable_run:
  "reachable h en start s \<Longrightarrow> run_enabled h en s es \<Longrightarrow> reachable h en start (run_events h s es)"
  by (induction es arbitrary: s) (auto intro: reach_step)

locale service =
  fixes handle :: "'e \<Rightarrow> ('s, unit) py"
    and enabled :: "'e \<Rightarrow> 's \<Rightarrow> bool"
    and start :: "'s"
    and good :: "'s \<Rightarrow> bool"
  assumes start_good: "good start"
    and handle_good: "good s \<Longrightarrow> enabled e s \<Longrightarrow> good (snd (handle e s))"
begin

lemma reachable_good: "reachable handle enabled start s \<Longrightarrow> good s"
  by (induction rule: reachable.induct) (auto intro: start_good handle_good)

lemma run_good: "run_enabled handle enabled start es \<Longrightarrow> good (run_events handle start es)"
  by (rule reachable_good) (rule reachable_run [OF reach_start])

end

section \<open>Dictionaries in insertion order\<close>

text \<open>
  A Python \<open>dict\<close> lists its items in the order in which the keys were first inserted;
  assigning to a key that is present keeps its place.  \<open>get\<close> is \<open>d.get\<close> (\<open>None\<close>: no such
  key), \<open>put\<close> is \<open>d[k] = v\<close> and \<open>d.update({k: v})\<close>, \<open>del\<close> is the removal half of
  \<open>d.pop(k)\<close>, \<open>items\<close> is \<open>list(d.items())\<close>.
\<close>

locale ordered_dict =
  fixes get :: "'d \<Rightarrow> 'k \<Rightarrow> 'v option"
    and put :: "'d \<Rightarrow> 'k \<Rightarrow> 'v \<Rightarrow> 'd"
    and del :: "'d \<Rightarrow> 'k \<Rightarrow> 'd"
    and items :: "'d \<Rightarrow> ('k \<times> 'v) list"
    and ok :: "'d \<Rightarrow> bool"
  assumes ok_put: "ok d \<Longrightarrow> ok (put d k v)"
    and ok_del: "ok d \<Longrightarrow> ok (del d k)"
    and ok_distinct: "ok d \<Longrightarrow> distinct (map fst (items d))"
    and get_items: "ok d \<Longrightarrow> get d k = Some v \<longleftrightarrow> (k, v) \<in> set (items d)"
    and items_put_new: "ok d \<Longrightarrow> get d k = None \<Longrightarrow> items (put d k v) = items d @ [(k, v)]"
    and items_put_old: "ok d \<Longrightarrow> get d k = Some u \<Longrightarrow>
      items (put d k v) = map (\<lambda>(x, y). if x = k then (x, v) else (x, y)) (items d)"
    and items_del: "ok d \<Longrightarrow> items (del d k) = filter (\<lambda>(x, y). x \<noteq> k) (items d)"
begin

lemma get_None_iff: "ok d \<Longrightarrow> get d k = None \<longleftrightarrow> k \<notin> fst ` set (items d)"
  using get_items [of d k]
  by (cases "get d k") (force simp: image_iff)+

lemma get_put:
  assumes "ok d"
  shows "get (put d k v) x = (if x = k then Some v else get d x)"
proof (cases "get d k")
  case None
  then have new: "items (put d k v) = items d @ [(k, v)]"
    using assms by (rule items_put_new [rotated])
  have "get (put d k v) x = Some w \<longleftrightarrow> (if x = k then Some v else get d x) = Some w" for w
    using assms None new get_None_iff [OF assms, of k]
    by (force simp: get_items [OF assms] get_items [OF ok_put])
  then show ?thesis by (metis option.exhaust)
next
  case (Some u)
  then have old: "items (put d k v) = map (\<lambda>(x, y). if x = k then (x, v) else (x, y)) (items d)"
    using assms by (rule items_put_old [rotated])
  have "get (put d k v) x = Some w \<longleftrightarrow> (if x = k then Some v else get d x) = Some w" for w
    using assms Some old
    by (force simp: get_items [OF assms] get_items [OF ok_put] split: if_splits)
  then show ?thesis by (metis option.exhaust)
qed

lemma get_del:
  assumes "ok d"
  shows "get (del d k) x = (if x = k then None else get d x)"
proof -
  have "get (del d k) x = Some w \<longleftrightarrow> (if x = k then None else get d x) = Some w" for w
    using assms by (auto simp: get_items items_del ok_del)
  then show ?thesis by (metis option.exhaust)
qed

lemma keys_put:
  assumes "ok d"
  shows "map fst (items (put d k v)) =
    (if get d k = None then map fst (items d) @ [k] else map fst (items d))"
proof (cases "get d k")
  case None
  then show ?thesis using assms by (simp add: items_put_new)
next
  case (Some u)
  have "map fst (map (\<lambda>(x, y). if x = k then (x, v) else (x, y)) (items d)) = map fst (items d)"
    by (simp add: case_prod_beta if_distrib cong: if_cong)
  then show ?thesis using assms Some by (simp add: items_put_old)
qed

end

type_synonym ('k, 'v) dict = "('k \<times> 'v) list"

abbreviation dict_get :: "('k, 'v) dict \<Rightarrow> 'k \<Rightarrow> 'v option" where
  "dict_get d k \<equiv> map_of d k"

fun dict_put :: "('k, 'v) dict \<Rightarrow> 'k \<Rightarrow> 'v \<Rightarrow> ('k, 'v) dict" where
  "dict_put [] k v = [(k, v)]"
| "dict_put ((x, y) # d) k v = (if x = k then (x, v) # d else (x, y) # dict_put d k v)"

fun dict_del :: "('k, 'v) dict \<Rightarrow> 'k \<Rightarrow> ('k, 'v) dict" where
  "dict_del [] k = []"
| "dict_del ((x, y) # d) k = (if x = k then d else (x, y) # dict_del d k)"

definition dict_ok :: "('k, 'v) dict \<Rightarrow> bool" where
  "dict_ok d \<longleftrightarrow> distinct (map fst d)"

definition dict_has :: "('k, 'v) dict \<Rightarrow> 'k \<Rightarrow> bool" where
  "dict_has d k \<longleftrightarrow> map_of d k \<noteq> None"

lemma dict_ok_simps [simp]:
  "dict_ok []"
  "dict_ok ((k, v) # d) \<longleftrightarrow> k \<notin> fst ` set d \<and> dict_ok d"
  by (auto simp: dict_ok_def)

lemma dict_has_simps [simp]:
  "dict_has [] k \<longleftrightarrow> False"
  "dict_has ((x, v) # d) k \<longleftrightarrow> x = k \<or> dict_has d k"
  by (auto simp: dict_has_def)

lemma dict_has_iff: "dict_has d k \<longleftrightarrow> k \<in> fst ` set d"
  by (simp add: dict_has_def map_of_eq_None_iff)

lemma dict_put_new: "dict_get d k = None \<Longrightarrow> dict_put d k v = d @ [(k, v)]"
  by (induction d k v rule: dict_put.induct) (auto split: if_splits)

lemma dict_put_old:
  "dict_ok d \<Longrightarrow> dict_get d k = Some u \<Longrightarrow>
   dict_put d k v = map (\<lambda>(x, y). if x = k then (x, v) else (x, y)) d"
  by (induction d k v rule: dict_put.induct)
    (force split: if_splits intro!: map_idI [symmetric])+

lemma dict_del_filter: "dict_ok d \<Longrightarrow> dict_del d k = filter (\<lambda>(x, y). x \<noteq> k) d"
  by (induction d k rule: dict_del.induct) (force intro!: filter_True [symmetric])+

lemma fst_dict_put: "fst ` set (dict_put d k v) = insert k (fst ` set d)"
  by (induction d k v rule: dict_put.induct) auto

lemma dict_ok_put: "dict_ok d \<Longrightarrow> dict_ok (dict_put d k v)"
  by (induction d k v rule: dict_put.induct) (auto simp: fst_dict_put)

lemma dict_ok_del: "dict_ok d \<Longrightarrow> dict_ok (dict_del d k)"
  by (simp add: dict_del_filter dict_ok_def distinct_map_filter)

lemma set_dict_put: "set (dict_put d k v) \<subseteq> insert (k, v) (set d)"
  by (induction d k v rule: dict_put.induct) auto

lemma set_dict_del: "set (dict_del d k) \<subseteq> set d"
  by (induction d k rule: dict_del.induct) auto

lemma dict_putD: "p \<in> set (dict_put d k v) \<Longrightarrow> p = (k, v) \<or> p \<in> set d"
  using set_dict_put [of d k v] by auto

lemma dict_delD: "p \<in> set (dict_del d k) \<Longrightarrow> p \<in> set d"
  using set_dict_del [of d k] by auto

interpretation dict: ordered_dict dict_get dict_put dict_del "\<lambda>d. d" dict_ok
  by unfold_locales
    (auto simp: dict_ok_put dict_ok_del dict_put_new dict_put_old dict_del_filter,
     auto simp: dict_ok_def distinct_map inj_on_def)

lemma dict_put_nonempty [simp]: "dict_put d k v \<noteq> []"
  by (cases "(d, k, v)" rule: dict_put.cases) auto

lemma dict_get_put: "dict_get (dict_put d k v) x = (if x = k then Some v else dict_get d x)"
  by (induction d k v rule: dict_put.induct) auto

lemma keys_put_old: "dict_get d k = Some u \<Longrightarrow> map fst (dict_put d k v) = map fst d"
  by (induction d k v rule: dict_put.induct) (auto split: if_splits)

lemma dict_del_last: "k \<notin> fst ` set d \<Longrightarrow> dict_del (d @ [(k, v)]) k = d"
  by (induction d) auto

lemma dict_get_last: "k \<notin> fst ` set d \<Longrightarrow> dict_get (d @ [(k, v)]) k = Some v"
  by (induction d) auto

section \<open>String methods\<close>

text \<open>
  A \<open>string\<close> holds the bytes of the UTF-8 form of a Python text.  Every separator,
  prefix and suffix the code passes to these methods is ASCII, and a UTF-8 form is
  self-synchronising, so splitting and searching bytes finds the places that splitting
  and searching code points finds.  \<open>strip\<close> is only applied to HTTP headers, which
  Tornado decodes as Latin-1, so there a character is a code point.
\<close>

fun split_on :: "char \<Rightarrow> string \<Rightarrow> string list" where
  "split_on c [] = [[]]"
| "split_on c (x # xs) =
     (if x = c then [] # split_on c xs
      else (case split_on c xs of [] \<Rightarrow> [[x]] | w # ws \<Rightarrow> (x # w) # ws))"

fun join_with :: "string \<Rightarrow> string list \<Rightarrow> string" where
  "join_with sep [] = []"
| "join_with sep [w] = w"
| "join_with sep (w # ws) = w @ sep @ join_with sep ws"

definition starts_with :: "string \<Rightarrow> string \<Rightarrow> bool" where
  "starts_with p s \<longleftrightarrow> take (length p) s = p"

definition ends_with :: "string \<Rightarrow> string \<Rightarrow> bool" where
  "ends_with p s \<longleftrightarrow> starts_with (rev p) (rev s)"

fun contains :: "string \<Rightarrow> string \<Rightarrow> bool" where
  "contains p [] \<longleftrightarrow> p = []"
| "contains p (c # s) \<longleftrightarrow> starts_with p (c # s) \<or> contains p s"

definition is_space :: "char \<Rightarrow> bool" where
  "is_space c \<longleftrightarrow> (let n = of_char c :: nat in
     9 \<le> n \<and> n \<le> 13 \<or> 28 \<le> n \<and> n \<le> 32 \<or> n = 133 \<or> n = 160)"

definition strip :: "string \<Rightarrow> string" where
  "strip s = rev (dropWhile is_space (rev (dropWhile is_space s)))"

definition remove_char :: "char \<Rightarrow> string \<Rightarrow> string" where
  "remove_char c s = filter (\<lambda>x. x \<noteq> c) s"

lemma split_on_nonempty [simp]: "split_on c s \<noteq> []"
  by (cases s) (auto split: list.splits)

lemma join_split_on: "join_with [c] (split_on c s) = s"
proof (induction s)
  case (Cons x xs)
  show ?case
  proof (cases "split_on c xs")
    case (Cons w ws)
    with Cons.IH show ?thesis by (cases ws) auto
  qed simp
qed simp

lemma split_on_no_sep: "w \<in> set (split_on c s) \<Longrightarrow> c \<notin> set w"
  by (induction s arbitrary: w) (auto split: list.splits if_splits)

lemma split_on_clean: "c \<notin> set s \<Longrightarrow> split_on c s = [s]"
  by (induction s) auto

lemma split_on_append: "c \<notin> set w \<Longrightarrow> split_on c (w @ c # s) = w # split_on c s"
  by (induction w) auto

lemma split_on_join:
  "ws \<noteq> [] \<Longrightarrow> \<forall>w \<in> set ws. c \<notin> set w \<Longrightarrow> split_on c (join_with [c] ws) = ws"
  by (induction "[c]" ws rule: join_with.induct) (auto simp: split_on_clean split_on_append)

lemma starts_with_append [simp]: "starts_with p (p @ s)"
  by (simp add: starts_with_def)

lemma starts_with_Cons [simp]:
  "starts_with (p # ps) (c # s) \<longleftrightarrow> p = c \<and> starts_with ps s"
  "starts_with [] s"
  "\<not> starts_with (p # ps) []"
  by (auto simp: starts_with_def)

lemma starts_with_prefix [simp]: "starts_with (p @ q) (p @ s) \<longleftrightarrow> starts_with q s"
  by (induction p) auto

lemma ends_with_append [simp]: "ends_with p (s @ p)"
  by (simp add: ends_with_def)

lemma contains_iff: "contains p s \<longleftrightarrow> (\<exists>u v. s = u @ p @ v)"
proof (induction s)
  case (Cons c s)
  have "starts_with p (c # s) \<longleftrightarrow> (\<exists>v. c # s = p @ v)"
    unfolding starts_with_def by (metis append_eq_conv_conj append_take_drop_id)
  with Cons.IH show ?case by (simp add: Cons_eq_append_conv) metis
qed simp

end
