(* ===== verification/Json.thy ===== *)
theory Json
  imports Prelude
begin

text \<open>
  The values of Python's \<open>json\<close> module and what the code does with them: \<open>json.dumps\<close>
  with \<open>ensure_ascii=False\<close>, \<open>json.loads\<close> on text, item access, membership and equality
  of the loaded values.

  A float is held as the literal \<open>repr\<close> prints for it.  The function that maps the
  literal read to that canonical one (\<open>repr(float(s))\<close>) is the parameter \<open>fl\<close> of the
  reader: no component computes with a float, and the theorems that need something of
  \<open>fl\<close> say so.  The reader recurses on fuel, because the calls are not structural;
  \<open>scan_value_fuel\<close> shows that the fuel \<open>loads\<close> starts with is never exhausted, so that
  \<open>None\<close> always stands for \<open>JSONDecodeError\<close>.  Python's limits on nesting depth and on the
  length of integer literals are not modelled.
\<close>

section \<open>Values\<close>

datatype json =
    JNull
  | JBool bool
  | JInt int
  | JFloat string
  | JStr string
  | JList "json list"
  | JObj "(string \<times> json) list"

subsection \<open>Equality, membership and items, as Python computes them\<close>

text \<open>
  Python compares booleans, integers and integral floats by value, and dictionaries
  without regard to order.  \<open>canon\<close> maps a value to a representative of its class.
  The literal of an integral float below \<open>10^16\<close> is its exact digits followed by \<open>.0\<close>;
  larger floats are printed with an exponent and are only identified with each other.
\<close>

definition is_digit :: "char \<Rightarrow> bool" where
  "is_digit c \<longleftrightarrow> (let n = of_char c :: nat in 48 \<le> n \<and> n \<le> 57)"

definition digit_val :: "char \<Rightarrow> nat" where
  "digit_val c = of_char c - 48"

definition nat_of_digits :: "string \<Rightarrow> nat" where
  "nat_of_digits s = foldl (\<lambda>n c. 10 * n + digit_val c) 0 s"

definition integral_literal :: "string \<Rightarrow> int option" where
  "integral_literal t =
     (let neg = starts_with ''-'' t; u = (if neg then tl t else t); ds = takeWhile is_digit u in
      if ds \<noteq> [] \<and> dropWhile is_digit u = ''.0''
      then Some (if neg then - int (nat_of_digits ds) else int (nat_of_digits ds)) else None)"

fun canon :: "json \<Rightarrow> json" where
  "canon JNull = JNull"
| "canon (JBool b) = JInt (if b then 1 else 0)"
| "canon (JInt i) = JInt i"
| "canon (JFloat t) = (case integral_literal t of Some i \<Rightarrow> JInt i | None \<Rightarrow> JFloat t)"
| "canon (JStr s) = JStr s"
| "canon (JList vs) = JList (map canon vs)"
| "canon (JObj kvs) = JObj (sort_key fst (map (\<lambda>(k, v). (k, canon v)) kvs))"

definition py_eq :: "json \<Rightarrow> json \<Rightarrow> bool" where
  "py_eq a b \<longleftrightarrow> canon a = canon b"

definition py_in :: "json \<Rightarrow> json list \<Rightarrow> bool" where
  "py_in x vs \<longleftrightarrow> list_ex (py_eq x) vs"

text \<open>\<open>vs.remove(x)\<close> drops the first equal element and raises \<open>ValueError\<close> without one.\<close>

fun remove_first :: "json \<Rightarrow> json list \<Rightarrow> json list" where
  "remove_first x [] = []"
| "remove_first x (v # vs) = (if py_eq x v then vs else v # remove_first x vs)"

definition py_remove :: "json \<Rightarrow> json list \<Rightarrow> exn + json list" where
  "py_remove x vs = (if py_in x vs then Inr (remove_first x vs) else Inl ValueError)"

text \<open>Hashing: lists and dictionaries are not hashable (\<open>TypeError\<close>).\<close>

definition hashable :: "json \<Rightarrow> bool" where
  "hashable v = (case v of JList _ \<Rightarrow> False | JObj _ \<Rightarrow> False | _ \<Rightarrow> True)"

text \<open>
  Dictionaries keyed by such values hold the canonical key, since equal keys are one key.
  \<open>v in d\<close> raises \<open>TypeError\<close> when \<open>v\<close> cannot be hashed.
\<close>

definition in_keys :: "json \<Rightarrow> (json, 'v) dict \<Rightarrow> exn + bool" where
  "in_keys v d = (if hashable v then Inr (dict_has d (canon v)) else Inl TypeError)"

definition key_item :: "(json, 'v) dict \<Rightarrow> json \<Rightarrow> exn + 'v" where
  "key_item d v = (if hashable v then or_raise KeyError (dict_get d (canon v)) else Inl TypeError)"

definition has_iter :: "json \<Rightarrow> bool" where
  "has_iter v = (case v of JStr _ \<Rightarrow> True | JList _ \<Rightarrow> True | JObj _ \<Rightarrow> True | _ \<Rightarrow> False)"

text \<open>\<open>'k' in v\<close>: a key, an element or a substring, by the type of \<open>v\<close>.\<close>

definition py_contains :: "string \<Rightarrow> json \<Rightarrow> exn + bool" where
  "py_contains k v =
     (case v of
        JObj kvs \<Rightarrow> Inr (dict_has kvs k)
      | JList vs \<Rightarrow> Inr (py_in (JStr k) vs)
      | JStr s \<Rightarrow> Inr (contains k s)
      | _ \<Rightarrow> Inl TypeError)"

text \<open>\<open>v['k']\<close>: only a dictionary takes a string subscript.\<close>

definition py_getitem :: "json \<Rightarrow> string \<Rightarrow> exn + json" where
  "py_getitem v k = (case v of JObj kvs \<Rightarrow> or_raise KeyError (dict_get kvs k) | _ \<Rightarrow> Inl TypeError)"

text \<open>\<open>v.update({'k': x})\<close> on a dictionary; other values have no such method.\<close>

definition py_update :: "json \<Rightarrow> string \<Rightarrow> json \<Rightarrow> exn + json" where
  "py_update v k x = (case v of JObj kvs \<Rightarrow> Inr (JObj (dict_put kvs k x)) | _ \<Rightarrow> Inl AttributeError)"

lemma py_eq_refl [simp]: "py_eq a a"
  by (simp add: py_eq_def)

lemma py_eq_sym: "py_eq a b \<longleftrightarrow> py_eq b a"
  by (auto simp: py_eq_def)

lemma py_eq_trans: "py_eq a b \<Longrightarrow> py_eq b c \<Longrightarrow> py_eq a c"
  by (simp add: py_eq_def)

lemma py_eq_JStr [simp]: "py_eq (JStr s) (JStr t) \<longleftrightarrow> s = t"
  by (simp add: py_eq_def)

lemma py_in_simps [simp]:
  "py_in x [] \<longleftrightarrow> False"
  "py_in x (v # vs) \<longleftrightarrow> py_eq x v \<or> py_in x vs"
  by (simp_all add: py_in_def)

lemma py_in_append [simp]: "py_in x (us @ vs) \<longleftrightarrow> py_in x us \<or> py_in x vs"
  by (simp add: py_in_def)

lemma py_in_iff: "py_in x vs \<longleftrightarrow> canon x \<in> canon ` set vs"
  by (induction vs) (auto simp: py_eq_def)

lemma py_in_eq: "py_eq x y \<Longrightarrow> py_in x vs \<longleftrightarrow> py_in y vs"
  by (simp add: py_in_iff py_eq_def)

lemma set_remove_first: "set (remove_first x vs) \<subseteq> set vs"
  by (induction vs) auto

lemma py_in_remove_first: "py_in y (remove_first x vs) \<Longrightarrow> py_in y vs"
  using set_remove_first [of x vs] by (auto simp: py_in_iff)

definition pairwise_distinct :: "json list \<Rightarrow> bool" where
  "pairwise_distinct vs \<longleftrightarrow> distinct (map canon vs)"

lemma pairwise_distinct_simps [simp]:
  "pairwise_distinct []"
  "pairwise_distinct (v # vs) \<longleftrightarrow> \<not> py_in v vs \<and> pairwise_distinct vs"
  by (auto simp: pairwise_distinct_def py_in_iff)

lemma pairwise_distinct_snoc:
  "pairwise_distinct (vs @ [v]) \<longleftrightarrow> pairwise_distinct vs \<and> \<not> py_in v vs"
  by (auto simp: pairwise_distinct_def py_in_iff)

lemma pairwise_distinct_remove:
  "pairwise_distinct vs \<Longrightarrow> pairwise_distinct (remove_first x vs)"
  by (induction vs) (auto dest: py_in_remove_first)

lemma py_in_remove_first_iff:
  "pairwise_distinct vs \<Longrightarrow> py_in y (remove_first x vs) \<longleftrightarrow> py_in y vs \<and> \<not> py_eq x y"
  by (induction vs) (auto simp: py_in_iff py_eq_def pairwise_distinct_def)

section \<open>Writing: \<open>json.dumps(v, ensure_ascii=False)\<close>\<close>

abbreviation quote_char :: char where "quote_char \<equiv> CHR 0x22"
abbreviation backslash_char :: char where "backslash_char \<equiv> CHR 0x5C"

definition digit_char :: "nat \<Rightarrow> char" where
  "digit_char n = ''0123456789'' ! n"

definition hex_char :: "nat \<Rightarrow> char" where
  "hex_char n = ''0123456789abcdef'' ! n"

fun nat_digits :: "nat \<Rightarrow> string" where
  "nat_digits n = (if n < 10 then [digit_char n] else nat_digits (n div 10) @ [digit_char (n mod 10)])"

declare nat_digits.simps [simp del]

definition int_literal :: "int \<Rightarrow> string" where
  "int_literal i = (if i < 0 then ''-'' @ nat_digits (nat (- i)) else nat_digits (nat i))"

definition escape_char :: "char \<Rightarrow> string" where
  "escape_char c =
     (if c = quote_char then [backslash_char, quote_char]
      else if c = backslash_char then [backslash_char, backslash_char]
      else if c = CHR 0x08 then [backslash_char, CHR ''b'']
      else if c = CHR 0x0C then [backslash_char, CHR ''f'']
      else if c = CHR 0x0A then [backslash_char, CHR ''n'']
      else if c = CHR 0x0D then [backslash_char, CHR ''r'']
      else if c = CHR 0x09 then [backslash_char, CHR ''t'']
      else if of_char c < (32::nat)
      then [backslash_char, CHR ''u'', CHR ''0'', CHR ''0'',
            hex_char (of_char c div 16), hex_char (of_char c mod 16)]
      else [c])"

definition dumps_str :: "string \<Rightarrow> string" where
  "dumps_str s = [quote_char] @ concat (map escape_char s) @ [quote_char]"

fun dumps :: "json \<Rightarrow> string" where
  "dumps JNull = ''null''"
| "dumps (JBool b) = (if b then ''true'' else ''false'')"
| "dumps (JInt i) = int_literal i"
| "dumps (JFloat t) = t"
| "dumps (JStr s) = dumps_str s"
| "dumps (JList vs) = ''['' @ join_with '', '' (map dumps vs) @ '']''"
| "dumps (JObj kvs) =
     ''{'' @ join_with '', '' (map (\<lambda>(k, v). dumps_str k @ '': '' @ dumps v) kvs) @ ''}''"

section \<open>Reading: \<open>json.loads(s)\<close>\<close>

definition is_ws :: "char \<Rightarrow> bool" where
  "is_ws c \<longleftrightarrow> c = CHR 0x20 \<or> c = CHR 0x09 \<or> c = CHR 0x0A \<or> c = CHR 0x0D"

definition skip_ws :: "string \<Rightarrow> string" where
  "skip_ws s = dropWhile is_ws s"

definition hex_val :: "char \<Rightarrow> nat option" where
  "hex_val c = (let n = of_char c :: nat in
     if 48 \<le> n \<and> n \<le> 57 then Some (n - 48)
     else if 97 \<le> n \<and> n \<le> 102 then Some (n - 87)
     else if 65 \<le> n \<and> n \<le> 70 then Some (n - 55)
     else None)"

definition utf8 :: "nat \<Rightarrow> string" where
  "utf8 n =
     (if n < 0x80 then [char_of n]
      else if n < 0x800 then [char_of (0xC0 + n div 64), char_of (0x80 + n mod 64)]
      else if n < 0x10000
      then [char_of (0xE0 + n div 4096), char_of (0x80 + n div 64 mod 64), char_of (0x80 + n mod 64)]
      else [char_of (0xF0 + n div 262144), char_of (0x80 + n div 4096 mod 64),
            char_of (0x80 + n div 64 mod 64), char_of (0x80 + n mod 64)])"

fun hex4 :: "string \<Rightarrow> (nat \<times> string) option" where
  "hex4 (a # b # c # d # r) =
     (case (hex_val a, hex_val b, hex_val c, hex_val d) of
        (Some p, Some q, Some s, Some t) \<Rightarrow> Some (4096 * p + 256 * q + 16 * s + t, r)
      | _ \<Rightarrow> None)"
| "hex4 _ = None"

text \<open>What follows \<open>\u\<close>: four hex digits, and a second escape for a surrogate pair.\<close>

definition scan_u :: "string \<Rightarrow> (string \<times> string) option" where
  "scan_u s =
     (case hex4 s of
        None \<Rightarrow> None
      | Some (n, r) \<Rightarrow>
          if 0xD800 \<le> n \<and> n \<le> 0xDBFF \<and> starts_with [backslash_char, CHR ''u''] r
          then (case hex4 (drop 2 r) of
                  None \<Rightarrow> None
                | Some (m, r') \<Rightarrow>
                    if 0xDC00 \<le> m \<and> m \<le> 0xDFFF
                    then Some (utf8 (0x10000 + (n - 0xD800) * 1024 + (m - 0xDC00)), r')
                    else Some (utf8 n, r))
          else Some (utf8 n, r))"

definition unescape :: "char \<Rightarrow> char option" where
  "unescape c =
     (if c = quote_char \<or> c = backslash_char \<or> c = CHR 0x2F then Some c
      else if c = CHR ''b'' then Some (CHR 0x08)
      else if c = CHR ''f'' then Some (CHR 0x0C)
      else if c = CHR ''n'' then Some (CHR 0x0A)
      else if c = CHR ''r'' then Some (CHR 0x0D)
      else if c = CHR ''t'' then Some (CHR 0x09)
      else None)"

definition prepend :: "string \<Rightarrow> (string \<times> string) option \<Rightarrow> (string \<times> string) option" where
  "prepend t r = (case r of None \<Rightarrow> None | Some (s, u) \<Rightarrow> Some (t @ s, u))"

lemma hex4_length: "hex4 s = Some (n, r) \<Longrightarrow> length r < length s"
  by (cases s rule: hex4.cases) (auto split: option.splits)

lemma scan_u_length: "scan_u s = Some (t, r) \<Longrightarrow> length r < length s"
  by (fastforce simp: scan_u_def split: option.splits if_splits dest: hex4_length)

text \<open>The text after an opening quote: the string and what follows the closing quote.\<close>

function scan_str :: "string \<Rightarrow> (string \<times> string) option" where
  "scan_str [] = None"
| "scan_str (c # s) =
     (if c = quote_char then Some ([], s)
      else if c = backslash_char then
        (case s of
           [] \<Rightarrow> None
         | e # s' \<Rightarrow>
             if e = CHR ''u''
             then (case scan_u s' of None \<Rightarrow> None | Some (t, r) \<Rightarrow> prepend t (scan_str r))
             else (case unescape e of None \<Rightarrow> None | Some x \<Rightarrow> prepend [x] (scan_str s')))
      else if of_char c < (32::nat) then None
      else prepend [c] (scan_str s))"
  by pat_completeness auto
termination
  by (relation "measure length") (auto dest: scan_u_length)

declare scan_str.simps(2) [simp del]

text \<open>
  A number: the literal, whether it is a float, and the rest.  A fraction or an exponent
  that is not complete is left unread.
\<close>

definition scan_fraction :: "string \<Rightarrow> string \<times> string" where
  "scan_fraction s =
     (case s of
        c # r \<Rightarrow> if c = CHR ''.'' \<and> takeWhile is_digit r \<noteq> []
          then (c # takeWhile is_digit r, dropWhile is_digit r) else ([], s)
      | [] \<Rightarrow> ([], []))"

definition scan_exponent :: "string \<Rightarrow> string \<times> string" where
  "scan_exponent s =
     (case s of
        c # r \<Rightarrow>
          if c = CHR ''e'' \<or> c = CHR ''E'' then
            (let sg = (case r of d # _ \<Rightarrow> if d = CHR ''+'' \<or> d = CHR ''-'' then [d] else [] | [] \<Rightarrow> []);
                 r' = drop (length sg) r
             in if takeWhile is_digit r' \<noteq> []
                then (c # sg @ takeWhile is_digit r', dropWhile is_digit r') else ([], s))
          else ([], s)
      | [] \<Rightarrow> ([], []))"

definition scan_natural :: "string \<Rightarrow> (string \<times> string) option" where
  "scan_natural s =
     (case s of
        [] \<Rightarrow> None
      | c # r \<Rightarrow>
          if c = CHR ''0'' then Some ([c], r)
          else if is_digit c then Some (takeWhile is_digit s, dropWhile is_digit s)
          else None)"

definition split_number :: "string \<Rightarrow> (string \<times> bool \<times> string) option" where
  "split_number s =
     (let sg = (if starts_with ''-'' s then ''-'' else []) in
      case scan_natural (drop (length sg) s) of
        None \<Rightarrow> None
      | Some (ds, r) \<Rightarrow>
          (case scan_fraction r of
             (fr, r1) \<Rightarrow>
               (case scan_exponent r1 of
                  (ex, r2) \<Rightarrow> Some (sg @ ds @ fr @ ex, fr @ ex \<noteq> [], r2))))"

definition int_of_literal :: "string \<Rightarrow> int" where
  "int_of_literal t =
     (if starts_with ''-'' t then - int (nat_of_digits (tl t)) else int (nat_of_digits t))"

definition scan_number :: "(string \<Rightarrow> string) \<Rightarrow> string \<Rightarrow> (json \<times> string) option" where
  "scan_number fl s =
     (case split_number s of
        None \<Rightarrow> None
      | Some (t, is_float, r) \<Rightarrow>
          Some (if is_float then JFloat (fl t) else JInt (int_of_literal t), r))"

definition dict_of :: "(string \<times> json) list \<Rightarrow> (string, json) dict" where
  "dict_of kvs = foldl (\<lambda>d (k, v). dict_put d k v) [] kvs"

definition cons_item :: "'a \<Rightarrow> ('a list \<times> string) option \<Rightarrow> ('a list \<times> string) option" where
  "cons_item x r = (case r of None \<Rightarrow> None | Some (xs, u) \<Rightarrow> Some (x # xs, u))"

fun scan_value :: "(string \<Rightarrow> string) \<Rightarrow> nat \<Rightarrow> string \<Rightarrow> (json \<times> string) option"
  and scan_items :: "(string \<Rightarrow> string) \<Rightarrow> nat \<Rightarrow> string \<Rightarrow> (json list \<times> string) option"
  and scan_members :: "(string \<Rightarrow> string) \<Rightarrow> nat \<Rightarrow> string \<Rightarrow> ((string \<times> json) list \<times> string) option"
where
  "scan_value fl 0 s = None"
| "scan_value fl (Suc n) [] = None"
| "scan_value fl (Suc n) (c # r) =
     (if c = quote_char then map_option (\<lambda>(t, r'). (JStr t, r')) (scan_str r)
      else if c = CHR ''{'' then
        (if starts_with ''}'' (skip_ws r) then Some (JObj [], tl (skip_ws r))
         else map_option (\<lambda>(kvs, r'). (JObj (dict_of kvs), r')) (scan_members fl n (skip_ws r)))
      else if c = CHR ''['' then
        (if starts_with '']'' (skip_ws r) then Some (JList [], tl (skip_ws r))
         else map_option (\<lambda>(vs, r'). (JList vs, r')) (scan_items fl n (skip_ws r)))
      else if starts_with ''null'' (c # r) then Some (JNull, drop 3 r)
      else if starts_with ''true'' (c # r) then Some (JBool True, drop 3 r)
      else if starts_with ''false'' (c # r) then Some (JBool False, drop 4 r)
      else if starts_with ''NaN'' (c # r) then Some (JFloat ''NaN'', drop 2 r)
      else if starts_with ''Infinity'' (c # r) then Some (JFloat ''Infinity'', drop 7 r)
      else if starts_with ''-Infinity'' (c # r) then Some (JFloat ''-Infinity'', drop 8 r)
      else scan_number fl (c # r))"
| "scan_items fl 0 s = None"
| "scan_items fl (Suc n) s =
     (case scan_value fl n s of
        None \<Rightarrow> None
      | Some (v, r) \<Rightarrow>
          (case skip_ws r of
             [] \<Rightarrow> None
           | d # r' \<Rightarrow>
               if d = CHR '']'' then Some ([v], r')
               else if d = CHR '','' then cons_item v (scan_items fl n (skip_ws r'))
               else None))"
| "scan_members fl 0 s = None"
| "scan_members fl (Suc n) s =
     (if \<not> starts_with [quote_char] s then None else
      case scan_str (tl s) of
        None \<Rightarrow> None
      | Some (k, r) \<Rightarrow>
          if \<not> starts_with '':'' (skip_ws r) then None else
          (case scan_value fl n (skip_ws (tl (skip_ws r))) of
             None \<Rightarrow> None
           | Some (v, r1) \<Rightarrow>
               (case skip_ws r1 of
                  [] \<Rightarrow> None
                | d # r2 \<Rightarrow>
                    if d = CHR ''}'' then Some ([(k, v)], r2)
                    else if d = CHR '','' then cons_item (k, v) (scan_members fl n (skip_ws r2))
                    else None)))"

definition enough_fuel :: "string \<Rightarrow> nat" where
  "enough_fuel s = 2 * length s + 2"

definition byte_order_mark :: string where
  "byte_order_mark = [CHR 0xEF, CHR 0xBB, CHR 0xBF]"

definition loads :: "(string \<Rightarrow> string) \<Rightarrow> string \<Rightarrow> exn + json" where
  "loads fl s =
     (if starts_with byte_order_mark s then Inl JSONDecodeError
      else (case scan_value fl (enough_fuel s) (skip_ws s) of
              None \<Rightarrow> Inl JSONDecodeError
            | Some (v, r) \<Rightarrow> if skip_ws r = [] then Inr v else Inl JSONDecodeError))"

end
