(* ===== verification/Json_Text.thy ===== *)
theory Json_Text
  imports Json
begin

text \<open>
  What the text layer guarantees: reading back a written value gives the value
  (\<open>loads_dumps\<close>), the fuel of the reader is always enough (\<open>scan_value_fuel\<close>), and a value
  that was read can be written and read again (\<open>loads_ok\<close>).
\<close>

section \<open>Reading back what was written\<close>

subsection \<open>Numbers\<close>

lemma less_10_cases: "(n::nat) < 10 \<Longrightarrow> n \<in> {0, 1, 2, 3, 4, 5, 6, 7, 8, 9}"
  by auto

lemma digit_char_props:
  assumes "n < 10"
  shows "is_digit (digit_char n)" and "digit_val (digit_char n) = n"
    and "digit_char n = CHR ''0'' \<longleftrightarrow> n = 0"
  using less_10_cases [OF assms]
  by (auto simp: is_digit_def digit_char_def digit_val_def)

lemma nat_of_digits_snoc: "nat_of_digits (s @ [c]) = 10 * nat_of_digits s + digit_val c"
  by (simp add: nat_of_digits_def)

lemma nat_digits_props:
  "nat_of_digits (nat_digits n) = n \<and> nat_digits n \<noteq> [] \<and> list_all is_digit (nat_digits n) \<and>
   (hd (nat_digits n) = CHR ''0'' \<longrightarrow> nat_digits n = ''0'')"
proof (induction n rule: nat_digits.induct)
  case (1 n)
  show ?case
  proof (cases "n < 10")
    case True
    then show ?thesis
      by (subst (1 2 3 4 5) nat_digits.simps)
        (auto simp: digit_char_props nat_of_digits_def)
  next
    case False
    have m: "n mod 10 < 10" by simp
    have hd0: "hd (nat_digits (n div 10)) \<noteq> CHR ''0''"
    proof
      assume "hd (nat_digits (n div 10)) = CHR ''0''"
      with "1.IH" [OF False] have "nat_digits (n div 10) = ''0''" by simp
      with "1.IH" [OF False] have "n div 10 = 0"
        by (metis (no_types) nat_of_digits_def digit_val_def foldl_Cons foldl_Nil
            mult_zero_right of_char_Char plus_nat.add_0 diff_self_eq_0 digit_char_props(2,3) zero_less_numeral)
      with False show False by simp
    qed
    have eq: "nat_digits n = nat_digits (n div 10) @ [digit_char (n mod 10)]"
      using False by (subst nat_digits.simps) simp
    have ne: "nat_digits (n div 10) \<noteq> []" using "1.IH" [OF False] by simp
    have val: "nat_of_digits (nat_digits n) = n"
      using "1.IH" [OF False] digit_char_props(2) [OF m] by (simp add: eq nat_of_digits_snoc)
    have "hd (nat_digits n) \<noteq> CHR ''0''"
      using hd0 ne by (simp add: eq)
    moreover have "list_all is_digit (nat_digits n)"
      using "1.IH" [OF False] digit_char_props(1) [OF m] by (simp add: eq)
    ultimately show ?thesis using val by (simp add: eq)
  qed
qed

lemmas nat_of_digits_nat_digits = nat_digits_props [THEN conjunct1]
lemmas nat_digits_digits = nat_digits_props [THEN conjunct2, THEN conjunct2, THEN conjunct1]

definition stops :: "string \<Rightarrow> bool" where
  "stops s \<longleftrightarrow> s = [] \<or> hd s \<in> {CHR '','', CHR '']'', CHR ''}''}"

lemma stops_cases:
  assumes "stops s"
  obtains "s = []" | c r where "s = c # r" "c = CHR '','' \<or> c = CHR '']'' \<or> c = CHR ''}''"
  using assms by (cases s) (auto simp: stops_def)

lemma digits_stop:
  assumes "stops r"
  shows "takeWhile is_digit (s @ r) = takeWhile is_digit s"
    and "dropWhile is_digit (s @ r) = dropWhile is_digit s @ r"
proof -
  have "takeWhile is_digit r = []" "dropWhile is_digit r = r"
    using assms by (auto elim!: stops_cases simp: is_digit_def)
  then show "takeWhile is_digit (s @ r) = takeWhile is_digit s"
    and "dropWhile is_digit (s @ r) = dropWhile is_digit s @ r"
    by (induction s) auto
qed

lemma scan_natural_append:
  assumes "stops r" and "scan_natural s = Some (ds, t)"
  shows "scan_natural (s @ r) = Some (ds, t @ r)"
proof (cases s)
  case (Cons c s')
  then show ?thesis
    using assms digits_stop [OF assms(1), of "c # s'"] by (auto simp: scan_natural_def split: if_splits)
qed (use assms in \<open>simp add: scan_natural_def\<close>)

lemma scan_fraction_append:
  assumes "stops r" and "scan_fraction s = (ds, t)"
  shows "scan_fraction (s @ r) = (ds, t @ r)"
proof (cases s)
  case Nil
  with assms show ?thesis by (auto elim!: stops_cases simp: scan_fraction_def)
next
  case (Cons c s')
  then show ?thesis
    using assms digits_stop [OF assms(1), of s'] by (auto simp: scan_fraction_def split: if_splits)
qed

lemma scan_exponent_append:
  assumes "stops r" and "scan_exponent s = (ds, t)"
  shows "scan_exponent (s @ r) = (ds, t @ r)"
proof (cases s)
  case Nil
  with assms show ?thesis by (auto elim!: stops_cases simp: scan_exponent_def)
next
  case (Cons c s')
  show ?thesis
  proof (cases s')
    case Nil
    with Cons assms show ?thesis
      by (auto elim!: stops_cases simp: scan_exponent_def is_digit_def)
  next
    case (Cons d u)
    with \<open>s = c # s'\<close> show ?thesis
      using assms digits_stop [OF assms(1), of u] digits_stop [OF assms(1), of "d # u"]
      by (auto simp: scan_exponent_def Let_def split: if_splits)
  qed
qed

lemma split_number_append:
  assumes "stops r" and "split_number s = Some (t, b, u)"
  shows "split_number (s @ r) = Some (t, b, u @ r)"
proof -
  have "s \<noteq> []" using assms(2) by (auto simp: split_number_def scan_natural_def starts_with_def)
  then have sg: "starts_with ''-'' (s @ r) \<longleftrightarrow> starts_with ''-'' s"
    by (cases s) (auto simp: starts_with_def)
  define sg where "sg = (if starts_with ''-'' s then ''-'' else [])"
  have len: "length sg \<le> length s" using \<open>s \<noteq> []\<close> by (cases s) (auto simp: sg_def)
  obtain ds t1 where n: "scan_natural (drop (length sg) s) = Some (ds, t1)"
    using assms(2) by (fastforce simp: split_number_def sg_def Let_def split: option.splits)
  obtain fr t2 where f: "scan_fraction t1 = (fr, t2)" by fastforce
  obtain ex t3 where e: "scan_exponent t2 = (ex, t3)" by fastforce
  have "(t, b, u) = (sg @ ds @ fr @ ex, fr @ ex \<noteq> [], t3)"
    using assms(2) n f e by (simp add: split_number_def sg_def [symmetric] Let_def)
  moreover have "scan_natural (drop (length sg) (s @ r)) = Some (ds, t1 @ r)"
    using scan_natural_append [OF assms(1) n] len by simp
  ultimately show ?thesis
    using scan_fraction_append [OF assms(1) f] scan_exponent_append [OF assms(1) e] sg
    by (simp add: split_number_def sg_def Let_def)
qed

definition number_start :: "string \<Rightarrow> bool" where
  "number_start s \<longleftrightarrow>
     (\<exists>c r. s = c # r \<and> (is_digit c \<or> c = CHR ''-'' \<and> (\<exists>d u. r = d # u \<and> is_digit d)))"

lemma scan_natural_start: "scan_natural s = Some p \<Longrightarrow> \<exists>d u. s = d # u \<and> is_digit d"
  by (auto simp: scan_natural_def is_digit_def split: list.splits if_splits)

lemma split_number_start:
  assumes "split_number s = Some p"
  shows "number_start s"
proof -
  define k where "k = length (if starts_with ''-'' s then ''-'' else [])"
  obtain q where "scan_natural (drop k s) = Some q"
    using assms by (auto simp: split_number_def k_def Let_def split: option.splits)
  then obtain d u where d: "drop k s = d # u" "is_digit d"
    using scan_natural_start by blast
  show ?thesis
  proof (cases "starts_with ''-'' s")
    case True
    then obtain s' where "s = CHR ''-'' # s'" by (cases s) (auto simp: starts_with_def)
    with True d show ?thesis by (auto simp: k_def number_start_def)
  next
    case False
    with d show ?thesis by (auto simp: k_def number_start_def)
  qed
qed

lemma digit_not_token:
  assumes "is_digit c"
  shows "c \<noteq> quote_char" "c \<noteq> CHR ''{''" "c \<noteq> CHR ''[''" "c \<noteq> CHR ''n''" "c \<noteq> CHR ''t''"
    "c \<noteq> CHR ''f''" "c \<noteq> CHR ''N''" "c \<noteq> CHR ''I''" "c \<noteq> CHR ''-''"
  using assms by (auto simp: is_digit_def)

lemma scan_value_number:
  assumes "number_start s"
  shows "scan_value fl (Suc n) s = scan_number fl s"
proof -
  obtain c r where s: "s = c # r"
    and c: "is_digit c \<or> c = CHR ''-'' \<and> (\<exists>d u. r = d # u \<and> is_digit d)"
    using assms unfolding number_start_def by blast
  from c show ?thesis
  proof
    assume "is_digit c"
    note no = digit_not_token [OF this]
    show ?thesis
      unfolding s scan_value.simps by (simp add: no no [symmetric])
  next
    assume "c = CHR ''-'' \<and> (\<exists>d u. r = d # u \<and> is_digit d)"
    then obtain d u where cd: "c = CHR ''-''" "r = d # u" and "is_digit d" by blast
    note no = digit_not_token [OF \<open>is_digit d\<close>]
    show ?thesis
      unfolding s cd scan_value.simps by (simp add: no no [symmetric])
  qed
qed

lemma split_number_int:
  assumes "stops r"
  shows "split_number (int_literal i @ r) = Some (int_literal i, False, r)"
proof -
  have nat: "scan_natural (nat_digits n @ r) = Some (nat_digits n, r)" for n
  proof -
    have all: "takeWhile is_digit (nat_digits n) = nat_digits n" "dropWhile is_digit (nat_digits n) = []"
      using nat_digits_digits [of n] by (simp_all add: list_all_iff)
    obtain c s where c: "nat_digits n = c # s" using nat_digits_props [of n] by (cases "nat_digits n") auto
    then have "is_digit c" using nat_digits_digits [of n] by simp
    then have "scan_natural (nat_digits n) = Some (nat_digits n, [])"
      using nat_digits_props [of n] all c by (auto simp: scan_natural_def)
    from scan_natural_append [OF assms this] show ?thesis by simp
  qed
  have fr: "scan_fraction r = ([], r)" and ex: "scan_exponent r = ([], r)"
    using scan_fraction_append [OF assms, of "[]"] scan_exponent_append [OF assms, of "[]"]
    by (simp_all add: scan_fraction_def scan_exponent_def)
  have "\<not> starts_with ''-'' (nat_digits n @ r)" for n
    using nat_digits_props [of n] by (cases "nat_digits n") (auto simp: starts_with_def is_digit_def)
  moreover have "starts_with ''-'' (CHR ''-'' # s)" for s by (simp add: starts_with_def)
  ultimately show ?thesis
    by (simp add: split_number_def int_literal_def nat fr ex Let_def)
qed

lemma int_of_literal_int: "int_of_literal (int_literal i) = i"
proof -
  have "\<not> starts_with ''-'' (nat_digits n)" for n
    using nat_digits_props [of n] by (cases "nat_digits n") (auto simp: starts_with_def is_digit_def)
  then show ?thesis
    by (auto simp: int_of_literal_def int_literal_def nat_of_digits_nat_digits starts_with_def)
qed

lemma scan_value_int:
  "stops r \<Longrightarrow> scan_value fl (Suc n) (int_literal i @ r) = Some (JInt i, r)"
  using split_number_int [of r i]
  by (subst scan_value_number) (auto intro: split_number_start simp: scan_number_def int_of_literal_int)

definition float_ok :: "(string \<Rightarrow> string) \<Rightarrow> string \<Rightarrow> bool" where
  "float_ok fl t \<longleftrightarrow>
     t \<in> {''NaN'', ''Infinity'', ''-Infinity''} \<or> fl t = t \<and> split_number t = Some (t, True, [])"

lemma scan_value_float:
  assumes "stops r" and "float_ok fl t"
  shows "scan_value fl (Suc n) (t @ r) = Some (JFloat t, r)"
proof (cases "t \<in> {''NaN'', ''Infinity'', ''-Infinity''}")
  case True
  then show ?thesis by (auto simp: starts_with_def)
next
  case False
  with assms have s: "split_number (t @ r) = Some (t, True, r)" and "fl t = t"
    using split_number_append [of r t] by (auto simp: float_ok_def)
  then show ?thesis
    by (subst scan_value_number) (auto intro: split_number_start simp: scan_number_def)
qed

subsection \<open>Strings\<close>

lemma less_16_cases:
  "(n::nat) < 16 \<Longrightarrow> n \<in> {0, 1, 2, 3, 4, 5, 6, 7, 8, 9, 10, 11, 12, 13, 14, 15}"
  by simp arith

lemma hex_val_hex_char: "n < 16 \<Longrightarrow> hex_val (hex_char n) = Some n"
  by (drule less_16_cases) (auto simp: hex_val_def hex_char_def)

lemma hex_val_0: "hex_val CHR ''0'' = Some 0"
  by (simp add: hex_val_def)

lemma scan_u_control:
  assumes "of_char c < (32::nat)"
  shows "scan_u (CHR ''0'' # CHR ''0'' # hex_char (of_char c div 16) # hex_char (of_char c mod 16) # r)
    = Some ([c], r)"
proof -
  have "16 * (of_char c div 16) + of_char c mod 16 = (of_char c :: nat)" by simp
  then show ?thesis
    using assms by (simp add: scan_u_def hex_val_0 hex_val_hex_char utf8_def)
qed

lemma scan_str_escape: "scan_str (escape_char c @ u) = prepend [c] (scan_str u)"
proof (cases "c \<in> {quote_char, backslash_char, CHR 0x08, CHR 0x0C, CHR 0x0A, CHR 0x0D, CHR 0x09}")
  case True
  then show ?thesis
    by (auto simp: escape_char_def scan_str.simps(2) unescape_def)
next
  case False
  show ?thesis
  proof (cases "of_char c < (32::nat)")
    case True
    with False show ?thesis
      by (simp add: escape_char_def scan_str.simps(2) scan_u_control [OF True])
  next
    case False2: False
    with False show ?thesis
      by (simp add: escape_char_def scan_str.simps(2))
  qed
qed

lemma prepend_Some [simp]: "prepend t (Some (s, u)) = Some (t @ s, u)"
  by (simp add: prepend_def)

lemma scan_str_dumps: "scan_str (tl (dumps_str s) @ r) = Some (s, r)"
proof (induction s)
  case Nil
  show ?case by (simp add: dumps_str_def scan_str.simps(2))
next
  case (Cons c s)
  then show ?case by (simp add: dumps_str_def scan_str_escape)
qed

lemma dumps_str_Cons: "dumps_str s = quote_char # tl (dumps_str s)"
  by (simp add: dumps_str_def)

lemma scan_value_str: "scan_value fl (Suc n) (dumps_str s @ r) = Some (JStr s, r)"
  by (subst dumps_str_Cons) (simp add: scan_str_dumps)

subsection \<open>Lists and dictionaries\<close>

fun json_ok :: "(string \<Rightarrow> string) \<Rightarrow> json \<Rightarrow> bool" where
  "json_ok fl (JFloat t) \<longleftrightarrow> float_ok fl t"
| "json_ok fl (JList vs) \<longleftrightarrow> list_all (json_ok fl) vs"
| "json_ok fl (JObj kvs) \<longleftrightarrow> dict_ok kvs \<and> list_all (\<lambda>(k, v). json_ok fl v) kvs"
| "json_ok fl _ \<longleftrightarrow> True"

lemma dict_of_ok:
  assumes "dict_ok kvs"
  shows "dict_of kvs = kvs"
proof -
  have "foldl (\<lambda>d (k, v). dict_put d k v) d kvs = d @ kvs" if "dict_ok (d @ kvs)" for d
    using that
  proof (induction kvs arbitrary: d)
    case (Cons p kvs)
    obtain k v where p: "p = (k, v)" by fastforce
    have "dict_get d k = None"
      using Cons.prems by (auto simp: p dict_ok_def map_of_eq_None_iff)
    then have put: "dict_put d k v = d @ [(k, v)]" by (rule dict_put_new)
    have "dict_ok ((d @ [(k, v)]) @ kvs)" using Cons.prems by (simp add: p)
    from Cons.IH [OF this] show ?case by (simp add: p put)
  qed simp
  from this [of "[]"] assms show ?thesis by (simp add: dict_of_def)
qed

text \<open>The first character of a written value is no white space and no closing bracket.\<close>

lemma dumps_start:
  "json_ok fl v \<Longrightarrow> \<exists>c s. dumps v = c # s \<and> \<not> is_ws c \<and> c \<notin> {CHR '']'', CHR ''}''}"
proof (cases v)
  case (JInt i)
  have "number_start (int_literal i @ [])"
    by (rule split_number_start) (rule split_number_int, simp add: stops_def)
  with JInt show ?thesis by (auto simp: number_start_def is_digit_def is_ws_def)
next
  case (JFloat t)
  assume "json_ok fl v"
  with JFloat have "t \<in> {''NaN'', ''Infinity'', ''-Infinity''} \<or> number_start t"
    by (auto simp: float_ok_def dest: split_number_start)
  with JFloat show ?thesis by (auto simp: number_start_def is_digit_def is_ws_def)
qed (auto simp: is_ws_def dumps_str_def)

lemma skip_ws_Cons: "\<not> is_ws c \<Longrightarrow> skip_ws (c # s) = c # s"
  by (simp add: skip_ws_def)

lemma skip_ws_space [simp]: "skip_ws (CHR '' '' # s) = skip_ws s"
  by (simp add: skip_ws_def is_ws_def)

lemma skip_ws_token [simp]:
  "skip_ws (CHR '','' # s) = CHR '','' # s" "skip_ws (CHR '']'' # s) = CHR '']'' # s"
  "skip_ws (CHR ''}'' # s) = CHR ''}'' # s" "skip_ws (CHR '':'' # s) = CHR '':'' # s"
  "skip_ws (quote_char # s) = quote_char # s" "skip_ws [] = []"
  by (simp_all add: skip_ws_def is_ws_def)

lemma skip_ws_dumps: "json_ok fl v \<Longrightarrow> skip_ws (dumps v @ r) = dumps v @ r"
  using dumps_start [of fl v] by (auto simp: skip_ws_Cons)

lemma stops_token [simp]:
  "stops (CHR '','' # s)" "stops (CHR '']'' # s)" "stops (CHR ''}'' # s)" "stops []"
  by (simp_all add: stops_def)

abbreviation reads :: "(string \<Rightarrow> string) \<Rightarrow> json \<Rightarrow> bool" where
  "reads fl v \<equiv>
     \<forall>n r. 2 * length (dumps v) < n \<longrightarrow> stops r \<longrightarrow> scan_value fl n (dumps v @ r) = Some (v, r)"

lemma reads_Suc:
  assumes "\<And>n r. stops r \<Longrightarrow> scan_value fl (Suc n) (dumps v @ r) = Some (v, r)"
  shows "reads fl v"
proof (intro allI impI)
  fix n r
  assume "2 * length (dumps v) < n" and r: "stops r"
  then obtain m where "n = Suc m" by (cases n) auto
  then show "scan_value fl n (dumps v @ r) = Some (v, r)" using assms [OF r] by simp
qed

lemma scan_items_dumps:
  assumes "\<forall>v \<in> set vs. json_ok fl v \<and> reads fl v" and "vs \<noteq> []"
    and "2 * length (join_with '', '' (map dumps vs)) + 1 < n"
  shows "scan_items fl n (join_with '', '' (map dumps vs) @ CHR '']'' # r) = Some (vs, r)"
  using assms
proof (induction vs arbitrary: n)
  case (Cons v vs)
  obtain m where n: "n = Suc m" using Cons.prems(3) by (cases n) auto
  show ?case
  proof (cases vs)
    case Nil
    with Cons.prems n show ?thesis by simp
  next
    case (Cons w ws)
    have ih: "scan_items fl m (join_with '', '' (map dumps vs) @ CHR '']'' # r) = Some (vs, r)"
      using Cons.prems n Cons by (intro Cons.IH) auto
    have ok: "json_ok fl w" using Cons.prems(1) Cons by simp
    let ?t = "join_with '', '' (map dumps vs) @ CHR '']'' # r"
    have skip: "skip_ws ?t = ?t"
      using skip_ws_dumps [OF ok] Cons by (cases ws) auto
    have first: "scan_value fl m (dumps v @ CHR '','' # CHR '' '' # ?t) = Some (v, CHR '','' # CHR '' '' # ?t)"
      using Cons.prems n Cons by auto
    show ?thesis using first ih skip Cons n by (simp add: cons_item_def)
  qed
qed simp

lemma scan_members_dumps:
  assumes "\<forall>(k, v) \<in> set kvs. json_ok fl v \<and> reads fl v" and "kvs \<noteq> []"
    and "2 * length (join_with '', '' (map (\<lambda>(k, v). dumps_str k @ '': '' @ dumps v) kvs)) + 1 < n"
  shows "scan_members fl n (join_with '', '' (map (\<lambda>(k, v). dumps_str k @ '': '' @ dumps v) kvs) @ CHR ''}'' # r)
    = Some (kvs, r)"
  using assms
proof (induction kvs arbitrary: n)
  case (Cons p kvs)
  obtain k v where p: "p = (k, v)" by fastforce
  obtain m where n: "n = Suc m" using Cons.prems(3) by (cases n) auto
  have okv: "json_ok fl v" using Cons.prems(1) p by auto
  have key: "scan_str (tl (dumps_str k @ x)) = Some (k, x)" for x
    using scan_str_dumps [of k x] dumps_str_Cons [of k] by (metis append_Cons list.sel(3))
  have start: "starts_with [quote_char] (dumps_str k @ x)" for x
    by (simp add: dumps_str_def)
  show ?case
  proof (cases kvs)
    case Nil
    have "scan_value fl m (dumps v @ CHR ''}'' # r) = Some (v, CHR ''}'' # r)"
      using Cons.prems n p Nil by auto
    with Nil n p show ?thesis by (simp add: key start skip_ws_dumps [OF okv])
  next
    case (Cons q qs)
    obtain k' v' where q: "q = (k', v')" by fastforce
    let ?t = "join_with '', '' (map (\<lambda>(k, v). dumps_str k @ '': '' @ dumps v) kvs) @ CHR ''}'' # r"
    have ih: "scan_members fl m ?t = Some (kvs, r)"
      using Cons.prems n Cons p by (intro Cons.IH) auto
    have skip: "skip_ws ?t = ?t"
      using Cons q by (cases qs) (auto simp: dumps_str_def)
    have first: "scan_value fl m (dumps v @ CHR '','' # CHR '' '' # ?t) = Some (v, CHR '','' # CHR '' '' # ?t)"
      using Cons.prems n Cons p by auto
    show ?thesis using first ih skip Cons n p
      by (simp add: key start skip_ws_dumps [OF okv] cons_item_def)
  qed
qed simp

lemma reads_list:
  assumes "\<forall>v \<in> set vs. json_ok fl v \<and> reads fl v"
  shows "reads fl (JList vs)"
proof (intro allI impI)
  fix n r
  assume n: "2 * length (dumps (JList vs)) < n" and "stops r"
  then obtain m where m: "n = Suc m" by (cases n) auto
  show "scan_value fl n (dumps (JList vs) @ r) = Some (JList vs, r)"
  proof (cases vs)
    case Nil
    with m show ?thesis by simp
  next
    case (Cons w ws)
    have ok: "json_ok fl w" using assms Cons by simp
    let ?t = "join_with '', '' (map dumps vs) @ CHR '']'' # r"
    obtain c u where c: "dumps w = c # u" "\<not> is_ws c" "c \<notin> {CHR '']'', CHR ''}''}"
      using dumps_start [OF ok] by blast
    have skip: "skip_ws ?t = ?t" using skip_ws_dumps [OF ok] Cons by (cases ws) auto
    have open_bracket: "\<not> starts_with '']'' ?t" using c Cons by (cases ws) auto
    have "scan_items fl m ?t = Some (vs, r)"
      using assms n m Cons by (intro scan_items_dumps) auto
    with skip open_bracket m show ?thesis by simp
  qed
qed

lemma reads_object:
  assumes "\<forall>(k, v) \<in> set kvs. json_ok fl v \<and> reads fl v" and "dict_ok kvs"
  shows "reads fl (JObj kvs)"
proof (intro allI impI)
  fix n r
  assume n: "2 * length (dumps (JObj kvs)) < n" and "stops r"
  then obtain m where m: "n = Suc m" by (cases n) auto
  show "scan_value fl n (dumps (JObj kvs) @ r) = Some (JObj kvs, r)"
  proof (cases kvs)
    case Nil
    with m show ?thesis by simp
  next
    case (Cons q qs)
    let ?t = "join_with '', '' (map (\<lambda>(k, v). dumps_str k @ '': '' @ dumps v) kvs) @ CHR ''}'' # r"
    have skip: "skip_ws ?t = ?t" using Cons by (cases qs) (auto simp: dumps_str_def split: prod.splits)
    have open_brace: "\<not> starts_with ''}'' ?t"
      using Cons by (cases qs) (auto simp: dumps_str_def split: prod.splits)
    have "scan_members fl m ?t = Some (kvs, r)"
      using assms(1) n m Cons by (intro scan_members_dumps) simp_all
    moreover have "dict_of kvs = kvs" using assms(2) by (rule dict_of_ok)
    ultimately show ?thesis using skip open_brace m by simp
  qed
qed

lemma scan_value_dumps: "json_ok fl v \<Longrightarrow> reads fl v"
proof (induction v)
  case (JList vs)
  then show ?case by (intro reads_list) (auto simp: list_all_iff)
next
  case (JObj kvs)
  have "\<forall>(k, v) \<in> set kvs. json_ok fl v \<and> reads fl v"
  proof (intro ballI, clarify, intro conjI)
    fix k v
    assume kv: "(k, v) \<in> set kvs"
    with JObj.prems show ok: "json_ok fl v" by (auto simp: list_all_iff)
    show "reads fl v" by (rule JObj.IH [OF kv _ ok]) simp
  qed
  then show ?case using JObj.prems by (intro reads_object) simp_all
next
  case JNull
  show ?case by (rule reads_Suc) simp
next
  case (JBool b)
  show ?case by (rule reads_Suc) simp
next
  case (JInt i)
  show ?case by (rule reads_Suc) (simp add: scan_value_int)
next
  case (JFloat t)
  then show ?case by (intro reads_Suc) (simp add: scan_value_float)
next
  case (JStr s)
  show ?case by (rule reads_Suc) (simp add: scan_value_str)
qed

theorem loads_dumps:
  assumes "json_ok fl v"
  shows "loads fl (dumps v) = Inr v"
proof -
  obtain c s where c: "dumps v = c # s" using dumps_start [OF assms] by blast
  have bom: "\<not> starts_with byte_order_mark (dumps v)"
  proof (cases v)
    case (JInt i)
    have "number_start (int_literal i @ [])"
      by (rule split_number_start) (rule split_number_int, simp)
    with JInt show ?thesis by (auto simp: number_start_def is_digit_def byte_order_mark_def)
  next
    case (JFloat t)
    with assms have "t \<in> {''NaN'', ''Infinity'', ''-Infinity''} \<or> number_start t"
      by (auto simp: float_ok_def dest: split_number_start)
    with JFloat show ?thesis by (auto simp: number_start_def is_digit_def byte_order_mark_def)
  qed (auto simp: byte_order_mark_def dumps_str_def)
  have "scan_value fl (enough_fuel (dumps v)) (dumps v @ []) = Some (v, [])"
    by (rule scan_value_dumps [OF assms, rule_format]) (simp_all add: enough_fuel_def)
  with bom show ?thesis using skip_ws_dumps [OF assms, of "[]"] by (simp add: loads_def)
qed

subsection \<open>The fuel is enough\<close>

lemma scan_str_length: "scan_str s = Some (t, r) \<Longrightarrow> length r < length s"
proof (induction s arbitrary: t r rule: scan_str.induct)
  case (2 c s)
  note scan_str.simps(2) [simp]
  show ?case
  proof (cases "c = quote_char \<or> c \<noteq> backslash_char")
    case True
    with "2" show ?thesis by (fastforce simp: prepend_def split: if_splits option.splits)
  next
    case False
    then obtain e s' where s: "s = e # s'" using "2.prems" by (cases s) auto
    show ?thesis
    proof (cases "e = CHR ''u''")
      case True
      with "2.prems" False s obtain t1 r1 t2 where u: "scan_u s' = Some (t1, r1)" and r: "scan_str r1 = Some (t2, r)"
        by (auto simp: prepend_def split: option.splits)
      have "length r < length r1"
        using "2.IH"(1) [of e s' "(t1, r1)" t1 r1 t2 r] False s True u r by auto
      with scan_u_length [OF u] s show ?thesis by simp
    next
      case e: False
      with "2.prems" False s obtain x t2 where x: "unescape e = Some x" and r: "scan_str s' = Some (t2, r)"
        by (auto simp: prepend_def split: option.splits)
      have "length r < length s'"
        using "2.IH"(2) [of e s' x t2 r] False s e x r by auto
      with s show ?thesis by simp
    qed
  qed
qed simp

lemma scan_number_length:
  assumes "scan_number fl s = Some (v, r)"
  shows "length r < length s"
proof -
  have n: "length u < length t" if "scan_natural t = Some (ds, u)" for t ds u
    using that length_dropWhile_le [of is_digit "tl t"]
    by (auto simp: scan_natural_def less_Suc_eq_le split: list.splits if_splits)
  have f: "length u \<le> length t" if "scan_fraction t = (ds, u)" for t ds u
    using that length_dropWhile_le [of is_digit "tl t"]
    by (auto simp: scan_fraction_def split: list.splits if_splits)
  have e: "length u \<le> length t" if "scan_exponent t = (ds, u)" for t ds u
    using that le_trans [OF length_dropWhile_le [of is_digit]]
    by (fastforce simp: scan_exponent_def Let_def le_Suc_eq split: list.splits if_splits)
  show ?thesis
    using assms
    by (fastforce simp: scan_number_def split_number_def Let_def split: option.splits prod.splits
        dest: n f e)
qed

lemma skip_ws_length: "length (skip_ws s) \<le> length s"
  by (simp add: skip_ws_def length_dropWhile_le)

lemma cons_item_Some: "cons_item x p = Some (xs, u) \<longleftrightarrow> (\<exists>ys. p = Some (ys, u) \<and> xs = x # ys)"
  by (auto simp: cons_item_def split: option.splits)

lemma skip_ws_shorter: "length s < n \<Longrightarrow> length (skip_ws s) < n"
  using skip_ws_length [of s] by linarith

lemma skip_ws_eq_length: "skip_ws s = t \<Longrightarrow> length t \<le> length s"
  using skip_ws_length [of s] by blast

lemma length_tl_skip: "length (tl (skip_ws s)) \<le> length s"
  using skip_ws_length [of s] by simp

text \<open>How the reader of a value, of items and of members succeeds.\<close>

lemma scan_valueE:
  assumes "scan_value fl (Suc n) s = Some (v, r)"
  obtains (quoted) x t where "s = quote_char # x" "scan_str x = Some (t, r)" "v = JStr t"
  | (object) x kvs where "s = CHR ''{'' # x" "scan_members fl n (skip_ws x) = Some (kvs, r)" "v = JObj (dict_of kvs)"
  | (list) x vs where "s = CHR ''['' # x" "scan_items fl n (skip_ws x) = Some (vs, r)" "v = JList vs"
  | (literal) "v \<in> {JNull, JBool True, JBool False, JFloat ''NaN'', JFloat ''Infinity'', JFloat ''-Infinity'', JObj [], JList []}"
      "length r < length s"
  | (number) "scan_number fl s = Some (v, r)"
proof -
  obtain c x where s: "s = c # x" using assms by (cases s) auto
  consider "c = quote_char" | "c = CHR ''{''" | "c = CHR ''[''" | "c \<notin> {quote_char, CHR ''{'', CHR ''[''}"
    by blast
  then show thesis
  proof cases
    case 1
    with assms s show thesis by (auto intro: quoted)
  next
    case 2
    show thesis
    proof (cases "starts_with ''}'' (skip_ws x)")
      case True
      with assms s 2 show thesis using skip_ws_length [of x] by (intro literal) (auto simp: less_Suc_eq_le)
    next
      case False
      with assms s 2 show thesis by (auto intro: object)
    qed
  next
    case 3
    show thesis
    proof (cases "starts_with '']'' (skip_ws x)")
      case True
      with assms s 3 show thesis using skip_ws_length [of x] by (intro literal) (auto simp: less_Suc_eq_le)
    next
      case False
      with assms s 3 show thesis by (auto intro: list)
    qed
  next
    case 4
    show thesis
    proof (cases "scan_number fl (c # x) = Some (v, r)")
      case True
      with s show thesis by (intro number) simp
    next
      case False
      with assms s 4 show thesis
        by (intro literal) (auto simp del: starts_with_Cons split: if_splits)
    qed
  qed
qed

lemma scan_itemsE:
  assumes "scan_items fl (Suc n) s = Some (vs, r)"
  obtains (last) v r1 where "scan_value fl n s = Some (v, r1)" "skip_ws r1 = CHR '']'' # r" "vs = [v]"
  | (further) v r1 r2 us where "scan_value fl n s = Some (v, r1)" "skip_ws r1 = CHR '','' # r2"
      "scan_items fl n (skip_ws r2) = Some (us, r)" "vs = v # us"
  using assms by (auto simp: cons_item_Some split: option.splits list.splits if_splits)

lemma scan_membersE:
  assumes "scan_members fl (Suc n) s = Some (kvs, r)"
  obtains (last) k r0 v r1 where "scan_str (tl s) = Some (k, r0)"
      "scan_value fl n (skip_ws (tl (skip_ws r0))) = Some (v, r1)" "skip_ws r1 = CHR ''}'' # r" "kvs = [(k, v)]"
  | (further) k r0 v r1 r2 us where "scan_str (tl s) = Some (k, r0)"
      "scan_value fl n (skip_ws (tl (skip_ws r0))) = Some (v, r1)" "skip_ws r1 = CHR '','' # r2"
      "scan_members fl n (skip_ws r2) = Some (us, r)" "kvs = (k, v) # us"
  using assms by (auto simp: cons_item_Some split: option.splits list.splits if_splits)

lemma scan_key_length:
  assumes "scan_str (tl s) = Some (k, r0)"
  shows "length (skip_ws (tl (skip_ws r0))) < length s"
  using scan_str_length [OF assms] skip_ws_length [of "tl (skip_ws r0)"] length_tl_skip [of r0] by simp

lemma scan_length:
  "scan_value fl n s = Some (v, r) \<Longrightarrow> length r < length s"
  "scan_items fl n s = Some (vs, r) \<Longrightarrow> length r < length s"
  "scan_members fl n s = Some (kvs, r) \<Longrightarrow> length r < length s"
proof (induction n arbitrary: s v r vs kvs)
  case (Suc n)
  {
    case 1
    then show ?case
    proof (cases rule: scan_valueE)
      case (quoted x t)
      then show ?thesis using scan_str_length [of x t r] by simp
    next
      case (object x kvs)
      then show ?thesis using Suc.IH(3) [of "skip_ws x"] skip_ws_length [of x] by fastforce
    next
      case (list x vs)
      then show ?thesis using Suc.IH(2) [of "skip_ws x"] skip_ws_length [of x] by fastforce
    qed (use scan_number_length in auto)
  next
    case 2
    then show ?case
    proof (cases rule: scan_itemsE)
      case (last v r1)
      then show ?thesis using Suc.IH(1) [of s] skip_ws_eq_length [of r1] by fastforce
    next
      case (further v r1 r2 us)
      have "length r < length (skip_ws r2)" "length r1 < length s" by (rule Suc.IH, fact)+
      then show ?thesis using skip_ws_eq_length [OF further(2)] skip_ws_length [of r2] by simp
    qed
  next
    case 3
    then show ?case
    proof (cases rule: scan_membersE)
      case (last k r0 v r1)
      have "length r1 < length (skip_ws (tl (skip_ws r0)))" by (rule Suc.IH, fact)
      then show ?thesis using scan_key_length [OF last(1)] skip_ws_eq_length [OF last(3)] by simp
    next
      case (further k r0 v r1 r2 us)
      have "length r < length (skip_ws r2)" "length r1 < length (skip_ws (tl (skip_ws r0)))" by (rule Suc.IH, fact)+
      then show ?thesis
        using scan_key_length [OF further(1)] skip_ws_eq_length [OF further(3)] skip_ws_length [of r2] by simp
    qed
  }
qed simp_all

lemma rest_shorter:
  assumes "scan_value fl n s = Some (w, r1)" and "skip_ws r1 = d # r2"
  shows "length (skip_ws r2) + 1 < length s"
  using scan_length(1) [OF assms(1)] skip_ws_eq_length [OF assms(2)] skip_ws_length [of r2] by simp

lemma scan_fuel:
  "2 * length s < n \<Longrightarrow> scan_value fl (Suc n) s = scan_value fl n s"
  "2 * length s + 1 < n \<Longrightarrow> scan_items fl (Suc n) s = scan_items fl n s"
  "2 * length s + 1 < n \<Longrightarrow> scan_members fl (Suc n) s = scan_members fl n s"
proof (induction n arbitrary: s)
  case (Suc n)
  {
    case 1
    show ?case
    proof (cases s)
      case (Cons c x)
      have len: "2 * length (skip_ws x) + 1 < n" using 1 Cons skip_ws_length [of x] by simp
      show ?thesis unfolding Cons scan_value.simps(3) Suc.IH(2) [OF len] Suc.IH(3) [OF len] by (rule refl)
    qed simp
  next
    case 2
    then have val: "scan_value fl (Suc n) s = scan_value fl n s" by (intro Suc.IH) simp
    have "scan_items fl (Suc n) (skip_ws r2) = scan_items fl n (skip_ws r2)"
      if "scan_value fl n s = Some (w, r1)" "skip_ws r1 = d # r2" for w r1 d r2
      using rest_shorter [OF that] 2 by (intro Suc.IH) simp
    then show ?case unfolding scan_items.simps(2) val by (auto split: option.split list.split)
  next
    case 3
    have val: "scan_value fl (Suc n) (skip_ws (tl (skip_ws r0))) = scan_value fl n (skip_ws (tl (skip_ws r0)))"
      if "scan_str (tl s) = Some (k, r0)" for k r0
      using scan_key_length [OF that] 3 by (intro Suc.IH) simp
    have "scan_members fl (Suc n) (skip_ws r2) = scan_members fl n (skip_ws r2)"
      if "scan_str (tl s) = Some (k, r0)" "scan_value fl n (skip_ws (tl (skip_ws r0))) = Some (w, r1)" "skip_ws r1 = d # r2"
      for k r0 w r1 d r2
      using rest_shorter [OF that(2,3)] scan_key_length [OF that(1)] 3 by (intro Suc.IH) simp
    with val show ?case unfolding scan_members.simps(2) by (auto split: option.split list.split)
  }
qed simp_all

theorem scan_value_fuel:
  assumes "enough_fuel s \<le> n"
  shows "scan_value fl n (skip_ws s) = scan_value fl (enough_fuel s) (skip_ws s)"
  using assms
proof (induction n rule: dec_induct)
  case (step n)
  then show ?case
    using scan_fuel(1) [of "skip_ws s" n fl] skip_ws_length [of s] by (simp add: enough_fuel_def)
qed simp

subsection \<open>A value that was read can be written\<close>

definition canonical_floats :: "(string \<Rightarrow> string) \<Rightarrow> bool" where
  "canonical_floats fl \<longleftrightarrow> (\<forall>s t r. split_number s = Some (t, True, r) \<longrightarrow> float_ok fl (fl t))"

text \<open>
  Such a function exists: keep the literals that are complete numbers.
\<close>

definition keep_literal :: "string \<Rightarrow> string" where
  "keep_literal t = (if split_number t = Some (t, True, []) then t else ''NaN'')"

lemma canonical_keep_literal: "canonical_floats keep_literal"
  by (simp add: canonical_floats_def keep_literal_def float_ok_def)

lemma dict_of_dict_ok: "dict_ok (dict_of kvs)"
proof -
  have "dict_ok (foldl (\<lambda>d (k, v). dict_put d k v) d kvs)" if "dict_ok d" for d
    using that by (induction kvs arbitrary: d) (auto simp: dict_ok_put)
  then show ?thesis by (simp add: dict_of_def)
qed

lemma set_dict_of: "set (dict_of kvs) \<subseteq> set kvs"
proof -
  have "set (foldl (\<lambda>d (k, v). dict_put d k v) d kvs) \<subseteq> set d \<union> set kvs" for d
  proof (induction kvs arbitrary: d)
    case (Cons p kvs)
    obtain k v where "p = (k, v)" by fastforce
    with Cons.IH [of "dict_put d k v"] set_dict_put [of d k v] show ?case by auto
  qed simp
  from this [of "[]"] show ?thesis by (simp add: dict_of_def)
qed

lemma scan_number_ok:
  assumes "canonical_floats fl" and "scan_number fl s = Some (v, r)"
  shows "json_ok fl v"
proof -
  obtain t b where "split_number s = Some (t, b, r)"
    and "v = (if b then JFloat (fl t) else JInt (int_of_literal t))"
    using assms(2) by (auto simp: scan_number_def split: option.splits)
  with assms(1) show ?thesis by (cases b) (auto simp: canonical_floats_def)
qed

lemma scan_ok:
  assumes "canonical_floats fl"
  shows "scan_value fl n s = Some (v, r) \<Longrightarrow> json_ok fl v"
    and "scan_items fl n s = Some (vs, r) \<Longrightarrow> list_all (json_ok fl) vs"
    and "scan_members fl n s = Some (kvs, r) \<Longrightarrow> list_all (\<lambda>(k, v). json_ok fl v) kvs"
proof (induction n arbitrary: s v r vs kvs)
  case (Suc n)
  {
    case 1
    then show ?case
    proof (cases rule: scan_valueE)
      case (object x kvs)
      have "list_all (\<lambda>(k, v). json_ok fl v) kvs" by (rule Suc.IH) fact
      with object(3) set_dict_of [of kvs] dict_of_dict_ok show ?thesis by (auto simp: list_all_iff)
    next
      case (list x vs)
      have "list_all (json_ok fl) vs" by (rule Suc.IH) fact
      with list(3) show ?thesis by simp
    qed (auto simp: float_ok_def scan_number_ok [OF assms])
  next
    case 2
    then show ?case by (cases rule: scan_itemsE) (use Suc.IH(1,2) in auto)
  next
    case 3
    then show ?case by (cases rule: scan_membersE) (use Suc.IH(1,3) in auto)
  }
qed simp_all

theorem loads_ok:
  assumes "canonical_floats fl" and "loads fl s = Inr v"
  shows "json_ok fl v"
  using assms(2) scan_ok(1) [OF assms(1)]
  by (auto simp: loads_def split: if_splits option.splits prod.splits)

end
