(* ===== verification/Messaging.thy ===== *)
theory Messaging
  imports Json_Text
begin

text \<open>
  \<open>pyaiot/common/messaging.py\<close>: the messages the services exchange, how they are written,
  and the check every received text goes through.

  A Python \<open>message\<close> is a \<open>json\<close> value; \<open>None\<close> is Isabelle's \<open>None\<close> where the code tests
  for it.  The reason string of \<open>check_message\<close> is a constructor that carries the value the
  code formats into it.  An exception that leaves a function is an \<open>Inl\<close>.
\<close>

section \<open>\<open>check_broker_data\<close>\<close>

definition check_broker_data :: "json \<Rightarrow> exn + bool" where
  "check_broker_data data =
     (case py_contains ''uid'' data of
        Inl e \<Rightarrow> Inl e
      | Inr False \<Rightarrow> Inr False
      | Inr True \<Rightarrow>
     (case py_contains ''endpoint'' data of
        Inl e \<Rightarrow> Inl e
      | Inr False \<Rightarrow> Inr False
      | Inr True \<Rightarrow>
     (case py_contains ''payload'' data of
        Inl e \<Rightarrow> Inl e
      | Inr False \<Rightarrow> Inr False
      | Inr True \<Rightarrow>
     (case data of
        JObj kvs \<Rightarrow> Inr (\<not> length kvs > 3)
      | _ \<Rightarrow> Inl AttributeError))))"

section \<open>The message texts\<close>

definition serialize :: "json \<Rightarrow> string" where
  "serialize message = dumps message"

definition new_node :: "json \<Rightarrow> json \<Rightarrow> string" where
  "new_node uid dst = serialize (JObj [(''type'', JStr ''new''), (''uid'', uid), (''dst'', dst)])"

definition out_node :: "json \<Rightarrow> string" where
  "out_node uid = serialize (JObj [(''type'', JStr ''out''), (''uid'', uid)])"

definition reset_node_msg :: "json \<Rightarrow> string" where
  "reset_node_msg uid = serialize (JObj [(''type'', JStr ''reset''), (''uid'', uid)])"

definition update_node :: "json \<Rightarrow> json \<Rightarrow> json \<Rightarrow> json \<Rightarrow> string" where
  "update_node uid endpoint data dst =
     serialize (JObj [(''type'', JStr ''update''), (''uid'', uid), (''endpoint'', endpoint),
                      (''data'', data), (''dst'', dst)])"

definition gateway_alive :: string where
  "gateway_alive = serialize (JObj [(''type'', JStr ''update''), (''uid'', JStr ''alive'')])"

definition discover_node_msg :: string where
  "discover_node_msg = serialize (JObj [(''request'', JStr ''discover'')])"

abbreviation dst_all :: json where
  "dst_all \<equiv> JStr ''all''"

section \<open>\<open>check_message\<close>\<close>

text \<open>
  What \<open>json.loads\<close> is given: a text, or an object that is neither text nor bytes
  (\<open>TypeError\<close>).  The bytes of a binary frame are not modelled.
\<close>

datatype raw = Text string | NotText

datatype reason =
    InvalidRaw raw
  | NotJson string
  | InvalidMessage json
  | InvalidType json

definition message_types :: "string list" where
  "message_types = [''new'', ''update'', ''out'', ''reset'']"

definition parse_raw :: "(string \<Rightarrow> string) \<Rightarrow> raw \<Rightarrow> json option \<times> reason option" where
  "parse_raw fl raw =
     (case raw of
        NotText \<Rightarrow> (None, Some (InvalidRaw raw))
      | Text s \<Rightarrow>
          (case loads fl s of
             Inl _ \<Rightarrow> (None, Some (NotJson s))
           | Inr v \<Rightarrow> (if v = JNull then None else Some v, None)))"

definition check_type :: "json \<Rightarrow> exn + reason option" where
  "check_type message =
     (if \<not> has_iter message then Inr (Some (InvalidMessage message))
      else if py_contains ''type'' message = Inr False \<and> py_contains ''data'' message = Inr False
      then Inr (Some (InvalidMessage message))
      else (case py_getitem message ''type'' of
              Inl e \<Rightarrow> Inl e
            | Inr t \<Rightarrow>
                if t \<noteq> JStr ''new'' \<and> t \<noteq> JStr ''update'' \<and> t \<noteq> JStr ''out'' \<and> t \<noteq> JStr ''reset''
                then Inr (Some (InvalidType t)) else Inr None))"

definition check_message :: "(string \<Rightarrow> string) \<Rightarrow> raw \<Rightarrow> exn + (json option \<times> reason option)" where
  "check_message fl raw =
     (case parse_raw fl raw of
        (None, reason) \<Rightarrow> Inr (None, reason)
      | (Some message, reason) \<Rightarrow>
          (case check_type message of
             Inl e \<Rightarrow> Inl e
           | Inr None \<Rightarrow> Inr (Some message, reason)
           | Inr (Some r) \<Rightarrow> Inr (None, Some r)))"

text \<open>The messages the rest of the system works on: a dictionary whose type is known.\<close>

definition valid_message :: "json \<Rightarrow> bool" where
  "valid_message m \<longleftrightarrow>
     (\<exists>kvs t. m = JObj kvs \<and> dict_get kvs ''type'' = Some (JStr t) \<and> t \<in> set message_types)"

lemma valid_messageE:
  assumes "valid_message m"
  obtains kvs t where "m = JObj kvs" "dict_get kvs ''type'' = Some (JStr t)"
    "t = ''new'' \<or> t = ''update'' \<or> t = ''out'' \<or> t = ''reset''"
  using assms by (auto simp: valid_message_def message_types_def)

lemma check_type_valid: "check_type m = Inr None \<longleftrightarrow> valid_message m"
proof
  assume "check_type m = Inr None"
  then show "valid_message m"
    by (auto simp: check_type_def valid_message_def message_types_def py_getitem_def or_raise_def
        split: if_splits sum.splits json.splits option.splits)
next
  assume "valid_message m"
  then obtain kvs t where m: "m = JObj kvs" "dict_get kvs ''type'' = Some (JStr t)"
    and t: "t = ''new'' \<or> t = ''update'' \<or> t = ''out'' \<or> t = ''reset''"
    by (rule valid_messageE)
  then show "check_type m = Inr None"
    by (auto simp: check_type_def has_iter_def py_contains_def dict_has_def py_getitem_def)
qed

lemma check_type_dict:
  "check_type (JObj kvs) =
     (case dict_get kvs ''type'' of
        Some t \<Rightarrow> if \<exists>s \<in> set message_types. t = JStr s then Inr None else Inr (Some (InvalidType t))
      | None \<Rightarrow> if dict_has kvs ''data'' then Inl KeyError else Inr (Some (InvalidMessage (JObj kvs))))"
  by (auto simp: check_type_def has_iter_def py_contains_def dict_has_def py_getitem_def message_types_def
      split: option.splits)

lemma parse_raw_cases:
  "parse_raw fl (Text s) =
     (case loads fl s of
        Inl _ \<Rightarrow> (None, Some (NotJson s))
      | Inr v \<Rightarrow> if v = JNull then (None, None) else (Some v, None))"
  by (simp add: parse_raw_def split: sum.split)

lemma check_message_loaded:
  assumes "loads fl s = Inr v" and "v \<noteq> JNull"
  shows "check_message fl (Text s) =
    (case check_type v of Inl e \<Rightarrow> Inl e
     | Inr None \<Rightarrow> Inr (Some v, None) | Inr (Some r) \<Rightarrow> Inr (None, Some r))"
  using assms by (simp add: check_message_def parse_raw_cases)

lemma valid_not_null [simp]: "\<not> valid_message JNull"
  by (simp add: valid_message_def)

lemma check_message_valid:
  assumes "loads fl s = Inr m" and "valid_message m"
  shows "check_message fl (Text s) = Inr (Some m, None)"
proof -
  have "m \<noteq> JNull" "check_type m = Inr None" using assms(2) check_type_valid by auto
  then show ?thesis using assms(1) by (simp add: check_message_loaded)
qed

lemma check_message_Some:
  "check_message fl (Text s) = Inr (Some m, r) \<Longrightarrow> loads fl s = Inr m \<and> valid_message m \<and> r = None"
  by (auto simp: check_message_def parse_raw_cases check_type_valid
      split: sum.splits option.splits if_splits)

lemma serialize_read: "json_ok fl v \<Longrightarrow> loads fl (serialize v) = Inr v"
  unfolding serialize_def by (rule loads_dumps)

lemma check_message_serialize:
  "json_ok fl v \<Longrightarrow> valid_message v \<Longrightarrow> check_message fl (Text (serialize v)) = Inr (Some v, None)"
  by (rule check_message_valid) (rule serialize_read)

section \<open>Properties\<close>

text \<open>
  C38: \<open>check_message\<close> lets a text through exactly when it is the JSON text of a dictionary
  whose \<open>type\<close> is one of new, update, out and reset, and then returns that dictionary
  unchanged with no reason.
\<close>

theorem check_message_accepts_iff:
  "check_message fl (Text s) = Inr (Some m, r) \<longleftrightarrow> loads fl s = Inr m \<and> valid_message m \<and> r = None"
  using check_message_Some check_message_valid by blast

text \<open>
  C39: Every text one of the message generators writes is read back by \<open>check_message\<close> as the
  dictionary it was written from, provided the uid, the endpoint, the data and the destination are JSON
  values that can be written; only the discovery request, which is meant for nodes and has
  no type, is refused.
\<close>

theorem generated_messages_accepted:
  assumes "json_ok fl uid" and "json_ok fl dst" and "json_ok fl endpoint" and "json_ok fl data"
  shows "check_message fl (Text (new_node uid dst)) =
           Inr (Some (JObj [(''type'', JStr ''new''), (''uid'', uid), (''dst'', dst)]), None)
       \<and> check_message fl (Text (out_node uid)) =
           Inr (Some (JObj [(''type'', JStr ''out''), (''uid'', uid)]), None)
       \<and> check_message fl (Text (reset_node_msg uid)) =
           Inr (Some (JObj [(''type'', JStr ''reset''), (''uid'', uid)]), None)
       \<and> check_message fl (Text (update_node uid endpoint data dst)) =
           Inr (Some (JObj [(''type'', JStr ''update''), (''uid'', uid), (''endpoint'', endpoint),
                            (''data'', data), (''dst'', dst)]), None)
       \<and> check_message fl (Text gateway_alive) =
           Inr (Some (JObj [(''type'', JStr ''update''), (''uid'', JStr ''alive'')]), None)
       \<and> check_message fl (Text discover_node_msg) =
           Inr (None, Some (InvalidMessage (JObj [(''request'', JStr ''discover'')])))"
proof -
  have accepted: "check_message fl (Text (serialize (JObj ((''type'', JStr t) # kvs)))) =
      Inr (Some (JObj ((''type'', JStr t) # kvs)), None)"
    if "t \<in> set message_types" and "json_ok fl (JObj ((''type'', JStr t) # kvs))" for t kvs
    using that by (intro check_message_serialize) (auto simp: valid_message_def)
  have refused: "check_message fl (Text (serialize (JObj [(''request'', JStr ''discover'')]))) =
      Inr (None, Some (InvalidMessage (JObj [(''request'', JStr ''discover'')])))"
    using serialize_read [of fl "JObj [(''request'', JStr ''discover'')]"]
    by (simp add: check_message_loaded check_type_dict)
  show ?thesis
    using assms
    by (simp add: new_node_def out_node_def reset_node_msg_def update_node_def gateway_alive_def
        discover_node_msg_def accepted refused message_types_def)
qed

theorem generated_messages_accepted_witness:
  "json_ok id (JStr ''1234'') \<and> json_ok id (JList [JInt 3, JNull]) \<and>
   check_message id (Text (update_node (JStr ''1234'') (JStr ''led'') (JList [JInt 3, JNull]) dst_all)) =
     Inr (Some (JObj [(''type'', JStr ''update''), (''uid'', JStr ''1234''), (''endpoint'', JStr ''led''),
                      (''data'', JList [JInt 3, JNull]), (''dst'', dst_all)]), None)"
  using generated_messages_accepted [of id "JStr ''1234''" dst_all "JStr ''led''" "JList [JInt 3, JNull]"]
  by simp

text \<open>
  C40: \<open>check_message\<close> raises, instead of returning a reason, exactly for the texts that parse
  to a list or string holding \<open>type\<close> or \<open>data\<close> (\<open>TypeError\<close>) or to a dictionary that has
  \<open>data\<close> but no \<open>type\<close> (\<open>KeyError\<close>): the test that both keys are missing should ask
  whether one of them is.
\<close>

theorem check_message_raises_iff:
  "check_message fl (Text s) = Inl e \<longleftrightarrow>
     (\<exists>v. loads fl s = Inr v \<and>
       (case v of
          JObj kvs \<Rightarrow> e = KeyError \<and> \<not> dict_has kvs ''type'' \<and> dict_has kvs ''data''
        | JList vs \<Rightarrow> e = TypeError \<and> (py_in (JStr ''type'') vs \<or> py_in (JStr ''data'') vs)
        | JStr t \<Rightarrow> e = TypeError \<and> (contains ''type'' t \<or> contains ''data'' t)
        | _ \<Rightarrow> False))"
proof (cases "loads fl s")
  case (Inl a)
  then show ?thesis by (simp add: check_message_def parse_raw_cases)
next
  case (Inr v)
  show ?thesis
  proof (cases "v = JNull")
    case True
    with Inr show ?thesis by (simp add: check_message_def parse_raw_cases)
  next
    case False
    with Inr have "check_message fl (Text s) = Inl e \<longleftrightarrow> check_type v = Inl e"
      by (simp add: check_message_loaded split: sum.split option.split)
    also have "\<dots> \<longleftrightarrow> (case v of
          JObj kvs \<Rightarrow> e = KeyError \<and> \<not> dict_has kvs ''type'' \<and> dict_has kvs ''data''
        | JList vs \<Rightarrow> e = TypeError \<and> (py_in (JStr ''type'') vs \<or> py_in (JStr ''data'') vs)
        | JStr t \<Rightarrow> e = TypeError \<and> (contains ''type'' t \<or> contains ''data'' t)
        | _ \<Rightarrow> False)"
    proof (cases v)
      case (JObj kvs)
      then show ?thesis
        by (auto simp: check_type_dict dict_has_def split: option.splits if_splits)
    qed (auto simp: check_type_def has_iter_def py_contains_def py_getitem_def)
    finally show ?thesis using Inr by simp
  qed
qed

text \<open>
  A refusal comes with a reason, with one exception: the text \<open>null\<close> yields neither a
  message nor a reason, so the caller closes the connection with the reason \<open>None.\<close>
\<close>

theorem check_message_refusal_reason:
  "check_message fl raw = Inr (None, r) \<Longrightarrow>
     r = None \<longleftrightarrow> (\<exists>s. raw = Text s \<and> loads fl s = Inr JNull)"
  by (cases raw)
    (auto simp: check_message_def parse_raw_def split: sum.splits option.splits if_splits)

theorem check_message_refusal_reason_witness:
  "check_message id (Text (serialize JNull)) = Inr (None, None) \<and> loads id (serialize JNull) = Inr JNull"
proof -
  have l: "loads id (serialize JNull) = Inr JNull" by (rule serialize_read) simp
  then have "check_message id (Text (serialize JNull)) = Inr (None, None)"
    by (simp add: check_message_def parse_raw_cases)
  with check_message_refusal_reason [of id "Text (serialize JNull)" None] l show ?thesis by simp
qed

text \<open>
  \<open>check_broker_data\<close> answers yes exactly for dictionaries whose keys are uid, endpoint
  and payload and no others; it raises only on values that are not dictionaries.
\<close>

theorem check_broker_data_iff:
  "(dict_ok kvs \<longrightarrow>
      (check_broker_data (JObj kvs) = Inr True \<longleftrightarrow> fst ` set kvs = {''uid'', ''endpoint'', ''payload''}))
   \<and> (check_broker_data d = Inl e \<longrightarrow> (\<forall>kvs. d \<noteq> JObj kvs))"
proof (intro conjI impI)
  assume ok: "dict_ok kvs"
  then have len: "length kvs = card (fst ` set kvs)"
    using distinct_card [of "map fst kvs"] by (simp add: dict_ok_def)
  have "check_broker_data (JObj kvs) = Inr True \<longleftrightarrow>
      {''uid'', ''endpoint'', ''payload''} \<subseteq> fst ` set kvs \<and> card (fst ` set kvs) \<le> 3"
    by (auto simp: check_broker_data_def py_contains_def dict_has_iff len split: bool.splits)
  also have "\<dots> \<longleftrightarrow> fst ` set kvs = {''uid'', ''endpoint'', ''payload''}"
  proof
    assume a: "{''uid'', ''endpoint'', ''payload''} \<subseteq> fst ` set kvs \<and> card (fst ` set kvs) \<le> 3"
    have "card {''uid'', ''endpoint'', ''payload''} = 3" by simp
    with a have "{''uid'', ''endpoint'', ''payload''} = fst ` set kvs"
      by (intro card_seteq) auto
    then show "fst ` set kvs = {''uid'', ''endpoint'', ''payload''}" by simp
  qed simp
  finally show "check_broker_data (JObj kvs) = Inr True \<longleftrightarrow> fst ` set kvs = {''uid'', ''endpoint'', ''payload''}" .
next
  assume "check_broker_data d = Inl e"
  then show "\<forall>kvs. d \<noteq> JObj kvs"
    by (auto simp: check_broker_data_def py_contains_def split: bool.splits)
qed

theorem check_broker_data_iff_witness:
  "check_broker_data (JObj [(''uid'', JInt 1), (''endpoint'', JStr ''/test''), (''payload'', JStr ''ok'')]) = Inr True
   \<and> check_broker_data (JInt 5) = Inl TypeError"
  using check_broker_data_iff
    [of "[(''uid'', JInt 1), (''endpoint'', JStr ''/test''), (''payload'', JStr ''ok'')]" "JInt 5" TypeError]
  by (auto simp: check_broker_data_def py_contains_def)

end
