(* ===== verification/Auth.thy ===== *)
theory Auth
  imports Prelude
begin

text \<open>
  \<open>pyaiot/common/auth.py\<close>: the keys, the secret generator and the token a gateway presents
  to the broker.

  Fernet, of the \<open>cryptography\<close> package, is a parameter: \<open>enc k m\<close> is
  \<open>Fernet(k).encrypt(m)\<close> and \<open>dec k t\<close> is \<open>Fernet(k).decrypt(t)\<close>, each with the exception it
  may raise.  \<open>fernet_ok\<close> states the documented contract: decrypting a token under the
  same key gives the message, and a token is URL-safe base64, so it holds no comma and
  no white space.  \<open>random.choice\<close> is the parameter \<open>rnd\<close>, the index drawn at each call.
\<close>

section \<open>Keys\<close>

record keys =
  private_key :: string
  secret_key :: string

definition ascii_letters :: string where
  "ascii_letters = ''abcdefghijklmnopqrstuvwxyzABCDEFGHIJKLMNOPQRSTUVWXYZ''"

definition digits :: string where
  "digits = ''0123456789''"

definition choice :: "'a list \<Rightarrow> nat \<Rightarrow> 'a" where
  "choice xs r = xs ! (r mod length xs)"

definition generate_secret_key :: "(nat \<Rightarrow> nat) \<Rightarrow> string" where
  "generate_secret_key rnd = map (\<lambda>i. choice (ascii_letters @ digits) (rnd i)) [0..<32]"

section \<open>Tokens\<close>

type_synonym fernet = "string \<Rightarrow> string \<Rightarrow> exn + string"

definition verify_auth_token :: "fernet \<Rightarrow> string \<Rightarrow> keys \<Rightarrow> exn + bool" where
  "verify_auth_token dec token ks =
     (case dec (private_key ks) token of Inl e \<Rightarrow> Inl e | Inr m \<Rightarrow> Inr (m = secret_key ks))"

definition auth_token :: "fernet \<Rightarrow> keys \<Rightarrow> exn + string" where
  "auth_token enc ks = enc (private_key ks) (secret_key ks)"

definition token_char :: "char \<Rightarrow> bool" where
  "token_char c \<longleftrightarrow> \<not> is_space c \<and> c \<noteq> CHR '',''"

definition fernet_ok :: "fernet \<Rightarrow> fernet \<Rightarrow> bool" where
  "fernet_ok enc dec \<longleftrightarrow>
     (\<forall>k m t. enc k m = Inr t \<longrightarrow> dec k t = Inr m \<and> list_all token_char t)"

lemma auth_token_verified:
  assumes "fernet_ok enc dec" and "auth_token enc ks = Inr t"
  shows "verify_auth_token dec t ks = Inr True" and "list_all token_char t"
  using assms by (auto simp: fernet_ok_def auth_token_def verify_auth_token_def)

text \<open>
  A concrete pair that satisfies the contract, for witnesses: a token is the key, a dot and
  the message; a token under another key is invalid.
\<close>

definition toy_enc :: fernet where
  "toy_enc k m =
     (if list_all token_char (k @ m) then Inr (k @ ''.'' @ m) else Inl ValueError)"

definition toy_dec :: fernet where
  "toy_dec k t =
     (if starts_with (k @ ''.'') t then Inr (drop (length k + 1) t) else Inl InvalidToken)"

lemma fernet_ok_toy: "fernet_ok toy_enc toy_dec"
  by (auto simp: fernet_ok_def toy_enc_def toy_dec_def token_char_def is_space_def split: if_splits)

section \<open>Properties\<close>

text \<open>
  A generated secret has 32 characters, each a letter or a digit, whatever indices the
  random source draws.
\<close>

theorem generate_secret_key_alnum:
  "length (generate_secret_key rnd) = 32
   \<and> set (generate_secret_key rnd) \<subseteq> set (ascii_letters @ digits)"
proof -
  have "choice (ascii_letters @ digits) r \<in> set (ascii_letters @ digits)" for r
    unfolding choice_def by (rule nth_mem, rule mod_less_divisor) (simp add: ascii_letters_def)
  then show ?thesis by (auto simp: generate_secret_key_def)
qed

text \<open>
  The token made from a pair of keys verifies under the same keys; under keys with
  another secret and the same private key it is refused.
\<close>

theorem auth_token_roundtrip:
  assumes "fernet_ok enc dec" and "auth_token enc ks = Inr t" and "private_key ks' = private_key ks"
  shows "verify_auth_token dec t ks' = Inr (secret_key ks' = secret_key ks)"
  using assms by (auto simp: fernet_ok_def auth_token_def verify_auth_token_def)

theorem auth_token_roundtrip_witness:
  "\<exists>t. auth_token toy_enc \<lparr>private_key = ''k'', secret_key = ''s''\<rparr> = Inr t
     \<and> verify_auth_token toy_dec t \<lparr>private_key = ''k'', secret_key = ''s''\<rparr> = Inr True
     \<and> verify_auth_token toy_dec t \<lparr>private_key = ''k'', secret_key = ''other''\<rparr> = Inr False"
proof -
  let ?ks = "\<lparr>private_key = ''k'', secret_key = ''s''\<rparr>" and ?ks' = "\<lparr>private_key = ''k'', secret_key = ''other''\<rparr>"
  obtain t where t: "auth_token toy_enc ?ks = Inr t" by (simp add: auth_token_def toy_enc_def token_char_def is_space_def)
  have "verify_auth_token toy_dec t ?ks = Inr (secret_key ?ks = secret_key ?ks)"
    by (rule auth_token_roundtrip [OF fernet_ok_toy t]) simp
  moreover have "verify_auth_token toy_dec t ?ks' = Inr (secret_key ?ks' = secret_key ?ks)"
    by (rule auth_token_roundtrip [OF fernet_ok_toy t]) simp
  ultimately show ?thesis using t by auto
qed

end
