(* ===== verification/Broker.thy ===== *)
theory Broker
  imports Messaging Auth
begin

text \<open>
  \<open>pyaiot/broker/broker.py\<close>: the broker and its two websocket handlers.

  A websocket handler object is a number (\<open>ws\<close>).  The record \<open>broker\<close> holds the attributes
  of the \<open>Broker\<close> object (\<open>keys\<close>, \<open>gateways\<close>, \<open>clients\<close>), the \<open>uid\<close> attribute of the client
  handlers, and what Tornado keeps for the code: whether a connection still accepts
  writes (\<open>up\<close>), the texts written to each connection so far, oldest first (\<open>sent\<close>), and
  the connections the code closed, with the reason (\<open>closed\<close>).  Tornado documents that
  \<open>write_message\<close> raises \<open>WebSocketClosedError\<close> on a closed connection.  \<open>uuid.uuid4()\<close> is
  an argument of the opening event; \<open>None\<close> as a uid is \<open>JNull\<close>.

  Tornado closes the connection whose handler raised; here the loss and the call of \<open>on_close\<close>
  are the events \<open>ConnectionLost\<close> and \<open>...Close\<close>, which may follow.  A text with a lone surrogate,
  which \<open>write_message\<close> refuses with \<open>UnicodeEncodeError\<close>, is written like any other.
\<close>

type_synonym ws = nat

record broker =
  broker_keys :: keys
  gateways :: "(ws, json list) dict"
  clients :: "(json, ws) dict"
  handler_uid :: "ws \<Rightarrow> json"
  up :: "ws \<Rightarrow> bool"
  sent :: "(ws \<times> string) list"
  closed :: "(ws \<times> nat \<times> reason option) list"

definition broker_init :: "keys \<Rightarrow> broker" where
  "broker_init ks = \<lparr>broker_keys = ks, gateways = [], clients = [], handler_uid = (\<lambda>_. JNull),
     up = (\<lambda>_. False), sent = [], closed = []\<rparr>"

definition write_message :: "ws \<Rightarrow> string \<Rightarrow> (broker, unit) py" where
  "write_message w msg s =
     (if up s w then (Inr (), s\<lparr>sent := sent s @ [(w, msg)]\<rparr>) else (Inl WebSocketClosedError, s))"

definition close_ws :: "ws \<Rightarrow> nat \<Rightarrow> reason option \<Rightarrow> (broker, unit) py" where
  "close_ws w code reason =
     modify (\<lambda>s. s\<lparr>closed := closed s @ [(w, code, reason)], up := (up s)(w := False)\<rparr>)"

section \<open>The broker application\<close>

definition send_to_client :: "json \<Rightarrow> string \<Rightarrow> (broker, unit) py" where
  "send_to_client uid message =
     bind (gets clients) (\<lambda>cs. bind (lift (key_item cs uid)) (\<lambda>w. write_message w message))"

definition broadcast :: "string \<Rightarrow> (broker, unit) py" where
  "broadcast message =
     bind (gets clients) (\<lambda>cs. for_each (map fst cs) (\<lambda>uid. send_to_client uid message))"

definition on_client_message :: "ws \<Rightarrow> json \<Rightarrow> (broker, unit) py" where
  "on_client_message w message =
     bind (lift (py_getitem message ''type'')) (\<lambda>t.
     seq (if t = JStr ''new'' then
            bind (gets (\<lambda>s. handler_uid s w)) (\<lambda>uid.
            bind (gets clients) (\<lambda>cs.
            bind (lift (in_keys uid cs)) (\<lambda>known.
              if \<not> known then modify (\<lambda>s. s\<lparr>clients := dict_put (clients s) (canon uid) w\<rparr>)
              else ret ())))
          else ret ())
     (bind (gets gateways) (\<lambda>gws.
        for_each (map fst gws) (\<lambda>gw. write_message gw (serialize message)))))"

text \<open>\<open>self.gateways[ws]\<close>, and \<open>message['uid'] in self.gateways[ws]\<close>.\<close>

definition gateway_nodes :: "ws \<Rightarrow> (broker, json list) py" where
  "gateway_nodes w = bind (gets (\<lambda>s. dict_get (gateways s) w)) (\<lambda>v. lift (or_raise KeyError v))"

definition set_gateway_nodes :: "ws \<Rightarrow> json list \<Rightarrow> (broker, unit) py" where
  "set_gateway_nodes w uids = modify (\<lambda>s. s\<lparr>gateways := dict_put (gateways s) w uids\<rparr>)"

definition uid_behind :: "ws \<Rightarrow> json \<Rightarrow> (broker, bool) py" where
  "uid_behind w message =
     bind (lift (py_getitem message ''uid'')) (\<lambda>uid.
     bind (gateway_nodes w) (\<lambda>uids. ret (py_in uid uids)))"

text \<open>The destination of a message: everyone, one registered client, or no one.\<close>

definition deliver :: "json \<Rightarrow> (broker, unit) py" where
  "deliver message =
     bind (lift (py_getitem message ''dst'')) (\<lambda>dst.
       if dst = JStr ''all'' then broadcast (serialize message)
       else bind (gets clients) (\<lambda>cs.
            bind (lift (in_keys dst cs)) (\<lambda>known.
              if known then send_to_client dst (serialize message) else ret ())))"

text \<open>\<open>message['type'] in "update"\<close> is a substring test in the code.\<close>

definition in_text :: "json \<Rightarrow> string \<Rightarrow> exn + bool" where
  "in_text v txt = (case v of JStr s \<Rightarrow> Inr (contains s txt) | _ \<Rightarrow> Inl TypeError)"

definition on_gateway_message :: "ws \<Rightarrow> json \<Rightarrow> (broker, unit) py" where
  "on_gateway_message w message =
     bind (lift (py_getitem message ''type'')) (\<lambda>t.
     if t = JStr ''new'' then
       bind (lift (py_getitem message ''uid'')) (\<lambda>uid.
       bind (gateway_nodes w) (\<lambda>uids.
       seq (if \<not> py_in uid uids then set_gateway_nodes w (uids @ [uid]) else ret ())
       (deliver message)))
     else
       bind (if t = JStr ''out'' then uid_behind w message else ret False) (\<lambda>leaving.
       if leaving then
         bind (lift (py_getitem message ''uid'')) (\<lambda>uid.
         bind (gateway_nodes w) (\<lambda>uids.
         bind (lift (py_remove uid uids)) (\<lambda>rest.
         seq (set_gateway_nodes w rest)
         (broadcast (serialize message)))))
       else if t = JStr ''reset'' then broadcast (serialize message)
       else
         bind (lift (in_text t ''update'')) (\<lambda>upd.
         bind (if upd then uid_behind w message else ret False) (\<lambda>known.
         if known then deliver message else ret ()))))"

text \<open>\<open>remove_ws\<close> is called with the uid of a client or with a gateway handler.\<close>

datatype peer = Client json | Gateway ws

definition remove_ws :: "peer \<Rightarrow> (broker, unit) py" where
  "remove_ws p =
     bind (gets clients) (\<lambda>cs.
     bind (case p of Client uid \<Rightarrow> lift (in_keys uid cs) | Gateway _ \<Rightarrow> ret False) (\<lambda>is_client.
     if is_client then
       (case p of Client uid \<Rightarrow> modify (\<lambda>s. s\<lparr>clients := dict_del (clients s) (canon uid)\<rparr>)
        | Gateway _ \<Rightarrow> ret ())
     else
       (case p of Client _ \<Rightarrow> ret ()
        | Gateway w \<Rightarrow>
            bind (gets gateways) (\<lambda>gws.
            if dict_has gws w then
              bind (gateway_nodes w) (\<lambda>uids.
              seq (for_each uids (\<lambda>node_uid. broadcast (out_node node_uid)))
              (modify (\<lambda>s. s\<lparr>gateways := dict_del (gateways s) w\<rparr>)))
            else ret ()))))"

section \<open>The websocket handlers\<close>

text \<open>
  \<open>get\<close> checks the subprotocols before the connection is upgraded: the result is the HTTP
  answer, an exception (Tornado answers 500), or the upgrade.
\<close>

datatype upgrade = Refused nat string | Upgraded

definition check_subprotocols :: "fernet \<Rightarrow> keys \<Rightarrow> string list \<Rightarrow> exn + upgrade" where
  "check_subprotocols dec ks subprotocols =
     (if length subprotocols \<noteq> 2 \<or> strip (subprotocols ! 0) \<noteq> ''token''
      then Inr (Refused 401 ''Invalid subprotocols'')
      else (case verify_auth_token dec (strip (subprotocols ! 1)) ks of
              Inl e \<Rightarrow> Inl e
            | Inr ok \<Rightarrow> if \<not> ok then Inr (Refused 401 ''Invalid token'') else Inr Upgraded))"

definition gateway_get :: "fernet \<Rightarrow> keys \<Rightarrow> string option \<Rightarrow> exn + upgrade" where
  "gateway_get dec ks header =
     check_subprotocols dec ks (split_on CHR '','' (case header of None \<Rightarrow> [] | Some h \<Rightarrow> h))"

definition gateway_open :: "ws \<Rightarrow> (broker, unit) py" where
  "gateway_open w = modify (\<lambda>s. s\<lparr>gateways := dict_put (gateways s) w []\<rparr>)"

definition gateway_on_message :: "(string \<Rightarrow> string) \<Rightarrow> ws \<Rightarrow> raw \<Rightarrow> (broker, unit) py" where
  "gateway_on_message fl w raw =
     bind (lift (check_message fl raw)) (\<lambda>(message, reason).
       case message of
         Some m \<Rightarrow> on_gateway_message w m
       | None \<Rightarrow> close_ws w 1003 reason)"

definition gateway_on_close :: "ws \<Rightarrow> (broker, unit) py" where
  "gateway_on_close w = remove_ws (Gateway w)"

definition client_open :: "ws \<Rightarrow> string \<Rightarrow> (broker, unit) py" where
  "client_open w uuid = modify (\<lambda>s. s\<lparr>handler_uid := (handler_uid s)(w := JStr uuid)\<rparr>)"

definition client_on_message :: "(string \<Rightarrow> string) \<Rightarrow> ws \<Rightarrow> raw \<Rightarrow> (broker, unit) py" where
  "client_on_message fl w raw =
     bind (lift (check_message fl raw)) (\<lambda>(message, reason).
       case message of
         Some m \<Rightarrow>
           bind (gets (\<lambda>s. handler_uid s w)) (\<lambda>uid.
           bind (lift (py_update m ''src'' uid)) (\<lambda>m'.
           on_client_message w m'))
       | None \<Rightarrow> close_ws w 1003 reason)"

definition client_on_close :: "ws \<Rightarrow> (broker, unit) py" where
  "client_on_close w = bind (gets (\<lambda>s. handler_uid s w)) (\<lambda>uid. remove_ws (Client uid))"

text \<open>
  What can happen to the broker: the callbacks of the two handlers, and a connection that
  goes down before its \<open>on_close\<close> is called.  Tornado makes a new handler object for every
  connection and calls \<open>open\<close> first; \<open>uuid4\<close> does not repeat.
\<close>

datatype broker_event =
    GatewayOpen ws
  | GatewayMessage ws raw
  | GatewayClose ws
  | ClientOpen ws string
  | ClientMessage ws raw
  | ClientClose ws
  | ConnectionLost ws

definition set_up :: "ws \<Rightarrow> bool \<Rightarrow> (broker, unit) py" where
  "set_up w b = modify (\<lambda>s. s\<lparr>up := (up s)(w := b)\<rparr>)"

fun broker_handle :: "(string \<Rightarrow> string) \<Rightarrow> broker_event \<Rightarrow> (broker, unit) py" where
  "broker_handle fl (GatewayOpen w) = seq (set_up w True) (gateway_open w)"
| "broker_handle fl (GatewayMessage w raw) = gateway_on_message fl w raw"
| "broker_handle fl (GatewayClose w) = seq (set_up w False) (gateway_on_close w)"
| "broker_handle fl (ClientOpen w uuid) = seq (set_up w True) (client_open w uuid)"
| "broker_handle fl (ClientMessage w raw) = client_on_message fl w raw"
| "broker_handle fl (ClientClose w) = seq (set_up w False) (client_on_close w)"
| "broker_handle fl (ConnectionLost w) = set_up w False"

definition uuid_used :: "broker \<Rightarrow> string \<Rightarrow> bool" where
  "uuid_used s uuid \<longleftrightarrow> (\<exists>w. handler_uid s w = JStr uuid)"

fun broker_enabled :: "broker_event \<Rightarrow> broker \<Rightarrow> bool" where
  "broker_enabled (GatewayOpen w) s \<longleftrightarrow> \<not> up s w \<and> \<not> dict_has (gateways s) w \<and> handler_uid s w = JNull"
| "broker_enabled (ClientOpen w uuid) s \<longleftrightarrow>
     \<not> up s w \<and> \<not> dict_has (gateways s) w \<and> handler_uid s w = JNull \<and> \<not> uuid_used s uuid"
| "broker_enabled (ClientMessage w _) s \<longleftrightarrow> handler_uid s w \<noteq> JNull"
| "broker_enabled (ClientClose w) s \<longleftrightarrow> handler_uid s w \<noteq> JNull"
| "broker_enabled (GatewayMessage w _) s \<longleftrightarrow> dict_has (gateways s) w"
| "broker_enabled (GatewayClose w) s \<longleftrightarrow> dict_has (gateways s) w"
| "broker_enabled (ConnectionLost _) s \<longleftrightarrow> True"

end
