(* ===== verification/Broker_Correct.thy ===== *)
theory Broker_Correct
  imports Broker
begin

text \<open>
  The broker keeps its tables consistent and routes every message to the right peers.

  \<open>broker_ok\<close> is the invariant; every handler keeps it, whether it returns or raises
  (\<open>broker_service\<close>).  \<open>Broker_Routing\<close> has the exact outcome of each way of sending and the
  abstract specification \<open>route\<close> of the treatment of a gateway's message;
  \<open>Broker_Properties.gateway_message_refines\<close> shows that the code implements it.
\<close>

section \<open>The invariant\<close>

definition broker_ok :: "broker \<Rightarrow> bool" where
  "broker_ok s \<longleftrightarrow>
     dict_ok (gateways s) \<and> dict_ok (clients s)
     \<and> (\<forall>(w, uids) \<in> set (gateways s). pairwise_distinct uids \<and> handler_uid s w = JNull)
     \<and> (\<forall>(u, w) \<in> set (clients s). \<exists>t. u = JStr t \<and> handler_uid s w = u)
     \<and> (\<forall>w. handler_uid s w = JNull \<or> (\<exists>t. handler_uid s w = JStr t))
     \<and> (\<forall>w w' t. handler_uid s w = JStr t \<longrightarrow> handler_uid s w' = JStr t \<longrightarrow> w = w')"

text \<open>Only the log of written texts, the closed connections and their state change.\<close>

definition same_tables :: "broker \<Rightarrow> broker \<Rightarrow> bool" where
  "same_tables s t \<longleftrightarrow>
     gateways t = gateways s \<and> clients t = clients s \<and> handler_uid t = handler_uid s"

lemma same_tables_ok: "same_tables s t \<Longrightarrow> broker_ok s \<Longrightarrow> broker_ok t"
  by (simp add: same_tables_def broker_ok_def)

interpretation tables: state_preorder same_tables
  by unfold_locales (auto simp: same_tables_def)

interpretation keeps: state_preorder "\<lambda>s t. broker_ok s \<longrightarrow> broker_ok t"
  by unfold_locales auto

lemma keeps_tables: "tables.upholds m \<Longrightarrow> keeps.upholds m"
  by (auto simp: keeps.upholds_def intro: same_tables_ok tables.upholdsD)

lemma tables_write: "tables.upholds (write_message w msg)"
  by (rule tables.upholdsI) (simp add: write_message_def same_tables_def)

lemma tables_close: "tables.upholds (close_ws w code r)"
  unfolding close_ws_def by (rule tables.upholds_modify) (simp add: same_tables_def)

lemma tables_set_up: "tables.upholds (set_up w b)"
  unfolding set_up_def by (rule tables.upholds_modify) (simp add: same_tables_def)

lemma tables_send: "tables.upholds (send_to_client uid msg)"
  unfolding send_to_client_def by (intro tables.upholds_rules tables_write)

lemma tables_broadcast: "tables.upholds (broadcast msg)"
  unfolding broadcast_def by (intro tables.upholds_rules tables_send)

lemma tables_deliver: "tables.upholds (deliver m)"
  unfolding deliver_def by (intro tables.upholds_rules tables_send tables_broadcast)

lemma tables_gateway_nodes: "tables.upholds (gateway_nodes w)"
  unfolding gateway_nodes_def by (intro tables.upholds_rules)

lemma tables_uid_behind: "tables.upholds (uid_behind w m)"
  unfolding uid_behind_def by (intro tables.upholds_rules tables_gateway_nodes)

lemmas tables_rules = tables_write tables_close tables_set_up tables_send tables_broadcast
  tables_deliver tables_gateway_nodes tables_uid_behind

lemma gateway_nodes_run:
  "gateway_nodes w s = (or_raise KeyError (dict_get (gateways s) w), s)"
  by (simp add: gateway_nodes_def py_run)

lemma uid_behind_run:
  "uid_behind w m s =
     (case py_getitem m ''uid'' of
        Inl e \<Rightarrow> (Inl e, s)
      | Inr uid \<Rightarrow>
          (case dict_get (gateways s) w of
             None \<Rightarrow> (Inl KeyError, s) | Some uids \<Rightarrow> (Inr (py_in uid uids), s)))"
  by (simp add: uid_behind_def gateway_nodes_run py_run split: sum.split option.split)

lemma broker_ok_nodes:
  assumes "broker_ok s" and "dict_get (gateways s) w = Some uids"
  shows "pairwise_distinct uids" and "handler_uid s w = JNull"
  using assms map_of_SomeD [OF assms(2)] by (auto simp: broker_ok_def)

lemma broker_ok_put_nodes:
  assumes "broker_ok s" and "pairwise_distinct uids" and "handler_uid s w = JNull"
  shows "broker_ok (s\<lparr>gateways := dict_put (gateways s) w uids\<rparr>)"
  using assms by (fastforce simp: broker_ok_def dict_ok_put dest: dict_putD)

text \<open>Replacing the nodes of a gateway by a list without duplicates.\<close>

lemma keeps_update_nodes:
  assumes "\<And>uids. pairwise_distinct uids \<Longrightarrow> pairwise_distinct (f uids)" and "\<And>s. broker_ok s \<longrightarrow> broker_ok (snd (k s))"
  shows "broker_ok s \<Longrightarrow> dict_get (gateways s) w = Some uids \<Longrightarrow>
    broker_ok (snd (seq (set_gateway_nodes w (f uids)) k s))"
  using assms broker_ok_put_nodes broker_ok_nodes
  by (simp add: set_gateway_nodes_def py_run)

text \<open>
  A gateway's message ends in one of three ways: it writes nothing and changes nothing, or it
  is delivered or broadcast after the nodes behind the gateway have been brought up to date.
\<close>

definition regrouped :: "broker \<Rightarrow> broker \<Rightarrow> bool" where
  "regrouped s t \<longleftrightarrow> broker_ok t \<and> clients t = clients s \<and> handler_uid t = handler_uid s \<and> up t = up s
     \<and> sent t = sent s \<and> map fst (gateways t) = map fst (gateways s)"

lemma regrouped_put:
  assumes "broker_ok s" and "dict_get (gateways s) w = Some uids" and "pairwise_distinct uids'"
  shows "regrouped s (s\<lparr>gateways := dict_put (gateways s) w uids'\<rparr>)"
  using assms broker_ok_put_nodes [OF assms(1,3)] broker_ok_nodes [OF assms(1,2)]
  by (simp add: regrouped_def keys_put_old)

definition gateway_outcome :: "json \<Rightarrow> broker \<Rightarrow> (exn + unit) \<times> broker \<Rightarrow> bool" where
  "gateway_outcome m s out \<longleftrightarrow>
     (\<exists>r. out = (r, s)) \<or> (\<exists>t. regrouped s t \<and> (out = deliver m t \<or> out = broadcast (serialize m) t))"

lemma gateway_outcomeI:
  "gateway_outcome m s (r, s)"
  "regrouped s t \<Longrightarrow> gateway_outcome m s (deliver m t)"
  "regrouped s t \<Longrightarrow> gateway_outcome m s (broadcast (serialize m) t)"
  by (auto simp: gateway_outcome_def)

lemma on_gateway_message_outcome:
  assumes ok: "broker_ok s"
  shows "gateway_outcome m s (on_gateway_message w m s)"
proof (cases "dict_get (gateways s) w")
  case None
  with ok show ?thesis
    by (auto simp: on_gateway_message_def uid_behind_run gateway_nodes_run py_run regrouped_def
        intro: gateway_outcomeI split: sum.split)
next
  case (Some uids)
  note put = regrouped_put [OF ok Some]
  have pd: "pairwise_distinct uids" using broker_ok_nodes [OF ok Some] by simp
  have new: "\<not> py_in uid uids \<Longrightarrow> regrouped s (s\<lparr>gateways := dict_put (gateways s) w (uids @ [uid])\<rparr>)" for uid
    using pd by (intro put) (simp add: pairwise_distinct_snoc)
  have out: "regrouped s (s\<lparr>gateways := dict_put (gateways s) w (remove_first uid uids)\<rparr>)" for uid
    using pd by (intro put) (simp add: pairwise_distinct_remove)
  have same: "regrouped s s" using ok by (simp add: regrouped_def)
  show ?thesis
  proof (cases "py_getitem m ''type''"; cases "py_getitem m ''uid''")
    fix ty uid
    assume "py_getitem m ''type'' = Inr ty" "py_getitem m ''uid'' = Inr uid"
    with Some same new [of uid] out [of uid] show ?thesis
      by (cases "ty = JStr ''out''"; cases "in_text ty ''update''")
        (simp_all add: on_gateway_message_def uid_behind_run gateway_nodes_run py_remove_def set_gateway_nodes_def
          py_run gateway_outcomeI)
  qed (use Some same in \<open>auto simp: on_gateway_message_def uid_behind_run gateway_nodes_run py_run
         intro: gateway_outcomeI split: sum.split\<close>)
qed

lemma on_gateway_message_keeps: "broker_ok s \<Longrightarrow> broker_ok (snd (on_gateway_message w m s))"
  using on_gateway_message_outcome [of s m w] keeps_tables [OF tables_deliver [of m]]
    keeps_tables [OF tables_broadcast [of "serialize m"]]
  by (fastforce simp: gateway_outcome_def regrouped_def keeps.upholds_def)

lemma broker_ok_register:
  assumes "broker_ok s" and "handler_uid s w = JStr t" and "\<not> dict_has (clients s) (JStr t)"
  shows "broker_ok (s\<lparr>clients := dict_put (clients s) (JStr t) w\<rparr>)"
  using assms by (fastforce simp: broker_ok_def dict_ok_put dest: dict_putD)

lemma on_client_message_keeps:
  assumes ok: "broker_ok s" and h: "handler_uid s w \<noteq> JNull"
  shows "broker_ok (snd (on_client_message w m s))"
proof -
  obtain t where t: "handler_uid s w = JStr t" using ok h by (auto simp: broker_ok_def)
  define k where "k = bind (gets gateways) (\<lambda>gws. for_each (map fst gws) (\<lambda>gw. write_message gw (serialize m)))"
  have "tables.upholds k"
    unfolding k_def by (intro tables.upholds_rules tables_rules)
  then have k: "broker_ok s' \<longrightarrow> broker_ok (snd (k s'))" for s'
    using keeps_tables by (auto simp: keeps.upholds_def)
  show ?thesis
    using ok t broker_ok_register [OF ok t] k
    by (auto simp: on_client_message_def k_def [symmetric] in_keys_def hashable_def py_run split: sum.split)
qed

lemma remove_ws_keeps: "broker_ok s \<Longrightarrow> broker_ok (snd (remove_ws p s))"
proof -
  have del_client: "broker_ok s \<longrightarrow> broker_ok (s\<lparr>clients := dict_del (clients s) u\<rparr>)" for s u
    by (fastforce simp: broker_ok_def dict_ok_del dest: dict_delD)
  have del_gateway: "broker_ok s \<longrightarrow> broker_ok (s\<lparr>gateways := dict_del (gateways s) w\<rparr>)" for s w
    by (fastforce simp: broker_ok_def dict_ok_del dest: dict_delD)
  have "keeps.upholds (remove_ws p)"
    unfolding remove_ws_def
    by (cases p) (auto intro!: keeps.upholds_rules del_client del_gateway
        keeps_tables [OF tables_broadcast] keeps_tables [OF tables_gateway_nodes])
  then show "broker_ok s \<Longrightarrow> ?thesis" by (simp add: keeps.upholds_def)
qed

lemma broker_handle_keeps:
  assumes ok: "broker_ok s" and en: "broker_enabled e s"
  shows "broker_ok (snd (broker_handle fl e s))"
proof (cases e)
  case (GatewayOpen w)
  have "broker_ok (s\<lparr>up := (up s)(w := True)\<rparr>)" using ok by (simp add: broker_ok_def)
  then have "broker_ok (s\<lparr>up := (up s)(w := True), gateways := dict_put (gateways s) w []\<rparr>)"
    using en GatewayOpen broker_ok_put_nodes [of "s\<lparr>up := (up s)(w := True)\<rparr>" "[]" w] by simp
  with GatewayOpen show ?thesis by (simp add: gateway_open_def set_up_def py_run)
next
  case (GatewayMessage w raw)
  have "broker_ok (snd (close_ws w 1003 r s))" for r
    using keeps_tables [OF tables_close] ok by (simp add: keeps.upholds_def)
  with GatewayMessage ok show ?thesis
    by (auto simp: gateway_on_message_def py_run on_gateway_message_keeps split: sum.split option.split)
next
  case (GatewayClose w)
  have "broker_ok (s\<lparr>up := (up s)(w := False)\<rparr>)" using ok by (simp add: broker_ok_def)
  with GatewayClose show ?thesis
    by (simp add: gateway_on_close_def set_up_def py_run remove_ws_keeps)
next
  case (ClientOpen w uuid)
  then have fresh: "handler_uid s w = JNull" "\<not> dict_has (gateways s) w" "\<not> uuid_used s uuid"
    using en by auto
  have "\<forall>(u, w') \<in> set (clients s). w' \<noteq> w" using ok fresh by (auto simp: broker_ok_def)
  with ok fresh ClientOpen show ?thesis
    by (auto simp: broker_ok_def client_open_def set_up_def uuid_used_def dict_has_iff py_run
        split: if_splits) (force simp: image_iff)+
next
  case (ClientMessage w raw)
  have close: "broker_ok (snd (close_ws w 1003 r s))" for r
    using keeps_tables [OF tables_close] ok by (simp add: keeps.upholds_def)
  have h: "handler_uid s w \<noteq> JNull" using en ClientMessage by simp
  show ?thesis
    using ClientMessage ok close on_client_message_keeps [OF ok h]
    by (auto simp: client_on_message_def py_run split: sum.split option.split)
next
  case (ClientClose w)
  have "broker_ok (s\<lparr>up := (up s)(w := False)\<rparr>)" using ok by (simp add: broker_ok_def)
  with ClientClose show ?thesis
    by (simp add: client_on_close_def set_up_def py_run remove_ws_keeps)
next
  case (ConnectionLost w)
  with ok show ?thesis by (simp add: set_up_def py_run broker_ok_def)
qed

interpretation broker_service: service "broker_handle fl" broker_enabled "broker_init ks" broker_ok
proof unfold_locales
  show "broker_ok (broker_init ks)" by (simp add: broker_init_def broker_ok_def)
qed (rule broker_handle_keeps)

end
