(* ===== verification/Broker_Routing.thy ===== *)
theory Broker_Routing
  imports Broker_Correct
begin

text \<open>
  What the broker sends, to whom and in which order: the exact outcome of a broadcast, of
  forwarding a client's message and of a lost gateway, and the abstract specification
  \<open>route\<close> of the treatment of a gateway's message with its refinement.  A connection that no
  longer accepts writes ends the loop that writes to it and to the ones after it: \<open>written_to\<close>
  is that prefix, for every broadcast and delivery.
\<close>

section \<open>Sending\<close>

text \<open>
  The connections written to when a text goes to every registered client: those before
  the first connection that no longer accepts writes.
\<close>

definition deliveries :: "broker \<Rightarrow> string \<Rightarrow> (ws \<times> string) list" where
  "deliveries s msg = map (\<lambda>(u, w). (w, msg)) (takeWhile (\<lambda>(u, w). up s w) (clients s))"

definition clients_up :: "broker \<Rightarrow> bool" where
  "clients_up s \<longleftrightarrow> (\<forall>(u, w) \<in> set (clients s). up s w)"

lemma client_key:
  assumes "broker_ok s" and "(u, w) \<in> set (clients s)"
  shows "hashable u" "canon u = u" "dict_get (clients s) u = Some w"
    "key_item (clients s) u = Inr w" "in_keys u (clients s) = Inr True"
proof -
  obtain t where t: "u = JStr t" using assms by (auto simp: broker_ok_def)
  then show "hashable u" "canon u = u" by (simp_all add: hashable_def)
  have "dict_ok (clients s)" using assms by (simp add: broker_ok_def)
  with assms(2) show get: "dict_get (clients s) u = Some w" by (simp add: dict.get_items)
  with t show "key_item (clients s) u = Inr w" "in_keys u (clients s) = Inr True"
    by (simp_all add: key_item_def in_keys_def hashable_def dict_has_def)
qed

lemma send_each_run:
  assumes "\<forall>(u, w) \<in> set ps. key_item (clients s) u = Inr w"
  shows "for_each (map fst ps) (\<lambda>uid. send_to_client uid msg) s =
    (if \<forall>(u, w) \<in> set ps. up s w then Inr () else Inl WebSocketClosedError,
     s\<lparr>sent := sent s @ map (\<lambda>(u, w). (w, msg)) (takeWhile (\<lambda>(u, w). up s w) ps)\<rparr>)"
  using assms
proof (induction ps arbitrary: s)
  case Nil
  show ?case by (simp add: py_run)
next
  case (Cons p ps)
  obtain u w where p: "p = (u, w)" by fastforce
  have "\<forall>(u, w) \<in> set ps. key_item (clients (s\<lparr>sent := sent s @ [(w', msg)]\<rparr>)) u = Inr w" for w'
    using Cons.prems by simp
  from Cons.IH [OF this, of w] Cons.prems p show ?case
    by (simp add: py_run send_to_client_def write_message_def)
qed

lemma broadcast_run:
  assumes "broker_ok s"
  shows "broadcast msg s =
    (if clients_up s then Inr () else Inl WebSocketClosedError,
     s\<lparr>sent := sent s @ deliveries s msg\<rparr>)"
proof -
  have "\<forall>(u, w) \<in> set (clients s). key_item (clients s) u = Inr w"
    using client_key(4) [OF assms] by blast
  from send_each_run [OF this] show ?thesis
    by (simp add: broadcast_def py_run deliveries_def clients_up_def)
qed

lemma deliveries_all: "clients_up s \<Longrightarrow> deliveries s msg = map (\<lambda>(u, w). (w, msg)) (clients s)"
  by (simp add: deliveries_def clients_up_def takeWhile_eq_all_conv [THEN iffD2])

text \<open>
  A text that goes to a list of connections, one after the other: the first that no longer accepts
  writes ends the loop.
\<close>

definition written_to :: "broker \<Rightarrow> string \<Rightarrow> ws list \<Rightarrow> (exn + unit) \<times> broker" where
  "written_to s msg ws =
     (if \<forall>w \<in> set ws. up s w then Inr () else Inl WebSocketClosedError,
      s\<lparr>sent := sent s @ map (\<lambda>w. (w, msg)) (takeWhile (up s) ws)\<rparr>)"

lemma written_to_nothing: "written_to s msg [] = (Inr (), s)"
  by (simp add: written_to_def)

lemma written_to_up:
  "\<forall>w \<in> set ws. up s w \<Longrightarrow> written_to s msg ws = (Inr (), s\<lparr>sent := sent s @ map (\<lambda>w. (w, msg)) ws\<rparr>)"
  by (simp add: written_to_def takeWhile_eq_all_conv [THEN iffD2])

lemma clients_up_iff: "clients_up s \<longleftrightarrow> (\<forall>w \<in> set (map snd (clients s)). up s w)"
  by (auto simp: clients_up_def)

lemma broadcast_written: "broker_ok s \<Longrightarrow> broadcast msg s = written_to s msg (map snd (clients s))"
  by (simp add: broadcast_run deliveries_def written_to_def clients_up_iff takeWhile_map comp_def split_def)

text \<open>The clients that a text for everyone reaches: those registered before the first closed connection.\<close>

definition reached :: "broker \<Rightarrow> ws list" where
  "reached s = takeWhile (up s) (map snd (clients s))"

lemma reached_up: "clients_up s \<Longrightarrow> reached s = map snd (clients s)"
  by (simp add: reached_def clients_up_iff takeWhile_eq_all_conv del: set_map)

lemma reached_registered: "w \<in> set (reached s) \<Longrightarrow> w \<in> snd ` set (clients s)"
  by (metis reached_def set_map set_takeWhileD)

text \<open>One message to its destination; \<open>targets\<close> are the connections a destination names.\<close>

definition targets :: "broker \<Rightarrow> json \<Rightarrow> ws list" where
  "targets s dst =
     (if dst = JStr ''all'' then map snd (clients s)
      else if hashable dst then (case dict_get (clients s) (canon dst) of None \<Rightarrow> [] | Some w \<Rightarrow> [w])
      else [])"

lemma targets_subset:
  assumes "w \<in> set (targets s dst)"
  shows "w \<in> set (map snd (clients s))"
proof (cases "dst = JStr ''all''")
  case True
  with assms show ?thesis by (simp add: targets_def)
next
  case False
  with assms have "dict_get (clients s) (canon dst) = Some w"
    by (cases "hashable dst"; cases "dict_get (clients s) (canon dst)") (simp_all add: targets_def)
  then show ?thesis by (force dest: map_of_SomeD)
qed

lemma deliver_written:
  assumes "broker_ok s" and "py_getitem m ''dst'' = Inr dst"
  shows "deliver m s = (if hashable dst then written_to s (serialize m) (targets s dst) else (Inl TypeError, s))"
proof (cases "dst = JStr ''all''")
  case True
  then show ?thesis
    using broadcast_written [OF assms(1)] assms(2) by (simp add: deliver_def py_run targets_def hashable_def)
next
  case False
  then show ?thesis
    using assms(2)
    by (cases "dict_get (clients s) (canon dst)")
      (auto simp: deliver_def py_run in_keys_def dict_has_def targets_def send_to_client_def key_item_def
        write_message_def written_to_def)
qed

lemma deliver_run:
  assumes ok: "broker_ok s" and up: "clients_up s"
    and dst: "py_getitem m ''dst'' = Inr dst" and h: "hashable dst"
  shows "deliver m s = (Inr (), s\<lparr>sent := sent s @ map (\<lambda>w. (w, serialize m)) (targets s dst)\<rparr>)"
proof -
  have "\<forall>w \<in> set (targets s dst). up s w" using up targets_subset unfolding clients_up_iff by blast
  then show ?thesis using deliver_written [OF ok dst] h by (simp add: written_to_up)
qed

text \<open>Forwarding to the gateways, in the order in which they connected.\<close>

definition gateways_up :: "broker \<Rightarrow> bool" where
  "gateways_up s \<longleftrightarrow> (\<forall>(w, uids) \<in> set (gateways s). up s w)"

text \<open>The gateways that a client's message reaches: those before the first closed connection.\<close>

definition in_reach :: "broker \<Rightarrow> ws list" where
  "in_reach s = takeWhile (up s) (map fst (gateways s))"

lemma in_reach_up: "gateways_up s \<Longrightarrow> in_reach s = map fst (gateways s)"
  by (auto simp: in_reach_def gateways_up_def)

lemma in_reach_connected: "w \<in> set (in_reach s) \<Longrightarrow> dict_has (gateways s) w"
  unfolding in_reach_def dict_has_iff by (metis set_map set_takeWhileD)

lemma write_each_run:
  "for_each ws (\<lambda>w. write_message w msg) s =
    (if \<forall>w \<in> set ws. up s w then Inr () else Inl WebSocketClosedError,
     s\<lparr>sent := sent s @ map (\<lambda>w. (w, msg)) (takeWhile (up s) ws)\<rparr>)"
  by (induction ws arbitrary: s) (auto simp: py_run write_message_def)

section \<open>The abstract specification of routing\<close>

text \<open>
  The abstract state: the set of node uids behind each connected gateway, and the
  connection of each registered client.  \<open>route\<close> says, for each kind of message, which
  nodes the sender has afterwards and who gets the message.
\<close>

record directory =
  nodes_of :: "ws \<Rightarrow> json set option"
  audience :: "json \<Rightarrow> ws option"

definition abs_broker :: "broker \<Rightarrow> directory" where
  "abs_broker s =
     \<lparr>nodes_of = (\<lambda>w. map_option (\<lambda>uids. canon ` set uids) (dict_get (gateways s) w)),
      audience = dict_get (clients s)\<rparr>"

definition recipients :: "directory \<Rightarrow> json \<Rightarrow> ws set" where
  "recipients d dst =
     (if dst = JStr ''all'' then ran (audience d)
      else if hashable dst then set_option (audience d (canon dst)) else {})"

fun route :: "directory \<Rightarrow> ws \<Rightarrow> string \<Rightarrow> json \<Rightarrow> json \<Rightarrow> directory \<times> ws set" where
  "route d w t uid dst =
     (let mine = the (nodes_of d w); u = canon uid in
      if t = ''new'' then (d\<lparr>nodes_of := (nodes_of d)(w \<mapsto> insert u mine)\<rparr>, recipients d dst)
      else if t = ''out'' then
        (if u \<in> mine then (d\<lparr>nodes_of := (nodes_of d)(w \<mapsto> mine - {u})\<rparr>, ran (audience d)) else (d, {}))
      else if t = ''reset'' then (d, ran (audience d))
      else (d, if u \<in> mine then recipients d dst else {}))"

lemma ran_clients: "broker_ok s \<Longrightarrow> ran (dict_get (clients s)) = snd ` set (clients s)"
  by (simp add: broker_ok_def dict_ok_def ran_distinct)

lemma set_targets: "broker_ok s \<Longrightarrow> set (targets s dst) = recipients (abs_broker s) dst"
proof (cases "dst = JStr ''all''")
  case True
  assume "broker_ok s"
  with True show ?thesis by (simp add: targets_def recipients_def abs_broker_def ran_clients)
next
  case False
  then show ?thesis
    by (cases "hashable dst"; cases "dict_get (clients s) (canon dst)")
      (simp_all add: targets_def recipients_def abs_broker_def)
qed

lemma clients_distinct: "broker_ok s \<Longrightarrow> distinct (map snd (clients s))"
proof -
  assume ok: "broker_ok s"
  have "inj_on snd (set (clients s))"
  proof (rule inj_onI)
    fix p q
    assume a: "p \<in> set (clients s)" "q \<in> set (clients s)" "snd p = snd q"
    have "\<forall>x \<in> set (clients s). handler_uid s (snd x) = fst x"
      using ok by (simp add: broker_ok_def split_beta)
    with a show "p = q" by (metis prod.expand)
  qed
  moreover have "distinct (clients s)"
    using ok by (simp add: broker_ok_def dict_ok_def distinct_map)
  ultimately show ?thesis by (simp add: distinct_map)
qed

lemma distinct_targets: "broker_ok s \<Longrightarrow> distinct (targets s dst)"
  by (auto simp: targets_def clients_distinct split: option.splits)

lemma filter_targets:
  assumes "broker_ok s"
  shows "filter (\<lambda>r. r \<in> set (targets s dst)) (map snd (clients s)) = targets s dst"
proof -
  have one: "filter (\<lambda>r. r = w) ds = [w]" if "distinct ds" "w \<in> set ds" for w and ds :: "ws list"
    using that by (induction ds) (auto simp: filter_empty_conv)
  show ?thesis
  proof (cases "dst = JStr ''all''")
    case True
    then show ?thesis by (simp add: targets_def filter_id_conv)
  next
    case False
    show ?thesis
    proof (cases "hashable dst \<and> dict_get (clients s) (canon dst) \<noteq> None")
      case True
      then obtain w where w: "dict_get (clients s) (canon dst) = Some w" by auto
      then have "w \<in> set (map snd (clients s))" by (force dest!: map_of_SomeD intro: rev_image_eqI)
      with w False True one [OF clients_distinct [OF assms]] show ?thesis by (simp add: targets_def)
    next
      case out: False
      with False have "targets s dst = []" by (cases "hashable dst") (simp_all add: targets_def)
      then show ?thesis by simp
    qed
  qed
qed

lemma canon_remove_first:
  "pairwise_distinct uids \<Longrightarrow> canon ` set (remove_first uid uids) = canon ` set uids - {canon uid}"
proof (induction uids)
  case (Cons v vs)
  show ?case
  proof (cases "canon uid = canon v")
    case True
    with Cons.prems show ?thesis by (simp add: py_eq_def py_in_iff)
  next
    case False
    with Cons show ?thesis by (simp add: py_eq_def insert_Diff_if)
  qed
qed simp

lemma contains_update_iff:
  "t = ''new'' \<or> t = ''update'' \<or> t = ''out'' \<or> t = ''reset'' \<Longrightarrow> contains t ''update'' \<longleftrightarrow> t = ''update''"
  by auto

text \<open>What the code does for a message of known type from a connected gateway.\<close>

lemma gateway_message_any:
  assumes ok: "broker_ok s" and w: "dict_get (gateways s) w = Some uids"
    and m: "m = JObj kvs" "dict_get kvs ''type'' = Some (JStr t)"
      "t = ''new'' \<or> t = ''update'' \<or> t = ''out'' \<or> t = ''reset''"
    and uid: "dict_get kvs ''uid'' = Some uid"
    and dst: "t = ''new'' \<or> t = ''update'' \<longrightarrow> dict_get kvs ''dst'' = Some dst"
  shows "on_gateway_message w m s =
    (let put = (\<lambda>us. s\<lparr>gateways := dict_put (gateways s) w us\<rparr>);
         there = (\<lambda>s'. if hashable dst then written_to s' (serialize m) (targets s dst) else (Inl TypeError, s'));
         everywhere = (\<lambda>s'. written_to s' (serialize m) (map snd (clients s))) in
     if t = ''new'' then there (if py_in uid uids then s else put (uids @ [uid]))
     else if t = ''out'' then (if py_in uid uids then everywhere (put (remove_first uid uids)) else (Inr (), s))
     else if t = ''reset'' then everywhere s
     else if py_in uid uids then there s else (Inr (), s))"
proof -
  have items: "py_getitem m ''type'' = Inr (JStr t)" "py_getitem m ''uid'' = Inr uid"
    "t = ''new'' \<or> t = ''update'' \<Longrightarrow> py_getitem m ''dst'' = Inr dst"
    using m uid dst by (simp_all add: py_getitem_def)
  have pd: "pairwise_distinct uids" and h: "handler_uid s w = JNull" using broker_ok_nodes [OF ok w] .
  define put where "put us = s\<lparr>gateways := dict_put (gateways s) w us\<rparr>" for us
  have put_ok: "broker_ok (put us)" "targets (put us) dst = targets s dst" "clients (put us) = clients s"
    if "pairwise_distinct us" for us
    using broker_ok_put_nodes [OF ok that h] by (simp_all add: put_def targets_def)
  have pd_new: "pairwise_distinct (uids @ [uid])" if "\<not> py_in uid uids"
    using that pd by (simp add: pairwise_distinct_snoc)
  have pd_out: "pairwise_distinct (remove_first uid uids)" using pd by (rule pairwise_distinct_remove)
  note dl = deliver_written [OF _ items(3)]
  show ?thesis
    using m(3) put_ok pd_new pd_out ok items w dst
    by (elim disjE)
      (simp_all add: on_gateway_message_def py_run gateway_nodes_run uid_behind_run in_text_def
        set_gateway_nodes_def py_remove_def put_def [symmetric] dl broadcast_written starts_with_def Let_def)
qed

lemma gateway_message_run:
  assumes ok: "broker_ok s" and up: "clients_up s"
    and w: "dict_get (gateways s) w = Some uids"
    and m: "m = JObj kvs" "dict_get kvs ''type'' = Some (JStr t)"
      "t = ''new'' \<or> t = ''update'' \<or> t = ''out'' \<or> t = ''reset''"
    and uid: "dict_get kvs ''uid'' = Some uid"
    and dst: "dict_get kvs ''dst'' = Some dst" "hashable dst"
  shows "on_gateway_message w m s =
    (let put = (\<lambda>us. s\<lparr>gateways := dict_put (gateways s) w us\<rparr>);
         log = (\<lambda>s' ws. (Inr (), s'\<lparr>sent := sent s @ map (\<lambda>r. (r, serialize m)) ws\<rparr>)) in
     if t = ''new'' then log (if py_in uid uids then s else put (uids @ [uid])) (targets s dst)
     else if t = ''out'' then
       (if py_in uid uids then log (put (remove_first uid uids)) (map snd (clients s)) else (Inr (), s))
     else if t = ''reset'' then log s (map snd (clients s))
     else if py_in uid uids then log s (targets s dst) else (Inr (), s))"
proof -
  have "written_to s' (serialize m) ws = (Inr (), s'\<lparr>sent := sent s' @ map (\<lambda>w. (w, serialize m)) ws\<rparr>)"
    if "up s' = up s" "ws = targets s dst \<or> ws = map snd (clients s)" for s' ws
    using that up targets_subset unfolding clients_up_iff by (intro written_to_up) (auto simp del: set_map)
  then show ?thesis using gateway_message_any [OF ok w m uid, of dst] dst by (simp add: Let_def)
qed

section \<open>What a gateway's message can reach\<close>

text \<open>
  The nodes of other gateways and the registrations are as before, and everything written
  is the message, to registered clients.
\<close>

definition confined :: "ws \<Rightarrow> string \<Rightarrow> broker \<Rightarrow> broker \<Rightarrow> bool" where
  "confined w msg s t \<longleftrightarrow>
     clients t = clients s \<and> handler_uid t = handler_uid s
     \<and> (\<forall>w'. w' \<noteq> w \<longrightarrow> dict_get (gateways t) w' = dict_get (gateways s) w')
     \<and> (\<exists>xs. sent t = sent s @ xs \<and> (\<forall>p \<in> set xs. snd p = msg \<and> fst p \<in> snd ` set (clients s)))"

interpretation confined: state_preorder "confined w msg" for w msg
proof unfold_locales
  fix s t u :: broker
  show "confined w msg s s" by (simp add: confined_def)
  assume a: "confined w msg s t" and b: "confined w msg t u"
  from a obtain xs where xs: "sent t = sent s @ xs" "\<forall>p \<in> set xs. snd p = msg \<and> fst p \<in> snd ` set (clients s)"
    unfolding confined_def by blast
  from a b obtain ys where ys: "sent u = sent t @ ys" "\<forall>p \<in> set ys. snd p = msg \<and> fst p \<in> snd ` set (clients s)"
    unfolding confined_def by auto
  from xs ys have "sent u = sent s @ (xs @ ys) \<and> (\<forall>p \<in> set (xs @ ys). snd p = msg \<and> fst p \<in> snd ` set (clients s))"
    by auto
  with a b show "confined w msg s u" unfolding confined_def by fastforce
qed

lemma confined_send: "confined.upholds w msg (send_to_client uid msg)"
proof (rule confined.upholdsI)
  fix s
  show "confined w msg s (snd (send_to_client uid msg s))"
  proof (cases "key_item (clients s) uid")
    case (Inl e)
    then show ?thesis by (simp add: send_to_client_def py_run confined.refl_state)
  next
    case (Inr r)
    then have "dict_get (clients s) (canon uid) = Some r"
      by (auto simp: key_item_def or_raise_def split: if_splits option.splits)
    then have "r \<in> snd ` set (clients s)" by (force dest: map_of_SomeD)
    with Inr show ?thesis
      by (simp add: send_to_client_def py_run write_message_def confined_def)
  qed
qed

lemma confined_broadcast: "confined.upholds w msg (broadcast msg)"
  unfolding broadcast_def by (intro confined.upholds_rules confined_send)

lemma confined_deliver: "confined.upholds w (serialize m) (deliver m)"
  unfolding deliver_def by (intro confined.upholds_rules confined_send confined_broadcast)

lemma confined_set_nodes: "confined.upholds w msg (set_gateway_nodes w uids)"
  unfolding set_gateway_nodes_def
  by (rule confined.upholds_modify) (simp add: confined_def dict_get_put)

lemma confined_nodes: "confined.upholds w msg (gateway_nodes v)" "confined.upholds w msg (uid_behind v m)"
  unfolding gateway_nodes_def uid_behind_def by (intro confined.upholds_rules)+

lemma confined_gateway_message: "confined.upholds w (serialize m) (on_gateway_message w m)"
  unfolding on_gateway_message_def
  by (intro confined.upholds_rules confined_deliver confined_broadcast confined_set_nodes confined_nodes)

section \<open>Forwarding and losing peers\<close>

lemma client_message_run:
  assumes ok: "broker_ok s" and h: "handler_uid s w = JStr u"
    and m: "m = JObj kvs" "dict_get kvs ''type'' = Some (JStr t)"
  shows "on_client_message w m s =
    (if gateways_up s then Inr () else Inl WebSocketClosedError,
     s\<lparr>clients := (if t = ''new'' \<and> \<not> dict_has (clients s) (JStr u)
                   then dict_put (clients s) (JStr u) w else clients s),
       sent := sent s @ map (\<lambda>g. (g, serialize m)) (takeWhile (up s) (map fst (gateways s)))\<rparr>)"
  using m h
  by (simp add: on_client_message_def py_getitem_def py_run in_keys_def hashable_def write_each_run
      gateways_up_def split_beta)

lemma remove_gateway_run:
  assumes ok: "broker_ok s" and w: "dict_get (gateways s) w = Some uids"
  shows "remove_ws (Gateway w) s =
    (if clients_up s \<or> uids = []
     then (Inr (), s\<lparr>gateways := dict_del (gateways s) w,
              sent := sent s @ concat (map (\<lambda>u. deliveries s (out_node u)) uids)\<rparr>)
     else (Inl WebSocketClosedError, s\<lparr>sent := sent s @ deliveries s (out_node (hd uids))\<rparr>))"
proof -
  have each: "for_each us (\<lambda>u. broadcast (out_node u)) s' =
      (if clients_up s \<or> us = []
       then (Inr (), s'\<lparr>sent := sent s' @ concat (map (\<lambda>u. deliveries s (out_node u)) us)\<rparr>)
       else (Inl WebSocketClosedError, s'\<lparr>sent := sent s' @ deliveries s (out_node (hd us))\<rparr>))"
    if "\<exists>xs. s' = s\<lparr>sent := xs\<rparr>" for us s'
    using that
  proof (induction us arbitrary: s')
    case (Cons u us)
    then obtain xs where s': "s' = s\<lparr>sent := xs\<rparr>" by blast
    have ok': "broker_ok s'" using ok s' by (simp add: broker_ok_def)
    have same: "clients_up s' = clients_up s" "deliveries s' = deliveries s"
      by (simp_all add: s' clients_up_def deliveries_def fun_eq_iff)
    have "\<exists>xs. s'\<lparr>sent := ys\<rparr> = s\<lparr>sent := xs\<rparr>" for ys by (rule exI [of _ ys]) (simp add: s')
    from Cons.IH [OF this] show ?case
      using broadcast_run [OF ok', of "out_node u"] by (auto simp: py_run same)
  qed (simp add: py_run)
  have s: "\<exists>xs. s = s\<lparr>sent := xs\<rparr>" by (rule exI [of _ "sent s"]) simp
  show ?thesis
    using w each [OF s, of uids]
    by (simp add: remove_ws_def py_run dict_has_def gateway_nodes_run)
qed

section \<open>Admission\<close>

text \<open>The header that a gateway sends with its token, and the broker's answer.\<close>

lemma token_header:
  assumes "list_all token_char tok"
  shows "gateway_get dec ks (Some (join_with '','' [''token'', tok])) =
    (case verify_auth_token dec tok ks of
       Inl e \<Rightarrow> Inl e
     | Inr ok \<Rightarrow> Inr (if ok then Upgraded else Refused 401 ''Invalid token''))"
proof -
  have strip_clean: "strip t = t" if "list_all token_char t" for t
  proof -
    have "dropWhile is_space t = t" if "list_all token_char t" for t
      using that by (cases t) (auto simp: token_char_def)
    moreover have "list_all token_char (rev t)" using that by (simp add: list_all_iff)
    ultimately show ?thesis using that by (simp add: strip_def)
  qed
  have "CHR '','' \<notin> set tok" using assms by (auto simp: list_all_iff token_char_def)
  then have "split_on CHR '','' (join_with '','' [''token'', tok]) = [''token'', tok]"
    by (simp add: split_on_clean)
  moreover have "strip ''token'' = ''token''" by (rule strip_clean) (simp add: token_char_def is_space_def)
  ultimately show ?thesis
    using strip_clean [OF assms] by (simp add: gateway_get_def check_subprotocols_def split: sum.split)
qed

text \<open>Nothing that happens to the broker changes its keys.\<close>

interpretation keyed: state_preorder "\<lambda>s t. broker_keys t = broker_keys s"
  by unfold_locales auto

lemma keyed_sends:
  "keyed.upholds (write_message w msg)" "keyed.upholds (send_to_client uid msg)" "keyed.upholds (broadcast msg)"
  "keyed.upholds (deliver m)"
proof -
  show w: "keyed.upholds (write_message w msg)" for w msg by (rule keyed.upholdsI) (simp add: write_message_def)
  show s: "keyed.upholds (send_to_client uid msg)" for uid msg
    unfolding send_to_client_def by (intro keyed.upholds_rules w)
  show b: "keyed.upholds (broadcast msg)" for msg unfolding broadcast_def by (intro keyed.upholds_rules s)
  show "keyed.upholds (deliver m)" unfolding deliver_def by (intro keyed.upholds_rules s b)
qed

lemma broker_keys_fixed: "broker_keys (snd (broker_handle fl e s)) = broker_keys s"
proof -
  have quiet: "keyed.upholds (modify f)" if "\<And>s. broker_keys (f s) = broker_keys s" for f
    using that by (rule keyed.upholds_modify)
  have n: "keyed.upholds (gateway_nodes w)" "keyed.upholds (uid_behind w m)" "keyed.upholds (set_gateway_nodes w us)" for w m us
    unfolding gateway_nodes_def uid_behind_def set_gateway_nodes_def by (intro keyed.upholds_rules quiet; simp)+
  have g: "keyed.upholds (on_gateway_message w m)" for w m
    unfolding on_gateway_message_def by (intro keyed.upholds_rules n keyed_sends)
  have c: "keyed.upholds (on_client_message w m)" for w m
    unfolding on_client_message_def by (intro keyed.upholds_rules keyed_sends quiet; simp)
  have r: "keyed.upholds (remove_ws p)" for p
    unfolding remove_ws_def by (cases p) (auto intro!: keyed.upholds_rules n keyed_sends)
  have "keyed.upholds (broker_handle fl e)"
    by (cases e)
      (auto simp: set_up_def gateway_open_def gateway_on_message_def gateway_on_close_def client_open_def
        client_on_message_def client_on_close_def close_ws_def
        intro!: keyed.upholds_rules g c r split: option.split prod.split)
  then show ?thesis by (rule keyed.upholdsD)
qed

end
