(* ===== verification/Broker_Properties.thy ===== *)
theory Broker_Properties
  imports Broker_Routing
begin

text \<open>
  The properties of the broker, over the definitions of \<open>Broker\<close>, with a witness for each
  that has a hypothesis.  The witnesses run on \<open>demo_broker\<close>: two clients, of which one is
  registered, and two gateways, the first with one node.
\<close>

section \<open>A concrete state\<close>

definition demo_broker :: broker where
  "demo_broker = \<lparr>broker_keys = \<lparr>private_key = ''k'', secret_key = ''s''\<rparr>,
     gateways = [(1, [JStr ''n1'']), (2, [])],
     clients = [(JStr ''c3'', 3)],
     handler_uid = (\<lambda>_. JNull)(3 := JStr ''c3'', 4 := JStr ''c4''),
     up = (\<lambda>_. True), sent = [], closed = []\<rparr>"

lemma demo_broker_fields [simp]:
  "gateways demo_broker = [(1, [JStr ''n1'']), (2, [])]"
  "clients demo_broker = [(JStr ''c3'', 3)]"
  "handler_uid demo_broker = (\<lambda>_. JNull)(3 := JStr ''c3'', 4 := JStr ''c4'')"
  "up demo_broker = (\<lambda>_. True)" "sent demo_broker = []" "closed demo_broker = []"
  by (simp_all add: demo_broker_def)

lemma demo_broker_ok: "broker_ok demo_broker" "clients_up demo_broker" "gateways_up demo_broker"
  by (auto simp: broker_ok_def clients_up_def gateways_up_def)

definition demo_keys :: keys where
  "demo_keys = \<lparr>private_key = ''k'', secret_key = ''s''\<rparr>"

definition demo_run :: "broker_event list" where
  "demo_run = [ClientOpen 3 ''c3'', GatewayOpen 1, ConnectionLost 3]"

section \<open>Consistency of the tables\<close>

text \<open>
  C10: Whatever the peers send and in whatever order connections come and go, the tables of
  the broker stay consistent: no gateway is listed twice, no node twice behind a gateway,
  every registered client is listed under the uid of its own handler, and no two handlers
  share a uid.  Handlers that raise half-way keep it too.
\<close>

theorem broker_tables_consistent:
  assumes "reachable (broker_handle fl) broker_enabled (broker_init ks) s"
  shows "broker_ok s"
  using assms by (rule broker_service.reachable_good)

theorem broker_tables_consistent_witness:
  "reachable (broker_handle id) broker_enabled (broker_init demo_keys)
     (run_events (broker_handle id) (broker_init demo_keys) demo_run)
   \<and> broker_ok (run_events (broker_handle id) (broker_init demo_keys) demo_run)"
proof -
  have "reachable (broker_handle id) broker_enabled (broker_init demo_keys)
     (run_events (broker_handle id) (broker_init demo_keys) demo_run)"
    by (rule reachable_run [OF reach_start])
      (simp add: demo_run_def broker_init_def uuid_used_def py_run set_up_def client_open_def gateway_open_def)
  with broker_tables_consistent [OF this] show ?thesis by blast
qed

section \<open>Messages of gateways\<close>

text \<open>
  C9: A message of one of the known types from a connected gateway, with a uid and, if it is a \<open>new\<close> or an \<open>update\<close>
  message, with a destination, is treated as the abstract specification \<open>route\<close> says.  The nodes behind the
  sender change as for a set of uids, also when the handler then raises.  The message is written
  to the connections \<open>route\<close> names (all registered clients, one of them, or none), each once, in the
  order in which the clients registered, and to no other connection: to all of them if all accept
  writes, otherwise to those before the first closed one, at which the handler raises
  \<open>WebSocketClosedError\<close>.  A destination that cannot be a key is the only other error: it raises
  \<open>TypeError\<close>, and nobody is written to.  The substring test on the type is never mistaken.
\<close>

theorem gateway_message_refines:
  assumes "broker_ok s" and "dict_get (gateways s) w = Some uids"
    and "m = JObj kvs" and "dict_get kvs ''type'' = Some (JStr t)"
    and "t \<in> {''new'', ''update'', ''out'', ''reset''}"
    and "dict_get kvs ''uid'' = Some uid"
    and "t \<in> {''new'', ''update''} \<longrightarrow> dict_get kvs ''dst'' = Some dst"
  shows "let (d, R) = route (abs_broker s) w t uid dst; ws = filter (\<lambda>r. r \<in> R) (map snd (clients s));
             refused = (t = ''new'' \<or> t = ''update'' \<and> py_in uid uids) \<and> \<not> hashable dst in
    \<exists>s'. on_gateway_message w m s =
        (if refused then Inl TypeError else if \<forall>r \<in> set ws. up s r then Inr () else Inl WebSocketClosedError, s')
      \<and> abs_broker s' = d \<and> set ws = R \<and> distinct ws
      \<and> sent s' = sent s @ map (\<lambda>r. (r, serialize m)) (takeWhile (up s) ws)"
proof -
  have t: "t = ''new'' \<or> t = ''update'' \<or> t = ''out'' \<or> t = ''reset''" using assms(5) by blast
  have pd: "pairwise_distinct uids" using broker_ok_nodes [OF assms(1,2)] by simp
  define d where "d = abs_broker s"
  have d: "nodes_of d w = Some (canon ` set uids)" "recipients d dst = set (targets s dst)"
      "ran (audience d) = set (map snd (clients s))"
    using assms(2) set_targets [OF assms(1), of dst] ran_clients [OF assms(1)] by (simp_all add: d_def abs_broker_def)
  have same: "d\<lparr>nodes_of := (nodes_of d)(w \<mapsto> canon ` set uids)\<rparr> = d" using d(1) by (simp add: fun_upd_idem)
  have put: "abs_broker (s\<lparr>gateways := dict_put (gateways s) w us, sent := xs\<rparr>) = d\<lparr>nodes_of := (nodes_of d)(w \<mapsto> canon ` set us)\<rparr>"
      "abs_broker (s\<lparr>gateways := dict_put (gateways s) w us\<rparr>) = d\<lparr>nodes_of := (nodes_of d)(w \<mapsto> canon ` set us)\<rparr>"
      "abs_broker (s\<lparr>sent := xs\<rparr>) = d" for us xs
    by (simp_all add: d_def abs_broker_def dict_get_put fun_eq_iff)
  note some = filter_targets [OF assms(1)] distinct_targets [OF assms(1)] clients_distinct [OF assms(1)]
  have all: "filter (\<lambda>r. r \<in> set ws) ws = ws" for ws :: "ws list" by (simp add: filter_id_conv)
  have none: "targets s dst = []" if "\<not> hashable dst" using that by (auto simp: targets_def hashable_def)
  have "t = ''new'' \<or> t = ''update'' \<longrightarrow> dict_get kvs ''dst'' = Some dst" using assms(7) by simp
  note run = gateway_message_any [OF assms(1-4) t assms(6) this]
  show ?thesis
    using t
    by (elim disjE; cases "py_in uid uids"; cases "hashable dst";
      simp add: run Let_def d_def [symmetric] d same put some all py_in_iff canon_remove_first [OF pd] insert_absorb written_to_def none
        del: set_map set_filter)
qed

theorem gateway_message_refines_witness:
  "let b = demo_broker\<lparr>clients := [(JStr ''c3'', 3), (JStr ''c4'', 4)], up := (\<lambda>w. w \<noteq> 4)\<rparr>;
       m = JObj [(''type'', JStr ''update''), (''uid'', JStr ''n1''), (''dst'', dst_all)] in
   fst (on_gateway_message 1 m b) = Inl WebSocketClosedError \<and> sent (snd (on_gateway_message 1 m b)) = [(3, serialize m)]"
proof -
  let ?b = "demo_broker\<lparr>clients := [(JStr ''c3'', 3), (JStr ''c4'', 4)], up := (\<lambda>w. w \<noteq> 4)\<rparr>"
  let ?m = "JObj [(''type'', JStr ''update''), (''uid'', JStr ''n1''), (''dst'', dst_all)]"
  have "broker_ok (demo_broker\<lparr>clients := dict_put (clients demo_broker) (JStr ''c4'') 4\<rparr>)"
    by (rule broker_ok_register [OF demo_broker_ok(1)]) simp_all
  then have ok: "broker_ok ?b" by (rule same_tables_ok [rotated]) (simp add: same_tables_def)
  have "ran (dict_get (clients ?b)) = {3, 4}" using ran_clients [OF ok] by simp
  then have "audience (abs_broker ?b) = dict_get (clients ?b)" "ran (audience (abs_broker ?b)) = {3, 4}"
      "nodes_of (abs_broker ?b) 1 = Some {JStr ''n1''}"
    by (simp_all add: abs_broker_def)
  then have r: "route (abs_broker ?b) 1 ''update'' (JStr ''n1'') dst_all = (abs_broker ?b, {3, 4})"
    by (simp add: recipients_def)
  have "hashable dst_all" "filter (\<lambda>v. v \<in> {3, 4}) (map snd (clients ?b)) = [3, 4]" "takeWhile (up ?b) [3, 4] = [3]"
    by (simp_all add: hashable_def)
  with gateway_message_refines [OF ok, of 1 "[JStr ''n1'']" ?m
        "[(''type'', JStr ''update''), (''uid'', JStr ''n1''), (''dst'', dst_all)]" "''update''" "JStr ''n1''" dst_all]
  obtain s' where "on_gateway_message 1 ?m ?b = (Inl WebSocketClosedError, s')" "sent s' = [(3, serialize ?m)]"
    unfolding r by (auto simp: Let_def)
  then show ?thesis by (simp add: Let_def)
qed

text \<open>
  C13: Whatever value a gateway sends, valid or not, and however the handler ends, no other
  gateway's nodes and no client registration change, and everything written is the
  unchanged message, to registered clients only.
\<close>

theorem gateway_message_confined:
  assumes "on_gateway_message w m s = (r, t)"
  shows "clients t = clients s \<and> handler_uid t = handler_uid s
    \<and> (\<forall>w'. w' \<noteq> w \<longrightarrow> dict_get (gateways t) w' = dict_get (gateways s) w')
    \<and> (\<exists>xs. sent t = sent s @ xs \<and> (\<forall>p \<in> set xs. snd p = serialize m \<and> fst p \<in> snd ` set (clients s)))"
  using confined.upholds_run [OF confined_gateway_message assms] by (simp add: confined_def)

theorem gateway_message_confined_witness:
  "clients (snd (on_gateway_message 2 (JObj [(''type'', JStr ''out''), (''uid'', JStr ''n1'')]) demo_broker)) =
     clients demo_broker"
proof -
  obtain r t where rt: "on_gateway_message 2 (JObj [(''type'', JStr ''out''), (''uid'', JStr ''n1'')]) demo_broker = (r, t)"
    by fastforce
  from gateway_message_confined [OF rt] rt show ?thesis by simp
qed

text \<open>
  A gateway cannot speak for a node it has not announced: an out or update message whose
  uid is not behind the sender has no effect at all.
\<close>

theorem foreign_node_ignored:
  assumes "dict_get (gateways s) w = Some uids" and "m = JObj kvs"
    and "dict_get kvs ''type'' = Some (JStr t)" and "t = ''out'' \<or> t = ''update''"
    and "dict_get kvs ''uid'' = Some uid" and "\<not> py_in uid uids"
  shows "on_gateway_message w m s = (Inr (), s)"
  using assms
  by (auto simp: on_gateway_message_def py_getitem_def py_run uid_behind_run in_text_def)

theorem foreign_node_ignored_witness:
  "on_gateway_message 2 (JObj [(''type'', JStr ''out''), (''uid'', JStr ''n1'')]) demo_broker = (Inr (), demo_broker)"
  by (rule foreign_node_ignored [of demo_broker 2 "[]" _
        "[(''type'', JStr ''out''), (''uid'', JStr ''n1'')]" "''out''" "JStr ''n1''"]) simp_all

text \<open>
  A \<open>new\<close> message without a destination raises \<open>KeyError\<close> after the node has been
  recorded: the broker lists the node, and nobody is told of it.
\<close>

theorem new_without_destination:
  assumes "dict_get (gateways s) w = Some uids"
    and "dict_get kvs ''type'' = Some (JStr ''new'')" and "dict_get kvs ''uid'' = Some uid"
    and "\<not> py_in uid uids" and "dict_get kvs ''dst'' = None"
  shows "on_gateway_message w (JObj kvs) s =
    (Inl KeyError, s\<lparr>gateways := dict_put (gateways s) w (uids @ [uid])\<rparr>)"
  using assms
  by (simp add: on_gateway_message_def py_getitem_def py_run gateway_nodes_run set_gateway_nodes_def
      deliver_def)

theorem new_without_destination_witness:
  "on_gateway_message 2 (JObj [(''type'', JStr ''new''), (''uid'', JStr ''n2'')]) demo_broker =
     (Inl KeyError, demo_broker\<lparr>gateways := [(1, [JStr ''n1'']), (2, [JStr ''n2''])]\<rparr>)"
  using new_without_destination [of demo_broker 2 "[]" "[(''type'', JStr ''new''), (''uid'', JStr ''n2'')]" "JStr ''n2''"]
  by simp

section \<open>Messages of clients\<close>

text \<open>
  A valid message of a client is stamped with the uid of its own handler, whatever
  \<open>src\<close> it carried, and goes once to every gateway in the order in which they connected,
  up to the first whose connection is closed, which raises; a \<open>new\<close> message registers the
  client, if it is not registered, before anything is sent.  No client hears of it.
\<close>

theorem client_message_forwarded:
  assumes "broker_ok s" and "handler_uid s c = JStr u"
    and "loads fl txt_in = Inr (JObj kvs)" and "dict_get kvs ''type'' = Some (JStr t)"
    and "t \<in> {''new'', ''update'', ''out'', ''reset''}"
  shows "\<exists>stamped.
     client_on_message fl c (Text txt_in) s =
       (if gateways_up s then Inr () else Inl WebSocketClosedError,
        s\<lparr>clients := (if t = ''new'' \<and> \<not> dict_has (clients s) (JStr u)
                      then clients s @ [(JStr u, c)] else clients s),
          sent := sent s @ map (\<lambda>g. (g, serialize (JObj stamped))) (takeWhile (up s) (map fst (gateways s)))\<rparr>)
     \<and> dict_get stamped ''src'' = Some (JStr u)
     \<and> (\<forall>k. k \<noteq> ''src'' \<longrightarrow> dict_get stamped k = dict_get kvs k)"
proof (intro exI conjI)
  let ?m = "dict_put kvs ''src'' (JStr u)"
  have valid: "valid_message (JObj kvs)"
    using assms(4,5) by (auto simp: valid_message_def message_types_def)
  have type: "dict_get ?m ''type'' = Some (JStr t)"
    using assms(4) by (simp add: dict_get_put)
  have reg: "dict_put (clients s) (JStr u) c = clients s @ [(JStr u, c)]" if "\<not> dict_has (clients s) (JStr u)"
    using that by (simp add: dict_has_def dict_put_new)
  show "client_on_message fl c (Text txt_in) s =
       (if gateways_up s then Inr () else Inl WebSocketClosedError,
        s\<lparr>clients := (if t = ''new'' \<and> \<not> dict_has (clients s) (JStr u)
                      then clients s @ [(JStr u, c)] else clients s),
          sent := sent s @ map (\<lambda>g. (g, serialize (JObj ?m))) (takeWhile (up s) (map fst (gateways s)))\<rparr>)"
    using client_message_run [OF assms(1,2) refl type] reg
    by (simp add: client_on_message_def check_message_valid [OF assms(3) valid] py_run assms(2) py_update_def)
  show "dict_get ?m ''src'' = Some (JStr u)" by (simp add: dict_get_put)
  show "\<forall>k. k \<noteq> ''src'' \<longrightarrow> dict_get ?m k = dict_get kvs k" by (simp add: dict_get_put)
qed

theorem client_message_forwarded_witness:
  "\<exists>stamped.
     client_on_message id 4 (Text (dumps (JObj [(''type'', JStr ''new''), (''src'', JStr ''c3'')]))) demo_broker =
       (Inr (), demo_broker\<lparr>clients := [(JStr ''c3'', 3), (JStr ''c4'', 4)],
          sent := [(1, serialize (JObj stamped)), (2, serialize (JObj stamped))]\<rparr>)
     \<and> dict_get stamped ''src'' = Some (JStr ''c4'')"
proof -
  have "loads id (dumps (JObj [(''type'', JStr ''new''), (''src'', JStr ''c3'')])) =
      Inr (JObj [(''type'', JStr ''new''), (''src'', JStr ''c3'')])"
    by (rule loads_dumps) simp
  from client_message_forwarded [OF demo_broker_ok(1) _ this, of 4 "''c4''" "''new''"] demo_broker_ok(3)
  show ?thesis by auto
qed

text \<open>
  A text that \<open>check_message\<close> refuses closes the connection it came on with code 1003,
  for clients and gateways alike, and changes nothing else: nothing is sent and no table
  changes.
\<close>

theorem refused_text_closes:
  assumes "check_message fl raw = Inr (None, r)"
  shows "client_on_message fl w raw s =
      (Inr (), s\<lparr>closed := closed s @ [(w, 1003, r)], up := (up s)(w := False)\<rparr>)
    \<and> gateway_on_message fl w raw s =
      (Inr (), s\<lparr>closed := closed s @ [(w, 1003, r)], up := (up s)(w := False)\<rparr>)"
  using assms by (simp add: client_on_message_def gateway_on_message_def close_ws_def py_run)

theorem refused_text_closes_witness:
  "closed (snd (client_on_message id 3 NotText demo_broker)) = [(3, 1003, Some (InvalidRaw NotText))]"
proof -
  have "check_message id NotText = Inr (None, Some (InvalidRaw NotText))"
    by (simp add: check_message_def parse_raw_def)
  from refused_text_closes [OF this, of 3 demo_broker] show ?thesis by simp
qed

text \<open>
  The answer finds the client that asked: after a client has sent \<open>new\<close> to a broker
  whose gateways are connected, a gateway's \<open>new\<close> message with that client's uid as its
  destination is written to that client's connection and to no other.
\<close>

theorem reply_reaches_asking_client:
  assumes "broker_ok s" and "handler_uid s c = JStr u" and "u \<noteq> ''all''" and "gateways_up s"
    and "clients_up s" and "up s c" and "dict_get (clients s) (JStr u) \<in> {None, Some c}"
    and "loads fl txt_in = Inr (JObj kvs)" and "dict_get kvs ''type'' = Some (JStr ''new'')"
    and "client_on_message fl c (Text txt_in) s = (res, s1)"
    and "dict_get (gateways s) g = Some uids"
    and "m = JObj [(''type'', JStr ''new''), (''uid'', uid), (''dst'', JStr u)]"
  shows "res = Inr () \<and> (\<exists>s2. on_gateway_message g m s1 = (Inr (), s2) \<and> sent s2 = sent s1 @ [(c, serialize m)])"
proof -
  let ?k = "dict_put kvs ''src'' (JStr u)"
  have valid: "valid_message (JObj kvs)"
    using assms(9) by (auto simp: valid_message_def message_types_def)
  have type: "dict_get ?k ''type'' = Some (JStr ''new'')"
    using assms(9) by (simp add: dict_get_put)
  define cs where "cs = (if dict_has (clients s) (JStr u) then clients s else dict_put (clients s) (JStr u) c)"
  have run: "(res, s1) = (Inr (), s\<lparr>clients := cs,
      sent := sent s @ map (\<lambda>g. (g, serialize (JObj ?k))) (takeWhile (up s) (map fst (gateways s)))\<rparr>)"
    using client_message_run [OF assms(1,2) refl type] assms(4)
    by (simp add: assms(10) [symmetric] client_on_message_def check_message_valid [OF assms(8) valid]
        py_run assms(2) py_update_def cs_def)
  have get: "dict_get cs (JStr u) = Some c"
    using assms(7) by (auto simp: cs_def dict_has_def dict_get_put)
  have "\<forall>(v, w) \<in> set cs. up s w"
    using assms(5,6) by (auto simp: cs_def clients_up_def dest!: dict_putD split: if_splits)
  then have up1: "clients_up s1" using run by (simp add: clients_up_def)
  have "broker_ok (s\<lparr>clients := cs\<rparr>)"
    using broker_ok_register [OF assms(1,2)] assms(1) by (simp add: cs_def)
  then have ok1: "broker_ok s1" using run by (simp add: broker_ok_def)
  have g1: "dict_get (gateways s1) g = Some uids" using run assms(11) by simp
  have "targets s1 (JStr u) = [c]"
    using run get assms(3) by (simp add: targets_def hashable_def)
  then show ?thesis
    using gateway_message_run [OF ok1 up1 g1 assms(12), of "''new''" uid "JStr u"] run
    by (simp add: hashable_def Let_def)
qed

theorem reply_reaches_asking_client_witness:
  "\<exists>s1 s2. client_on_message id 4 (Text (dumps (JObj [(''type'', JStr ''new'')]))) demo_broker = (Inr (), s1)
     \<and> on_gateway_message 1 (JObj [(''type'', JStr ''new''), (''uid'', JStr ''n1''), (''dst'', JStr ''c4'')]) s1 = (Inr (), s2)
     \<and> sent s2 = sent s1 @ [(4, serialize (JObj [(''type'', JStr ''new''), (''uid'', JStr ''n1''), (''dst'', JStr ''c4'')]))]"
proof -
  have l: "loads id (dumps (JObj [(''type'', JStr ''new'')])) = Inr (JObj [(''type'', JStr ''new'')])"
    by (rule loads_dumps) simp
  obtain res s1 where r: "client_on_message id 4 (Text (dumps (JObj [(''type'', JStr ''new'')]))) demo_broker = (res, s1)"
    by fastforce
  have "res = Inr () \<and> (\<exists>s2. on_gateway_message 1
      (JObj [(''type'', JStr ''new''), (''uid'', JStr ''n1''), (''dst'', JStr ''c4'')]) s1 = (Inr (), s2)
     \<and> sent s2 = sent s1 @ [(4, serialize (JObj [(''type'', JStr ''new''), (''uid'', JStr ''n1''), (''dst'', JStr ''c4'')]))])"
    by (rule reply_reaches_asking_client [OF demo_broker_ok(1) _ _ demo_broker_ok(3,2) _ _ l _ r]) simp_all
  with r show ?thesis by auto
qed

section \<open>Peers that leave\<close>

text \<open>
  When a gateway's connection closes, every registered client is told that each node
  behind it is out, in order, and the gateway is forgotten, provided the connections of
  the clients accept writes; otherwise the handler raises at the first closed one and the
  gateway stays listed with all its nodes.
\<close>

theorem gateway_close_run:
  assumes "broker_ok s" and "dict_get (gateways s) w = Some uids"
  shows "gateway_on_close w s =
    (if clients_up s \<or> uids = []
     then (Inr (), s\<lparr>gateways := dict_del (gateways s) w,
              sent := sent s @ concat (map (\<lambda>u. deliveries s (out_node u)) uids)\<rparr>)
     else (Inl WebSocketClosedError, s\<lparr>sent := sent s @ deliveries s (out_node (hd uids))\<rparr>))"
  unfolding gateway_on_close_def using assms by (rule remove_gateway_run)

theorem gateway_close_run_witness:
  "gateway_on_close 1 demo_broker =
     (Inr (), demo_broker\<lparr>gateways := [(2, [])], sent := [(3, out_node (JStr ''n1''))]\<rparr>)
   \<and> gateway_on_close 1 (demo_broker\<lparr>up := (\<lambda>w. w \<noteq> 3)\<rparr>) =
     (Inl WebSocketClosedError, demo_broker\<lparr>up := (\<lambda>w. w \<noteq> 3)\<rparr>)"
proof -
  have ok: "broker_ok (demo_broker\<lparr>up := (\<lambda>w. w \<noteq> 3)\<rparr>)" by (auto simp: broker_ok_def)
  show ?thesis
    using gateway_close_run [OF demo_broker_ok(1), of 1 "[JStr ''n1'']"]
      gateway_close_run [OF ok, of 1 "[JStr ''n1'']"] demo_broker_ok(2)
    by (simp add: deliveries_def clients_up_def)
qed

text \<open>
  When a client's connection closes, exactly its own registration is dropped and nothing
  is sent.
\<close>

theorem client_close_run:
  assumes "broker_ok s" and "handler_uid s c = JStr u"
  shows "\<exists>t. client_on_close c s = (Inr (), t) \<and> sent t = sent s \<and> gateways t = gateways s
    \<and> dict_get (clients t) = (dict_get (clients s))(JStr u := None)"
proof -
  have ok: "dict_ok (clients s)" using assms(1) by (simp add: broker_ok_def)
  show ?thesis
    using assms(2) dict.get_del [OF ok, of "JStr u"]
    by (auto simp: client_on_close_def remove_ws_def py_run in_keys_def hashable_def dict_has_def fun_eq_iff)
qed

theorem client_close_run_witness:
  "\<exists>t. client_on_close 3 demo_broker = (Inr (), t) \<and> dict_get (clients t) (JStr ''c3'') = None"
  using client_close_run [OF demo_broker_ok(1), of 3 "''c3''"] by auto

section \<open>Admission of gateways\<close>

text \<open>
  A connection on the gateway endpoint is upgraded only if the header holds exactly two
  subprotocols, the first named token and the second a token that decrypts, under the
  broker's private key, to the broker's secret.
\<close>

theorem upgrade_needs_token:
  "gateway_get dec ks header = Inr Upgraded \<longleftrightarrow>
     (\<exists>h a b. header = Some h \<and> h = a @ CHR '','' # b \<and> CHR '','' \<notin> set a \<and> CHR '','' \<notin> set b
        \<and> strip a = ''token'' \<and> dec (private_key ks) (strip b) = Inr (secret_key ks))"
  (is "?L \<longleftrightarrow> ?R")
proof
  assume L: ?L
  then obtain h where h: "header = Some h"
    by (cases header) (auto simp: gateway_get_def check_subprotocols_def)
  define ps where "ps = split_on CHR '','' h"
  have "length ps = 2"
    using L h by (auto simp: gateway_get_def check_subprotocols_def ps_def split: if_splits)
  then obtain a b where ab: "ps = [a, b]" by (auto simp: numeral_2_eq_2 length_Suc_conv)
  have "h = a @ CHR '','' # b" using join_split_on [of "CHR '',''" h] ab ps_def by simp
  moreover have "CHR '','' \<notin> set a" "CHR '','' \<notin> set b"
    using split_on_no_sep [of _ "CHR '',''" h] ab ps_def by auto
  moreover have "strip a = ''token''" "dec (private_key ks) (strip b) = Inr (secret_key ks)"
    using L h ab by (auto simp: gateway_get_def check_subprotocols_def ps_def [symmetric]
        verify_auth_token_def split: if_splits sum.splits)
  ultimately show ?R using h by blast
next
  assume ?R
  then obtain h a b where h: "header = Some h" "h = a @ CHR '','' # b" "CHR '','' \<notin> set a" "CHR '','' \<notin> set b"
    "strip a = ''token''" "dec (private_key ks) (strip b) = Inr (secret_key ks)" by blast
  then have "split_on CHR '','' h = [a, b]" by (simp add: split_on_append split_on_clean)
  with h show ?L by (simp add: gateway_get_def check_subprotocols_def verify_auth_token_def)
qed

text \<open>
  A gateway that holds the broker's keys is admitted: the header made of the word token
  and the token \<open>auth_token\<close> produces passes the check.
\<close>

theorem own_gateway_admitted:
  assumes "fernet_ok enc dec" and "auth_token enc ks = Inr tok"
  shows "gateway_get dec ks (Some (join_with '','' [''token'', tok])) = Inr Upgraded"
  using auth_token_verified [OF assms] token_header [of tok dec ks] by simp

theorem own_gateway_admitted_witness:
  "\<exists>tok. auth_token toy_enc \<lparr>private_key = ''k'', secret_key = ''s''\<rparr> = Inr tok \<and>
     gateway_get toy_dec \<lparr>private_key = ''k'', secret_key = ''s''\<rparr> (Some (join_with '','' [''token'', tok])) = Inr Upgraded"
proof -
  obtain tok where t: "auth_token toy_enc \<lparr>private_key = ''k'', secret_key = ''s''\<rparr> = Inr tok"
    by (simp add: auth_token_def toy_enc_def token_char_def is_space_def)
  from own_gateway_admitted [OF fernet_ok_toy t] t show ?thesis by blast
qed

text \<open>
  A token that Fernet rejects is not answered with the 401 the handler has for it: the
  exception leaves \<open>get\<close>, because \<open>verify_auth_token\<close> never returns \<open>False\<close> for it.
\<close>

theorem bad_token_raises:
  assumes "CHR '','' \<notin> set tok" and "dec (private_key ks) (strip tok) = Inl e"
  shows "gateway_get dec ks (Some (''token,'' @ tok)) = Inl e"
proof -
  have "split_on CHR '','' (''token,'' @ tok) = [''token'', tok]"
    using assms(1) by (simp add: split_on_clean)
  moreover have "strip ''token'' = ''token''" by (simp add: strip_def is_space_def)
  ultimately show ?thesis
    using assms(2) by (simp add: gateway_get_def check_subprotocols_def verify_auth_token_def)
qed

theorem bad_token_raises_witness:
  "gateway_get toy_dec \<lparr>private_key = ''k'', secret_key = ''s''\<rparr> (Some (''token,'' @ ''zzz'')) = Inl InvalidToken"
  by (rule bad_token_raises) (simp_all add: toy_dec_def strip_def is_space_def)

end
