(* ===== verification/Gateway_Node.thy ===== *)
theory Gateway_Node
  imports Messaging
begin

text \<open>
  \<open>pyaiot/gateway/common/node.py\<close>: the cached state of one node.

  The time is a whole number of ticks of \<open>2^-22\<close> seconds, the spacing of the floats
  \<open>time.time()\<close> returns between 2004 and 2038, so that adding whole seconds is exact.
  The keys of \<open>resources\<close> are JSON values, since a client's update can name any endpoint;
  as in Python the first of several equal keys is the one that stays.  Two nodes are
  compared by their uid only (\<open>node_eq\<close>, \<open>node_gt\<close>), which is not HOL's equality of records.
\<close>

type_synonym resource_dict = "(json, json) dict"

record node =
  uid :: string
  last_seen :: int
  resources :: resource_dict

definition ticks_per_second :: int where
  "ticks_per_second = 4194304"

definition node_init :: "int \<Rightarrow> string \<Rightarrow> resource_dict \<Rightarrow> node" where
  "node_init now u default_resources = \<lparr>uid = u, last_seen = now, resources = default_resources\<rparr>"

definition node_eq :: "node \<Rightarrow> node \<Rightarrow> bool" where
  "node_eq a b \<longleftrightarrow> uid a = uid b"

definition node_gt :: "node \<Rightarrow> node \<Rightarrow> bool" where
  "node_gt a b \<longleftrightarrow> uid a > uid b"

definition node_repr :: "node \<Rightarrow> string" where
  "node_repr a = ''Node <'' @ uid a @ ''>''"

definition update_last_seen :: "int \<Rightarrow> node \<Rightarrow> node" where
  "update_last_seen now a = a\<lparr>last_seen := now\<rparr>"

text \<open>The key under which a dictionary already holds an equal key, or the key itself.\<close>

definition held_key :: "(json, 'v) dict \<Rightarrow> json \<Rightarrow> json" where
  "held_key d k = (case find (\<lambda>(x, _). py_eq x k) d of Some (x, _) \<Rightarrow> x | None \<Rightarrow> k)"

definition set_resource_value :: "json \<Rightarrow> json \<Rightarrow> node \<Rightarrow> exn + node" where
  "set_resource_value resource v a =
     (if \<not> hashable resource then Inl TypeError
      else Inr (a\<lparr>resources := dict_put (resources a) (held_key (resources a) resource) v\<rparr>))"

definition clear_resources :: "node \<Rightarrow> node" where
  "clear_resources a = a\<lparr>resources := []\<rparr>"

text \<open>\<open>node.resources['name']\<close>\<close>

definition resource_value :: "node \<Rightarrow> string \<Rightarrow> exn + json" where
  "resource_value a name = or_raise KeyError (dict_get (resources a) (JStr name))"

section \<open>The order of nodes\<close>

text \<open>Sorting nodes sorts their uids: the comparison operators are a preorder.\<close>

instantiation node_ext :: (type) preorder
begin

definition less_eq_node_ext :: "'a node_scheme \<Rightarrow> 'a node_scheme \<Rightarrow> bool" where
  "less_eq_node_ext a b \<longleftrightarrow> uid a \<le> uid b"

definition less_node_ext :: "'a node_scheme \<Rightarrow> 'a node_scheme \<Rightarrow> bool" where
  "less_node_ext a b \<longleftrightarrow> uid a < uid b"

instance
  by standard (auto simp: less_eq_node_ext_def less_node_ext_def less_le_not_le)

end

lemma node_gt_less: "node_gt a b \<longleftrightarrow> b < a"
  by (simp add: node_gt_def less_node_ext_def)

lemma node_eq_trichotomy: "node_gt a b \<or> node_eq a b \<or> node_gt b a"
  by (auto simp: node_gt_def node_eq_def)

section \<open>Well-formed resources\<close>

text \<open>
  No two keys of the dictionary are equal for Python, all can be hashed, and every key and
  value can be written as JSON.
\<close>

definition resources_ok :: "(string \<Rightarrow> string) \<Rightarrow> resource_dict \<Rightarrow> bool" where
  "resources_ok fl d \<longleftrightarrow> distinct (map (canon \<circ> fst) d)
     \<and> (\<forall>(k, v) \<in> set d. hashable k \<and> json_ok fl k \<and> json_ok fl v)"

lemma resources_okD:
  assumes "resources_ok fl d"
  shows "dict_ok d" and "(k, v) \<in> set d \<Longrightarrow> hashable k \<and> json_ok fl k \<and> json_ok fl v"
  using assms by (auto simp: resources_ok_def dict_ok_def distinct_map comp_inj_on_iff inj_on_def)

lemma resources_ok_simps [simp]:
  "resources_ok fl []"
  "resources_ok fl ((k, v) # d) \<longleftrightarrow> canon k \<notin> (canon \<circ> fst) ` set d \<and> hashable k
     \<and> json_ok fl k \<and> json_ok fl v \<and> resources_ok fl d"
  by (auto simp: resources_ok_def)

lemma canon_held_key: "canon (held_key d k) = canon k"
  by (auto simp: held_key_def py_eq_def find_Some_iff split: option.splits)

lemma held_key_Cons:
  "held_key ((x, v) # d) k = (if py_eq x k then x else held_key d k)"
  by (simp add: held_key_def)

lemma held_key_cases: "held_key d k = k \<or> held_key d k \<in> fst ` set d"
  by (induction d) (force simp: held_key_def)+

lemma canon_keys_put:
  "(canon \<circ> fst) ` set (dict_put d (held_key d k) v) = insert (canon k) ((canon \<circ> fst) ` set d)"
proof -
  have "(canon \<circ> fst) ` set (dict_put d x v) = canon ` fst ` set (dict_put d x v)" for x
    by (simp add: image_comp)
  then have "(canon \<circ> fst) ` set (dict_put d (held_key d k) v)
      = insert (canon (held_key d k)) (canon ` fst ` set d)"
    by (simp add: fst_dict_put)
  then show ?thesis by (simp add: canon_held_key image_comp)
qed

lemma dict_put_held_Cons:
  "dict_put ((x, w) # d) (held_key ((x, w) # d) k) v =
     (if py_eq x k then (x, v) # d
      else if x = held_key d k then (x, v) # d else (x, w) # dict_put d (held_key d k) v)"
  by (simp add: held_key_Cons)

lemma resources_ok_put:
  assumes "resources_ok fl d" and "hashable k" and "json_ok fl k" and "json_ok fl v"
  shows "resources_ok fl (dict_put d (held_key d k) v)"
  using assms(1)
proof (induction d)
  case Nil
  then show ?case using assms by (simp add: held_key_def)
next
  case (Cons p d)
  obtain x w where p: "p = (x, w)" by fastforce
  show ?case
  proof (cases "py_eq x k")
    case True
    then show ?thesis using Cons.prems p assms(4) by (simp add: held_key_Cons)
  next
    case False
    then have "x \<noteq> held_key d k" using canon_held_key [of d k] by (auto simp: py_eq_def)
    moreover have "canon x \<noteq> canon k" using False by (simp add: py_eq_def)
    ultimately show ?thesis
      using Cons p False
      by (simp add: held_key_Cons canon_keys_put del: image_comp o_apply)
  qed
qed

text \<open>The dictionary as a map on classes of equal keys.\<close>

definition resource_map :: "resource_dict \<Rightarrow> (json \<rightharpoonup> json)" where
  "resource_map d = map_of (map (\<lambda>(k, v). (canon k, v)) d)"

lemma resource_map_Nil [simp]: "resource_map [] = Map.empty"
  by (simp add: resource_map_def)

lemma resource_map_Cons [simp]: "resource_map ((k, v) # d) = (resource_map d)(canon k \<mapsto> v)"
  by (simp add: resource_map_def)

lemma resource_map_put:
  "resource_map (dict_put d (held_key d k) v) = (resource_map d)(canon k \<mapsto> v)"
proof (induction d)
  case (Cons p d)
  obtain x w where p: "p = (x, w)" by fastforce
  show ?case
  proof (cases "py_eq x k")
    case True
    with p show ?thesis by (auto simp: held_key_Cons py_eq_def)
  next
    case False
    then have "x \<noteq> held_key d k" "canon x \<noteq> canon k"
      using canon_held_key [of d k] by (auto simp: py_eq_def)
    with p False Cons.IH show ?thesis by (auto simp: held_key_Cons)
  qed
qed (simp add: held_key_def)

lemma resource_map_None: "resource_map d k = None \<longleftrightarrow> k \<notin> (canon \<circ> fst) ` set d"
  by (force simp: resource_map_def map_of_eq_None_iff image_iff)

section \<open>Properties\<close>

text \<open>
  Setting a resource of a node changes that resource and no other, whatever kind of key
  names it: afterwards the resources are the map before with the key's class sent to the new
  value, and the dictionary still holds one entry per class of equal keys.  Only a key that
  cannot be hashed (a list or a dictionary) is refused, with \<open>TypeError\<close>.
\<close>

theorem set_resource_value_map:
  assumes "resources_ok fl (resources a)" and "json_ok fl k" and "json_ok fl v"
  shows "case set_resource_value k v a of
      Inl e \<Rightarrow> \<not> hashable k \<and> e = TypeError
    | Inr b \<Rightarrow> hashable k \<and> uid b = uid a \<and> last_seen b = last_seen a
        \<and> resource_map (resources b) = (resource_map (resources a))(canon k \<mapsto> v)
        \<and> resources_ok fl (resources b)"
  using assms
  by (auto simp: set_resource_value_def resource_map_put resources_ok_put)

theorem set_resource_value_map_witness:
  "case set_resource_value (JBool True) (JStr ''on'') (node_init 0 ''u'' [(JInt 1, JStr ''off''), (JStr ''ip'', JNull)]) of
      Inl e \<Rightarrow> False
    | Inr b \<Rightarrow> resource_map (resources b) (JInt 1) = Some (JStr ''on'')"
  using set_resource_value_map [of id "node_init 0 ''u'' [(JInt 1, JStr ''off''), (JStr ''ip'', JNull)]"
      "JBool True" "JStr ''on''"]
  by (simp add: node_init_def hashable_def split: sum.splits)

end
