(* ===== verification/Gateway.thy ===== *)
theory Gateway
  imports Gateway_Node Auth
begin

text \<open>
  \<open>pyaiot/gateway/common/gateway.py\<close>: what the three gateways share.

  Node objects live in a store (\<open>objects\<close>, addressed by number): a node that was replaced in
  \<open>self.nodes\<close> can still be held by a coroutine that runs, and the store keeps the two
  apart.  \<open>broker_link\<close> is \<open>self.broker\<close>: \<open>None\<close> until the first connection, then a
  connection that is open or closed; \<open>outbox\<close> is what was written to it, oldest first.

  The coroutine \<open>create_broker_connection\<close> runs for the life of the gateway.  Its place is
  the field \<open>conn\<close>: waiting for the connection, waiting for a message, waiting for the
  handler of a message, sleeping, or ended by an exception.  Between two of its waits it
  runs without interruption, and so do the callbacks.

  The two abstract methods are arguments.  What calling \<open>discover_node\<close> and
  \<open>update_node_resource\<close> does and what awaiting them does are different things: calling a
  coroutine function runs nothing, awaiting the result of a plain function raises
  \<open>TypeError\<close>.  A coroutine that reaches its first wait answers \<open>Suspended\<close>; in the code
  every such wait is the last thing its callers do.
\<close>

datatype link = Open | Closed

datatype conn_loop = Connecting | Reading | Handling | Sleeping | Dead exn

datatype progress = Done | Suspended

record gateway =
  clock :: int
  objects :: "nat \<Rightarrow> node"
  fresh :: nat
  nodes :: "(string, nat) dict"
  broker_link :: "link option"
  outbox :: "string list"
  conn :: conn_loop
  alive_timer :: bool

definition gateway_init :: "int \<Rightarrow> gateway" where
  "gateway_init now = \<lparr>clock = now, objects = (\<lambda>_. node_init now [] []), fresh = 0, nodes = [],
     broker_link = None, outbox = [], conn = Connecting, alive_timer = False\<rparr>"

section \<open>Node objects\<close>

definition new_object :: "string \<Rightarrow> resource_dict \<Rightarrow> ('a gateway_scheme, nat) py" where
  "new_object u res s =
     (Inr (fresh s), s\<lparr>objects := (objects s)(fresh s := node_init (clock s) u res), fresh := Suc (fresh s)\<rparr>)"

definition get_object :: "nat \<Rightarrow> ('a gateway_scheme, node) py" where
  "get_object r = gets (\<lambda>s. objects s r)"

definition set_object :: "nat \<Rightarrow> node \<Rightarrow> ('a gateway_scheme, unit) py" where
  "set_object r a = modify (\<lambda>s. s\<lparr>objects := (objects s)(r := a)\<rparr>)"

definition set_resource :: "nat \<Rightarrow> json \<Rightarrow> json \<Rightarrow> ('a gateway_scheme, unit) py" where
  "set_resource r resource v =
     bind (get_object r) (\<lambda>a. bind (lift (set_resource_value resource v a)) (set_object r))"

definition seen_now :: "nat \<Rightarrow> ('a gateway_scheme, unit) py" where
  "seen_now r = bind (get_object r) (\<lambda>a. bind (gets clock) (\<lambda>now. set_object r (update_last_seen now a)))"

section \<open>Operations on the cache\<close>

definition send_to_broker :: "string \<Rightarrow> ('a gateway_scheme, unit) py" where
  "send_to_broker message s =
     (case broker_link s of
        None \<Rightarrow> (Inr (), s)
      | Some Open \<Rightarrow> (Inr (), s\<lparr>outbox := outbox s @ [message]\<rparr>)
      | Some Closed \<Rightarrow> (Inl WebSocketClosedError, s))"

definition has_node :: "string \<Rightarrow> ('a gateway_scheme, bool) py" where
  "has_node u = gets (\<lambda>s. dict_has (nodes s) u)"

definition add_node ::
  "string \<Rightarrow> (nat \<Rightarrow> ('a gateway_scheme, progress) py) \<Rightarrow> nat \<Rightarrow> ('a gateway_scheme, progress) py" where
  "add_node protocol await_discover r =
     seq (set_resource r (JStr ''protocol'') (JStr protocol))
     (bind (get_object r) (\<lambda>a.
      seq (modify (\<lambda>s. s\<lparr>nodes := dict_put (nodes s) (uid a) r\<rparr>))
     (seq (send_to_broker (new_node (JStr (uid a)) dst_all))
     (seq (for_each (resources a) (\<lambda>(res, v). send_to_broker (update_node (JStr (uid a)) res v dst_all)))
     (await_discover r)))))"

definition reset_node ::
  "string \<Rightarrow> (nat \<Rightarrow> ('a gateway_scheme, unit) py) \<Rightarrow> nat \<Rightarrow> resource_dict \<Rightarrow> ('a gateway_scheme, unit) py" where
  "reset_node protocol call_discover r default_resources =
     seq (bind (get_object r) (\<lambda>a. set_object r (clear_resources a)))
     (seq (set_resource r (JStr ''protocol'') (JStr protocol))
     (seq (for_each default_resources (\<lambda>(res, v). set_resource r res v))
     (bind (get_object r) (\<lambda>a.
      seq (send_to_broker (reset_node_msg (JStr (uid a))))
     (call_discover r)))))"

definition remove_node :: "nat \<Rightarrow> ('a gateway_scheme, unit) py" where
  "remove_node r =
     bind (get_object r) (\<lambda>a. bind (gets nodes) (\<lambda>ns.
       if \<not> dict_has ns (uid a) then raise KeyError
       else seq (modify (\<lambda>s. s\<lparr>nodes := dict_del (nodes s) (uid a)\<rparr>))
                (send_to_broker (out_node (JStr (uid a))))))"

definition get_node :: "string \<Rightarrow> ('a gateway_scheme, nat) py" where
  "get_node u = bind (gets nodes) (\<lambda>ns. lift (or_raise KeyError (dict_get ns u)))"

definition forward_data_from_node :: "nat \<Rightarrow> json \<Rightarrow> json \<Rightarrow> ('a gateway_scheme, unit) py" where
  "forward_data_from_node r resource v =
     seq (set_resource r resource v)
     (bind (get_object r) (\<lambda>a. send_to_broker (update_node (JStr (uid a)) resource v dst_all)))"

definition send_cached :: "json \<Rightarrow> node \<Rightarrow> ('a gateway_scheme, unit) py" where
  "send_cached client a =
     seq (send_to_broker (new_node (JStr (uid a)) client))
     (for_each (resources a) (\<lambda>(res, v). send_to_broker (update_node (JStr (uid a)) res v client)))"

definition fetch_nodes_cache :: "json \<Rightarrow> ('a gateway_scheme, unit) py" where
  "fetch_nodes_cache client =
     bind (gets nodes) (\<lambda>ns.
       for_each (map snd ns) (\<lambda>r. bind (get_object r) (send_cached client)))"

definition close_client :: "('a gateway_scheme, unit) py" where
  "close_client = modify (\<lambda>s. s\<lparr>broker_link := (case broker_link s of None \<Rightarrow> None | Some _ \<Rightarrow> Some Closed)\<rparr>)"

definition send_alive :: "('a gateway_scheme, unit) py" where
  "send_alive = send_to_broker gateway_alive"

section \<open>Messages of the broker\<close>

text \<open>The first node of the cache whose uid equals the value named by the client.\<close>

definition node_named :: "json \<Rightarrow> ('a gateway_scheme, nat option) py" where
  "node_named u = gets (\<lambda>s. find (\<lambda>r. py_eq (JStr (uid (objects s r))) u) (map snd (nodes s)))"

text \<open>An update of a client, once its data has been checked.\<close>

definition update_named ::
  "(nat \<Rightarrow> json \<Rightarrow> json \<Rightarrow> ('a gateway_scheme, progress) py) \<Rightarrow> json \<Rightarrow> ('a gateway_scheme, progress) py" where
  "update_named await_update data =
     bind (lift (py_getitem data ''uid'')) (\<lambda>u.
     bind (lift (py_getitem data ''endpoint'')) (\<lambda>endpoint.
     bind (lift (py_getitem data ''payload'')) (\<lambda>payload.
     bind (node_named u) (\<lambda>found.
       case found of Some r \<Rightarrow> await_update r endpoint payload | None \<Rightarrow> ret Done))))"

definition on_broker_message ::
  "(string \<Rightarrow> string) \<Rightarrow> (nat \<Rightarrow> json \<Rightarrow> json \<Rightarrow> ('a gateway_scheme, progress) py) \<Rightarrow>
   string \<Rightarrow> ('a gateway_scheme, progress) py" where
  "on_broker_message fl await_update txt =
     bind (lift (loads fl txt)) (\<lambda>message.
     bind (lift (py_getitem message ''type'')) (\<lambda>t.
     if t = JStr ''new'' then
       bind (lift (py_getitem message ''src'')) (\<lambda>src. seq (fetch_nodes_cache src) (ret Done))
     else
       bind (if t = JStr ''update''
             then bind (lift (py_getitem message ''data'')) (\<lambda>data. lift (check_broker_data data))
             else ret False) (\<lambda>checked.
       if checked then
         bind (lift (py_getitem message ''data'')) (update_named await_update)
       else bind (lift (py_getitem message ''data'')) (\<lambda>_. ret Done))))"

section \<open>The connection with the broker\<close>

text \<open>
  One stretch of \<open>create_broker_connection\<close> between two waits: its result is the next wait.
  An exception that leaves it ends the coroutine for good.
\<close>

definition in_loop :: "('a gateway_scheme, conn_loop) py \<Rightarrow> ('a gateway_scheme, unit) py" where
  "in_loop m s =
     (case m s of (Inl e, t) \<Rightarrow> (Inr (), t\<lparr>conn := Dead e\<rparr>) | (Inr l, t) \<Rightarrow> (Inr (), t\<lparr>conn := l\<rparr>))"

text \<open>The outcome of \<open>websocket_connect\<close> is an argument; making the token comes first.\<close>

definition connect_outcome :: "fernet \<Rightarrow> keys \<Rightarrow> exn + unit \<Rightarrow> exn + unit" where
  "connect_outcome enc ks outcome = (case auth_token enc ks of Inl e \<Rightarrow> Inl e | Inr _ \<Rightarrow> outcome)"

definition connection_made :: "fernet \<Rightarrow> keys \<Rightarrow> exn + unit \<Rightarrow> ('a gateway_scheme, unit) py" where
  "connection_made enc ks outcome = in_loop
     (case connect_outcome enc ks outcome of
        Inl e \<Rightarrow> if e = ConnectionRefusedError then ret Sleeping else raise e
      | Inr _ \<Rightarrow>
          seq (modify (\<lambda>s. s\<lparr>broker_link := Some Open, alive_timer := True\<rparr>))
          (seq (fetch_nodes_cache dst_all) (ret Reading)))"

text \<open>\<open>read_message\<close> answers \<open>None\<close> when the connection is closed.\<close>

definition message_read ::
  "(string \<Rightarrow> string) \<Rightarrow> (nat \<Rightarrow> json \<Rightarrow> json \<Rightarrow> ('a gateway_scheme, progress) py) \<Rightarrow>
   string option \<Rightarrow> ('a gateway_scheme, unit) py" where
  "message_read fl await_update message = in_loop
     (case message of
        None \<Rightarrow> seq (modify (\<lambda>s. s\<lparr>alive_timer := False\<rparr>)) (ret Sleeping)
      | Some txt \<Rightarrow> bind (on_broker_message fl await_update txt) (\<lambda>p.
          ret (case p of Done \<Rightarrow> Reading | Suspended \<Rightarrow> Handling)))"

text \<open>The handler of a message that waited has ended: back to reading, or out.\<close>

definition handler_ended :: "('a gateway_scheme, unit) py \<Rightarrow> ('a gateway_scheme, unit) py" where
  "handler_ended rest = in_loop (seq rest (ret Reading))"

datatype gateway_event =
    BrokerConnection "exn + unit"
  | BrokerMessage string
  | BrokerGone
  | BrokerLost
  | SleepOver
  | AliveTimer
  | Tick int

fun gateway_handle ::
  "(string \<Rightarrow> string) \<Rightarrow> fernet \<Rightarrow> keys \<Rightarrow>
   (nat \<Rightarrow> json \<Rightarrow> json \<Rightarrow> ('a gateway_scheme, progress) py) \<Rightarrow>
   gateway_event \<Rightarrow> ('a gateway_scheme, unit) py" where
  "gateway_handle fl enc ks upd (BrokerConnection outcome) = connection_made enc ks outcome"
| "gateway_handle fl enc ks upd (BrokerMessage txt) = message_read fl upd (Some txt)"
| "gateway_handle fl enc ks upd BrokerGone = message_read fl upd None"
| "gateway_handle fl enc ks upd BrokerLost = close_client"
| "gateway_handle fl enc ks upd SleepOver = modify (\<lambda>s. s\<lparr>conn := Connecting\<rparr>)"
| "gateway_handle fl enc ks upd AliveTimer = send_alive"
| "gateway_handle fl enc ks upd (Tick n) = modify (\<lambda>s. s\<lparr>clock := clock s + n\<rparr>)"

fun gateway_enabled :: "gateway_event \<Rightarrow> 'a gateway_scheme \<Rightarrow> bool" where
  "gateway_enabled (BrokerConnection _) s \<longleftrightarrow> conn s = Connecting"
| "gateway_enabled (BrokerMessage _) s \<longleftrightarrow> conn s = Reading"
| "gateway_enabled BrokerGone s \<longleftrightarrow> conn s = Reading \<and> broker_link s = Some Closed"
| "gateway_enabled BrokerLost s \<longleftrightarrow> broker_link s = Some Open"
| "gateway_enabled SleepOver s \<longleftrightarrow> conn s = Sleeping"
| "gateway_enabled AliveTimer s \<longleftrightarrow> alive_timer s"
| "gateway_enabled (Tick n) s \<longleftrightarrow> n \<ge> 0"

end
