(* ===== verification/Gateway_Correct.thy ===== *)
theory Gateway_Correct
  imports Gateway
begin

text \<open>
  The invariant of the node cache, what a reader of the gateway's messages learns from them,
  and the contract of the two abstract methods.

  \<^item> \<open>gateway_ok\<close>: \<open>self.nodes\<close> maps each uid to an existing object with that uid, and every
    node's resources are well formed.  \<open>grows\<close>: a computation keeps it, forgets no object,
    renames none, only appends to the outbox and leaves the connection alone.
  \<^item> \<open>told\<close>: the map from uids to resources that a reader of a list of messages holds;
    \<open>cached\<close> is the same map read off the gateway's cache.
  \<^item> The locale \<open>gateway_protocol\<close>: the methods keep the invariant; then so do the operations
    that call them and every step of the connection with the broker.
\<close>

section \<open>The invariant\<close>

definition gateway_ok :: "(string \<Rightarrow> string) \<Rightarrow> 'a gateway_scheme \<Rightarrow> bool" where
  "gateway_ok fl s \<longleftrightarrow> dict_ok (nodes s)
     \<and> (\<forall>(u, r) \<in> set (nodes s). r < fresh s \<and> uid (objects s r) = u)
     \<and> (\<forall>r. resources_ok fl (resources (objects s r)))"

definition same_connection :: "'a gateway_scheme \<Rightarrow> 'a gateway_scheme \<Rightarrow> bool" where
  "same_connection s t \<longleftrightarrow> broker_link t = broker_link s \<and> conn t = conn s
     \<and> alive_timer t = alive_timer s"

definition grows :: "(string \<Rightarrow> string) \<Rightarrow> 'a gateway_scheme \<Rightarrow> 'a gateway_scheme \<Rightarrow> bool" where
  "grows fl s t \<longleftrightarrow> (gateway_ok fl s \<longrightarrow> gateway_ok fl t) \<and> fresh s \<le> fresh t
     \<and> (\<forall>r < fresh s. uid (objects t r) = uid (objects s r))
     \<and> (\<exists>ms. outbox t = outbox s @ ms) \<and> same_connection s t"

interpretation cache: state_preorder "grows fl"
  by unfold_locales (auto simp: grows_def same_connection_def)

lemma gateway_ok_update [simp]:
  "gateway_ok fl (s\<lparr>outbox := ms\<rparr>) = gateway_ok fl s"
  "gateway_ok fl (s\<lparr>broker_link := l\<rparr>) = gateway_ok fl s"
  "gateway_ok fl (s\<lparr>conn := c\<rparr>) = gateway_ok fl s"
  "gateway_ok fl (s\<lparr>alive_timer := b\<rparr>) = gateway_ok fl s"
  "gateway_ok fl (s\<lparr>clock := n\<rparr>) = gateway_ok fl s"
  by (simp_all add: gateway_ok_def)

lemma gateway_ok_node:
  "gateway_ok fl s \<Longrightarrow> dict_get (nodes s) u = Some r \<Longrightarrow> r < fresh s \<and> uid (objects s r) = u"
  by (auto simp: gateway_ok_def dest!: map_of_SomeD)

lemma gateway_ok_resources: "gateway_ok fl s \<Longrightarrow> resources_ok fl (resources (objects s r))"
  by (simp add: gateway_ok_def)

named_theorems cache_keeps \<open>operations that keep the invariant of the cache\<close>

lemmas cache_rules = cache.upholds_rules

lemma keeps_send [cache_keeps]: "cache.upholds fl (send_to_broker m)"
  by (rule cache.upholdsI)
    (auto simp: send_to_broker_def grows_def same_connection_def split: option.splits link.splits)

lemma keeps_get_object [cache_keeps]: "cache.upholds fl (get_object r)"
  unfolding get_object_def by (rule cache.upholds_gets)

lemma grows_set_object:
  assumes "uid a = uid (objects s r)" and "gateway_ok fl s \<Longrightarrow> resources_ok fl (resources a)"
  shows "grows fl s (s\<lparr>objects := (objects s)(r := a)\<rparr>)"
  using assms by (auto simp: grows_def gateway_ok_def same_connection_def)

lemma keeps_set_resource [cache_keeps]:
  assumes "json_ok fl k" and "json_ok fl v"
  shows "cache.upholds fl (set_resource r k v)"
  using assms
  by (intro cache.upholdsI)
    (auto simp: set_resource_def get_object_def set_object_def set_resource_value_def py_run
      cache.refl_state gateway_ok_resources intro!: grows_set_object resources_ok_put)

lemma keeps_clear [cache_keeps]:
  "cache.upholds fl (bind (get_object r) (\<lambda>a. set_object r (clear_resources a)))"
  by (rule cache.upholdsI)
    (auto simp: get_object_def set_object_def clear_resources_def py_run intro!: grows_set_object)

lemma keeps_seen_now [cache_keeps]: "cache.upholds fl (seen_now r)"
  by (rule cache.upholdsI)
    (auto simp: seen_now_def get_object_def set_object_def update_last_seen_def py_run
      gateway_ok_resources intro!: grows_set_object)

lemma keeps_forward [cache_keeps]:
  "json_ok fl k \<Longrightarrow> json_ok fl v \<Longrightarrow> cache.upholds fl (forward_data_from_node r k v)"
  unfolding forward_data_from_node_def by (intro cache_rules cache_keeps)

lemma keeps_remove_node [cache_keeps]: "cache.upholds fl (remove_node r)"
  unfolding remove_node_def
  by (intro cache_rules cache_keeps)
    (auto simp: grows_def gateway_ok_def dict_ok_del same_connection_def dest: dict_delD)

lemma keeps_send_cached [cache_keeps]: "cache.upholds fl (send_cached client a)"
  unfolding send_cached_def by (intro cache_rules cache_keeps)

lemma keeps_fetch [cache_keeps]: "cache.upholds fl (fetch_nodes_cache client)"
  unfolding fetch_nodes_cache_def by (intro cache_rules cache_keeps)

lemma keeps_get_node [cache_keeps]: "cache.upholds fl (get_node u)"
  unfolding get_node_def by (intro cache_rules)

lemma keeps_node_named [cache_keeps]: "cache.upholds fl (node_named u)"
  unfolding node_named_def by (intro cache_rules)

lemma new_object_run:
  assumes "new_object u res s = (x, t)" and "resources_ok fl res"
  shows "x = Inr (fresh s) \<and> grows fl s t \<and> fresh s < fresh t \<and> uid (objects t (fresh s)) = u"
proof -
  have "gateway_ok fl s \<longrightarrow> gateway_ok fl t"
  proof
    assume ok: "gateway_ok fl s"
    have "r < fresh t \<and> uid (objects t r) = v" if "(v, r) \<in> set (nodes t)" for v r
    proof -
      have "r < fresh s" "uid (objects s r) = v"
        using that ok assms(1) by (auto simp: new_object_def gateway_ok_def)
      then show ?thesis using assms(1) by (auto simp: new_object_def)
    qed
    moreover have "resources_ok fl (resources (objects t r))" for r
      using ok assms by (auto simp: new_object_def gateway_ok_def node_init_def)
    moreover have "dict_ok (nodes t)" using ok assms(1) by (auto simp: new_object_def gateway_ok_def)
    ultimately show "gateway_ok fl t" unfolding gateway_ok_def by blast
  qed
  then show ?thesis
    using assms(1) by (auto simp: grows_def new_object_def node_init_def same_connection_def)
qed

section \<open>The invariant of the connection\<close>

text \<open>
  While the coroutine reads or handles messages the alive timer runs; while it waits for a
  connection or sleeps, the timer is off and nothing can be written.
\<close>

definition loop_ok :: "'a gateway_scheme \<Rightarrow> bool" where
  "loop_ok s \<longleftrightarrow>
     (conn s = Reading \<or> conn s = Handling \<longrightarrow> alive_timer s \<and> broker_link s \<noteq> None)
     \<and> (conn s = Connecting \<or> conn s = Sleeping \<longrightarrow> \<not> alive_timer s \<and> broker_link s \<noteq> Some Open)"

definition gateway_inv :: "(string \<Rightarrow> string) \<Rightarrow> 'a gateway_scheme \<Rightarrow> bool" where
  "gateway_inv fl s \<longleftrightarrow> gateway_ok fl s \<and> loop_ok s"

lemma gateway_inv_init: "gateway_inv fl (gateway_init now)"
  by (simp add: gateway_inv_def gateway_ok_def loop_ok_def gateway_init_def node_init_def)

lemma in_loop_inv:
  assumes "gateway_inv fl s" and "conn s = Reading \<or> conn s = Handling"
    and "cache.upholds fl m" and "\<And>l t. m s = (Inr l, t) \<Longrightarrow> l = Reading \<or> l = Handling"
  shows "gateway_inv fl (snd (in_loop m s))"
proof (cases "m s")
  case (Pair r t)
  have "grows fl s t" using cache.upholdsD [OF assms(3), of s] Pair by simp
  with Pair assms(1,2,4) show ?thesis
    by (auto simp: in_loop_def gateway_inv_def loop_ok_def grows_def same_connection_def split: sum.splits)
qed

lemma connection_made_inv:
  assumes "gateway_inv fl s" and "conn s = Connecting"
  shows "gateway_inv fl (snd (connection_made enc ks outcome s))"
proof -
  let ?t = "s\<lparr>broker_link := Some Open, alive_timer := True\<rparr>"
  obtain r t where run: "fetch_nodes_cache dst_all ?t = (r, t)" by fastforce
  have "grows fl ?t t" by (rule cache.upholds_run [OF keeps_fetch run])
  moreover have "gateway_ok fl ?t" using assms(1) by (simp add: gateway_inv_def)
  ultimately have t: "gateway_ok fl t" "alive_timer t" "broker_link t = Some Open"
    by (auto simp: grows_def same_connection_def)
  show ?thesis
  proof (cases "connect_outcome enc ks outcome")
    case (Inl e)
    with assms show ?thesis
      by (auto simp: connection_made_def in_loop_def gateway_inv_def loop_ok_def py_run)
  next
    case (Inr x)
    with t run show ?thesis
      by (auto simp: connection_made_def in_loop_def gateway_inv_def loop_ok_def py_run split: sum.splits)
  qed
qed

section \<open>The contract of the abstract methods\<close>

locale gateway_protocol =
  fixes fl :: "string \<Rightarrow> string"
    and protocol :: string
    and await_discover :: "nat \<Rightarrow> ('a gateway_scheme, progress) py"
    and call_discover :: "nat \<Rightarrow> ('a gateway_scheme, unit) py"
    and await_update :: "nat \<Rightarrow> json \<Rightarrow> json \<Rightarrow> ('a gateway_scheme, progress) py"
  assumes discover_keeps: "cache.upholds fl (await_discover r)"
    and call_discover_keeps: "cache.upholds fl (call_discover r)"
    and update_keeps: "json_ok fl k \<Longrightarrow> json_ok fl v \<Longrightarrow> cache.upholds fl (await_update r k v)"
begin

lemma reset_node_keeps:
  assumes "\<forall>(k, v) \<in> set d. json_ok fl k \<and> json_ok fl v"
  shows "cache.upholds fl (reset_node protocol call_discover r d)"
  using assms unfolding reset_node_def
  by (intro cache_rules cache_keeps call_discover_keeps) auto

lemma add_node_keeps:
  assumes "r < fresh s"
  shows "grows fl s (snd (add_node protocol await_discover r s))"
proof -
  let ?k = "JStr ''protocol''" and ?v = "JStr protocol"
  define t where "t = snd (set_resource r ?k ?v s)"
  have st: "grows fl s t"
    unfolding t_def by (rule cache.upholdsD) (rule keeps_set_resource, simp_all)
  have run: "set_resource r ?k ?v s = (Inr (), t)"
    by (auto simp: t_def set_resource_def get_object_def set_object_def set_resource_value_def
        hashable_def py_run)
  have r: "r < fresh t" using st assms by (auto simp: grows_def)
  define a where "a = objects t r"
  have "grows fl t (t\<lparr>nodes := dict_put (nodes t) (uid a) r\<rparr>)"
    using r by (auto simp: grows_def gateway_ok_def dict_ok_put a_def same_connection_def dest!: dict_putD)
  moreover have "cache.upholds fl (seq (send_to_broker (new_node (JStr (uid a)) dst_all))
     (seq (for_each (resources a) (\<lambda>(res, v). send_to_broker (update_node (JStr (uid a)) res v dst_all)))
     (await_discover r)))"
    by (intro cache_rules cache_keeps discover_keeps)
  ultimately show ?thesis
    using st
    by (auto simp: add_node_def seq_first [where m = "set_resource r ?k ?v", OF run] get_object_def bind_gets seq_modify a_def
        intro: cache.trans_state dest: cache.upholdsD)
qed

lemma getitem_ok: "json_ok fl m \<Longrightarrow> py_getitem m k = Inr v \<Longrightarrow> json_ok fl v"
  by (cases m) (auto simp: py_getitem_def or_raise_def list_all_iff split: option.splits dest!: map_of_SomeD)

lemma update_named_keeps:
  assumes "json_ok fl data"
  shows "cache.upholds fl (update_named await_update data)"
proof (cases "py_getitem data ''endpoint''"; cases "py_getitem data ''payload''")
  fix k v
  assume kv: "py_getitem data ''endpoint'' = Inr k" "py_getitem data ''payload'' = Inr v"
  then have "json_ok fl k" "json_ok fl v" using assms getitem_ok by blast+
  with kv show ?thesis
    by (auto simp: update_named_def intro!: cache_rules cache_keeps update_keeps)
qed (auto simp: update_named_def intro!: cache_rules cache_keeps)

lemma on_broker_message_keeps:
  assumes "canonical_floats fl"
  shows "cache.upholds fl (on_broker_message fl await_update txt)"
proof (cases "loads fl txt")
  case (Inl e)
  then show ?thesis by (simp add: on_broker_message_def cache.upholds_pure)
next
  case (Inr message)
  then have ok: "json_ok fl message" using loads_ok [OF assms] by blast
  define upd where "upd = bind (lift (py_getitem message ''data'')) (update_named await_update)"
  have "cache.upholds fl upd"
  proof (cases "py_getitem message ''data''")
    case (Inr data)
    with ok have "json_ok fl data" using getitem_ok by blast
    with Inr show ?thesis by (simp add: upd_def update_named_keeps)
  qed (simp add: upd_def cache.upholds_pure)
  with Inr show ?thesis
    by (simp add: on_broker_message_def upd_def [symmetric] cong: if_cong) (intro cache_rules cache_keeps)
qed

lemma handler_ended_inv:
  "gateway_inv fl s \<Longrightarrow> conn s = Handling \<Longrightarrow> cache.upholds fl m \<Longrightarrow> gateway_inv fl (snd (handler_ended m s))"
  unfolding handler_ended_def
  by (rule in_loop_inv) (auto intro!: cache_rules simp: py_run split: sum.splits prod.splits)

lemma message_read_inv:
  assumes "canonical_floats fl" and "gateway_inv fl s" and "conn s = Reading"
  shows "gateway_inv fl (snd (message_read fl await_update (Some txt) s))"
  using assms unfolding message_read_def option.case
  by (intro in_loop_inv)
    (auto intro!: cache_rules on_broker_message_keeps simp: py_run split: sum.splits prod.splits progress.splits)

lemma gateway_handle_inv:
  assumes "canonical_floats fl" and "gateway_inv fl s" and "gateway_enabled ev s"
  shows "gateway_inv fl (snd (gateway_handle fl enc ks await_update ev s))"
proof (cases ev)
  case (BrokerConnection outcome)
  with assms show ?thesis by (simp add: connection_made_inv)
next
  case (BrokerMessage m)
  with assms show ?thesis by (simp add: message_read_inv)
next
  case AliveTimer
  have "grows fl s (snd (send_alive s))"
    unfolding send_alive_def by (rule cache.upholdsD) (rule keeps_send)
  with AliveTimer assms(2) show ?thesis by (auto simp: gateway_inv_def grows_def loop_ok_def same_connection_def)
next
  case BrokerGone
  with assms show ?thesis
    by (auto simp: message_read_def in_loop_def py_run gateway_inv_def loop_ok_def gateway_ok_def)
qed (use assms in \<open>auto simp: close_client_def py_run gateway_inv_def loop_ok_def gateway_ok_def\<close>)

end

end
