(* ===== verification/Gateway_View.thy ===== *)
theory Gateway_View
  imports Gateway_Correct
begin

text \<open>
  What a reader of a gateway's messages knows.  \<open>tell\<close> is the reading of one message:
  \<open>new\<close> starts a node without resources, \<open>update\<close> sets one resource of a known node,
  \<open>reset\<close> empties a node and \<open>out\<close> forgets it.  \<open>cached\<close> is the abstraction of the
  gateway's own state.  The operations on the cache are simulated by the messages they send.
\<close>

type_synonym view = "string \<rightharpoonup> (json \<rightharpoonup> json)"

definition tell_dict :: "(string, json) dict \<Rightarrow> view \<Rightarrow> view" where
  "tell_dict kvs V =
     (case (dict_get kvs ''type'', dict_get kvs ''uid'') of
        (Some (JStr t), Some (JStr u)) \<Rightarrow>
          if t = ''new'' then V(u \<mapsto> Map.empty)
          else if t = ''out'' then V(u := None)
          else if t = ''reset'' then (case V u of None \<Rightarrow> V | Some _ \<Rightarrow> V(u \<mapsto> Map.empty))
          else if t = ''update'' then
            (case (dict_get kvs ''endpoint'', dict_get kvs ''data'', V u) of
               (Some k, Some v, Some m) \<Rightarrow> V(u \<mapsto> m(canon k \<mapsto> v))
             | _ \<Rightarrow> V)
          else V
      | _ \<Rightarrow> V)"

definition tell :: "(string \<Rightarrow> string) \<Rightarrow> string \<Rightarrow> view \<Rightarrow> view" where
  "tell fl m V = (case loads fl m of Inr (JObj kvs) \<Rightarrow> tell_dict kvs V | _ \<Rightarrow> V)"

definition told :: "(string \<Rightarrow> string) \<Rightarrow> string list \<Rightarrow> view \<Rightarrow> view" where
  "told fl ms V = fold (tell fl) ms V"

definition cached :: "'a gateway_scheme \<Rightarrow> view" where
  "cached s u = map_option (\<lambda>r. resource_map (resources (objects s r))) (dict_get (nodes s) u)"

lemma told_simps [simp]:
  "told fl [] V = V"
  "told fl (m # ms) V = told fl ms (tell fl m V)"
  "told fl (ms @ ns) V = told fl ns (told fl ms V)"
  by (simp_all add: told_def)

lemma tell_new [simp]: "json_ok fl dst \<Longrightarrow> tell fl (new_node (JStr u) dst) V = V(u \<mapsto> Map.empty)"
  by (simp add: tell_def new_node_def serialize_read tell_dict_def)

lemma tell_out [simp]: "tell fl (out_node (JStr u)) V = V(u := None)"
  by (simp add: tell_def out_node_def serialize_read tell_dict_def)

lemma tell_reset: "tell fl (reset_node_msg (JStr u)) V = (case V u of None \<Rightarrow> V | Some _ \<Rightarrow> V(u \<mapsto> Map.empty))"
  by (simp add: tell_def reset_node_msg_def serialize_read tell_dict_def)

lemma tell_update [simp]:
  assumes "json_ok fl k" and "json_ok fl v" and "json_ok fl dst"
  shows "tell fl (update_node (JStr u) k v dst) V =
    (case V u of None \<Rightarrow> V | Some m \<Rightarrow> V(u \<mapsto> m(canon k \<mapsto> v)))"
  using assms by (simp add: tell_def update_node_def serialize_read tell_dict_def split: option.split)

lemma tell_alive: "tell fl gateway_alive V = V"
  by (simp add: tell_def gateway_alive_def serialize_read tell_dict_def)

section \<open>Messages sent on an open connection\<close>

definition said :: "'a gateway_scheme \<Rightarrow> string list \<Rightarrow> 'a gateway_scheme" where
  "said s ms = s\<lparr>outbox := outbox s @ ms\<rparr>"

lemma said_fields [simp]:
  "objects (said s ms) = objects s" "nodes (said s ms) = nodes s" "fresh (said s ms) = fresh s"
  "broker_link (said s ms) = broker_link s" "outbox (said s ms) = outbox s @ ms"
  "clock (said s ms) = clock s" "said s [] = s" "said (said s ms) ns = said s (ms @ ns)"
  by (simp_all add: said_def)

lemma cached_said [simp]: "cached (said s ms) = cached s"
  by (rule ext) (simp add: cached_def)

lemma send_open [simp]: "broker_link s = Some Open \<Longrightarrow> send_to_broker m s = (Inr (), said s [m])"
  by (simp add: send_to_broker_def said_def)

lemma for_each_said:
  assumes "\<And>x t. broker_link t = Some Open \<Longrightarrow> objects t = objects s \<Longrightarrow> x \<in> set xs \<Longrightarrow>
      f x t = (Inr (), said t (g x))"
    and "broker_link s = Some Open"
  shows "for_each xs f s = (Inr (), said s (concat (map g xs)))"
proof -
  have "for_each xs f t = (Inr (), said t (concat (map g xs)))"
    if "broker_link t = Some Open" "objects t = objects s" for t
    using that assms(1) by (induction xs arbitrary: t) (auto simp: py_run)
  then show ?thesis using assms(2) by simp
qed

definition update_texts :: "json \<Rightarrow> string \<Rightarrow> resource_dict \<Rightarrow> string list" where
  "update_texts client u d = map (\<lambda>(k, v). update_node (JStr u) k v client) d"

definition cache_texts :: "json \<Rightarrow> node \<Rightarrow> string list" where
  "cache_texts client a = new_node (JStr (uid a)) client # update_texts client (uid a) (resources a)"

lemma updates_run:
  assumes "broker_link s = Some Open"
  shows "for_each d (\<lambda>(res, v). send_to_broker (update_node (JStr u) res v client)) s =
    (Inr (), said s (update_texts client u d))"
proof -
  have "for_each d (\<lambda>(res, v). send_to_broker (update_node (JStr u) res v client)) s =
    (Inr (), said s (concat (map (\<lambda>(k, v). [update_node (JStr u) k v client]) d)))"
    by (rule for_each_said) (use assms in auto)
  moreover have "concat (map (\<lambda>(k, v). [update_node (JStr u) k v client]) d) = update_texts client u d"
    by (induction d) (auto simp: update_texts_def)
  ultimately show ?thesis by simp
qed

lemma send_cached_run:
  "broker_link s = Some Open \<Longrightarrow> send_cached client a s = (Inr (), said s (cache_texts client a))"
  by (simp add: send_cached_def seq_run updates_run cache_texts_def)

lemma fetch_run:
  assumes "broker_link s = Some Open"
  shows "fetch_nodes_cache client s =
    (Inr (), said s (concat (map (\<lambda>(u, r). cache_texts client (objects s r)) (nodes s))))"
proof -
  have "for_each (map snd (nodes s)) (\<lambda>r. bind (get_object r) (send_cached client)) s =
    (Inr (), said s (concat (map (\<lambda>r. cache_texts client (objects s r)) (map snd (nodes s)))))"
    by (rule for_each_said) (use assms in \<open>auto simp: get_object_def bind_gets send_cached_run\<close>)
  then show ?thesis by (simp add: fetch_nodes_cache_def bind_gets comp_def split_def)
qed

lemma fold_puts:
  "distinct (map (canon \<circ> fst) d) \<Longrightarrow> fold (\<lambda>(k, v) m. m(canon k \<mapsto> v)) d m = m ++ resource_map d"
proof (induction d arbitrary: m)
  case (Cons p d)
  obtain k v where p: "p = (k, v)" by fastforce
  then have "resource_map d (canon k) = None"
    using Cons.prems by (auto simp: resource_map_None)
  then show ?case using Cons p by (auto simp: map_add_def fun_eq_iff split: option.splits)
qed simp

lemma told_updates:
  assumes "V u = Some m" and "resources_ok fl d" and "json_ok fl client"
  shows "told fl (update_texts client u d) V = V(u \<mapsto> m ++ resource_map d)"
proof -
  have "told fl (update_texts client u d) V = V(u \<mapsto> fold (\<lambda>(k, v) m. m(canon k \<mapsto> v)) d m)"
    using assms
  proof (induction d arbitrary: V m)
    case Nil
    then show ?case by (simp add: update_texts_def map_upd_triv)
  next
    case (Cons p d)
    obtain k v where p: "p = (k, v)" by fastforce
    have "told fl (update_texts client u (p # d)) V = told fl (update_texts client u d) (V(u \<mapsto> m(canon k \<mapsto> v)))"
      using Cons.prems p by (simp add: update_texts_def)
    also have "\<dots> = (V(u \<mapsto> m(canon k \<mapsto> v)))(u \<mapsto> fold (\<lambda>(k, v) m. m(canon k \<mapsto> v)) d (m(canon k \<mapsto> v)))"
      by (rule Cons.IH) (use Cons.prems p in auto)
    finally show ?case using p by (auto simp: fun_upd_def fun_eq_iff)
  qed
  with assms(2) show ?thesis by (simp add: fold_puts resources_ok_def)
qed

lemma told_cache_texts:
  assumes "resources_ok fl (resources a)" and "json_ok fl client"
  shows "told fl (cache_texts client a) V = V(uid a \<mapsto> resource_map (resources a))"
  using told_updates [OF _ assms(1) assms(2), of "V(uid a \<mapsto> Map.empty)" "uid a" Map.empty] assms(2)
  by (simp add: cache_texts_def)

lemma told_fetch:
  assumes "gateway_ok fl s" and "json_ok fl client"
  shows "told fl (concat (map (\<lambda>(u, r). cache_texts client (objects s r)) (nodes s))) V = V ++ cached s"
proof -
  have "told fl (concat (map (\<lambda>(u, r). cache_texts client (objects s r)) ns)) V =
      V ++ (\<lambda>u. map_option (\<lambda>r. resource_map (resources (objects s r))) (dict_get ns u))"
    if "dict_ok ns" "\<forall>(u, r) \<in> set ns. uid (objects s r) = u" for ns
    using that
  proof (induction ns arbitrary: V)
    case (Cons p ns)
    obtain u r where p: "p = (u, r)" by fastforce
    then have "dict_get ns u = None" using Cons.prems by (simp add: map_of_eq_None_iff)
    then show ?case
      using Cons p assms by (auto simp: told_cache_texts gateway_ok_resources map_add_def fun_eq_iff split: option.splits)
  qed simp
  moreover have "dict_ok (nodes s)" "\<forall>(u, r) \<in> set (nodes s). uid (objects s r) = u"
    using assms(1) by (auto simp: gateway_ok_def)
  ultimately show ?thesis unfolding cached_def by blast
qed

lemma cache_texts_dst:
  assumes "gateway_ok fl s" and "json_ok fl client"
  shows "\<forall>m \<in> set (concat (map (\<lambda>(u, r). cache_texts client (objects s r)) (nodes s))).
    \<exists>kvs. loads fl m = Inr (JObj kvs) \<and> dict_get kvs ''dst'' = Some client"
  using assms(2) gateway_ok_resources [OF assms(1)]
  by (fastforce simp: cache_texts_def update_texts_def new_node_def update_node_def serialize_read
      dest: resources_okD)

section \<open>Simulation\<close>

text \<open>What a computation sends describes what it does to the cache.\<close>

definition mirrored :: "(string \<Rightarrow> string) \<Rightarrow> 'a gateway_scheme \<Rightarrow> 'a gateway_scheme \<Rightarrow> bool" where
  "mirrored fl s t \<longleftrightarrow> (\<exists>ms. outbox t = outbox s @ ms \<and> told fl ms (cached s) = cached t)"

interpretation mirror: state_preorder "mirrored fl"
proof unfold_locales
  fix s t u :: "'a gateway_scheme"
  show "mirrored fl s s" by (simp add: mirrored_def)
  assume "mirrored fl s t" and "mirrored fl t u"
  then obtain ms ns where ms: "outbox t = outbox s @ ms" "told fl ms (cached s) = cached t"
    and ns: "outbox u = outbox t @ ns" "told fl ns (cached t) = cached u"
    by (auto simp: mirrored_def)
  then have "outbox u = outbox s @ (ms @ ns)" "told fl (ms @ ns) (cached s) = cached u" by auto
  then show "mirrored fl s u" unfolding mirrored_def by blast
qed

lemma set_resource_run:
  assumes "hashable k"
  shows "set_resource r k v s = (Inr (), s\<lparr>objects := (objects s)(r := (objects s r)\<lparr>resources :=
     dict_put (resources (objects s r)) (held_key (resources (objects s r)) k) v\<rparr>)\<rparr>)"
  using assms by (simp add: set_resource_def get_object_def set_object_def set_resource_value_def py_run)

text \<open>A node object is current when the cache holds it under its uid.\<close>

definition current :: "'a gateway_scheme \<Rightarrow> nat \<Rightarrow> bool" where
  "current s r \<longleftrightarrow> dict_get (nodes s) (uid (objects s r)) = Some r"

lemma cached_set_resource:
  assumes "gateway_ok fl s" and "current s r" and "hashable k"
  shows "cached (snd (set_resource r k v s)) = (cached s)(uid (objects s r) \<mapsto>
    (resource_map (resources (objects s r)))(canon k \<mapsto> v))"
proof -
  have other: "r' \<noteq> r" if "dict_get (nodes s) u = Some r'" "u \<noteq> uid (objects s r)" for u r'
    using gateway_ok_node [OF assms(1) that(1)] that(2) by auto
  show ?thesis
  proof (rule ext)
    fix u
    show "cached (snd (set_resource r k v s)) u = ((cached s)(uid (objects s r) \<mapsto>
        (resource_map (resources (objects s r)))(canon k \<mapsto> v))) u"
    proof (cases "u = uid (objects s r)")
      case True
      then show ?thesis
        using assms(2,3) by (simp add: cached_def set_resource_run current_def resource_map_put)
    next
      case False
      then show ?thesis
        using assms(3) other by (cases "dict_get (nodes s) u") (auto simp: cached_def set_resource_run)
    qed
  qed
qed

lemma forward_run:
  assumes "broker_link s = Some Open" and "hashable k"
  shows "forward_data_from_node r k v s =
    (Inr (), said (snd (set_resource r k v s)) [update_node (JStr (uid (objects s r))) k v dst_all])"
  using assms
  by (simp add: forward_data_from_node_def seq_first [where m = "set_resource r k v", OF set_resource_run]
      get_object_def bind_gets set_resource_run)

lemma cached_current: "current s r \<Longrightarrow> cached s (uid (objects s r)) = Some (resource_map (resources (objects s r)))"
  by (simp add: cached_def current_def)

lemma add_node_run:
  assumes "broker_link s = Some Open"
    and "set_resource r (JStr ''protocol'') (JStr protocol) s = (Inr (), t)"
  shows "add_node protocol discover r s =
    discover r (said (t\<lparr>nodes := dict_put (nodes t) (uid (objects t r)) r\<rparr>) (cache_texts dst_all (objects t r)))"
proof -
  have "broker_link t = Some Open"
    using assms by (auto simp: set_resource_run hashable_def)
  then show ?thesis
    by (simp add: add_node_def seq_first [where m = "set_resource r (JStr ''protocol'') (JStr protocol)", OF assms(2)]
        get_object_def bind_gets seq_modify seq_first [OF send_open] seq_first [OF updates_run] cache_texts_def)
qed

lemma remove_run:
  assumes "broker_link s = Some Open" and "current s r"
  shows "remove_node r s =
      (Inr (), s\<lparr>nodes := dict_del (nodes s) (uid (objects s r)),
                 outbox := outbox s @ [out_node (JStr (uid (objects s r)))]\<rparr>)"
  using assms
  by (simp add: remove_node_def get_object_def bind_gets current_def dict_has_def seq_modify said_def)

lemma cached_del:
  assumes "gateway_ok fl s" and "objects t = objects s" and "nodes t = dict_del (nodes s) u"
  shows "cached t = (cached s)(u := None)"
  using assms by (auto simp: cached_def gateway_ok_def dict.get_del fun_eq_iff)

section \<open>A client that asks\<close>

definition told_to :: "json \<Rightarrow> 'a gateway_scheme \<Rightarrow> string list" where
  "told_to client s = concat (map (cache_texts client) (map (objects s) (map snd (nodes s))))"

lemma told_to_eq: "concat (map (\<lambda>(u, r). cache_texts client (objects s r)) (nodes s)) = told_to client s"
  by (simp add: told_to_def comp_def split_def)

lemma new_client_run:
  assumes "broker_link s = Some Open" and "loads fl m = Inr (JObj kvs)"
    and "dict_get kvs ''type'' = Some (JStr ''new'')" and "dict_get kvs ''src'' = Some src"
  shows "message_read fl upd (Some m) s = (Inr (), s\<lparr>outbox := outbox s @ told_to src s, conn := Reading\<rparr>)"
  using fetch_run [OF assms(1)] assms(2-4)
  by (simp add: message_read_def in_loop_def on_broker_message_def py_getitem_def py_run said_def told_to_eq)

end
