(* ===== verification/Gateway_Properties.thy ===== *)
theory Gateway_Properties
  imports Gateway_View
begin

text \<open>
  The properties of the operations all gateways share, with witnesses on \<open>demo_gateway\<close>: an
  open connection and two cached nodes, and a third object that shares the uid of the first.
\<close>

section \<open>A concrete state\<close>

definition demo_nodes :: "nat \<Rightarrow> node" where
  "demo_nodes = (\<lambda>_. node_init 0 [] [])
     (0 := node_init 0 ''a'' [(JStr ''ip'', JStr ''fd00::1''), (JStr ''protocol'', JStr ''CoAP'')],
      1 := node_init 0 ''b'' [(JStr ''protocol'', JStr ''CoAP''), (JStr ''led'', JInt 1)],
      2 := node_init 0 ''a'' [(JStr ''ip'', JStr ''fd00::1'')])"

definition demo_gateway :: gateway where
  "demo_gateway = \<lparr>clock = 0, objects = demo_nodes, fresh = 3, nodes = [(''a'', 0), (''b'', 1)],
     broker_link = Some Open, outbox = [], conn = Reading, alive_timer = True\<rparr>"

lemma demo_gateway_fields [simp]:
  "clock demo_gateway = 0" "objects demo_gateway = demo_nodes" "fresh demo_gateway = 3"
  "nodes demo_gateway = [(''a'', 0), (''b'', 1)]" "broker_link demo_gateway = Some Open"
  "outbox demo_gateway = []" "conn demo_gateway = Reading" "alive_timer demo_gateway"
  by (simp_all add: demo_gateway_def)

lemma demo_nodes_fields [simp]:
  "uid (demo_nodes 0) = ''a''" "uid (demo_nodes 1) = ''b''" "uid (demo_nodes (Suc 0)) = ''b''"
  "uid (demo_nodes 2) = ''a''"
  "resources (demo_nodes 0) = [(JStr ''ip'', JStr ''fd00::1''), (JStr ''protocol'', JStr ''CoAP'')]"
  by (simp_all add: demo_nodes_def node_init_def)

lemma demo_gateway_ok: "gateway_ok fl demo_gateway"
proof -
  have "resources_ok fl (resources (demo_nodes r))" for r
    by (auto simp: demo_nodes_def node_init_def hashable_def)
  then show ?thesis by (auto simp: gateway_ok_def)
qed

lemma demo_current: "current demo_gateway 0"
  by (simp add: current_def)

section \<open>What the readers learn\<close>

text \<open>
  C12: Sending the cache to a client lets it learn exactly the cache: whoever reads the messages
  in order knows afterwards every cached node with every resource and its value, and what it
  knew of other nodes is untouched.  Every message names that client as its destination, and
  nothing else of the gateway changes.
\<close>

theorem fetch_teaches_cache:
  assumes "gateway_ok fl s" and "broker_link s = Some Open" and "json_ok fl client"
  shows "\<exists>ms. fetch_nodes_cache client s = (Inr (), s\<lparr>outbox := outbox s @ ms\<rparr>)
     \<and> told fl ms V = V ++ cached s
     \<and> (\<forall>m \<in> set ms. \<exists>kvs. loads fl m = Inr (JObj kvs) \<and> dict_get kvs ''dst'' = Some client)"
proof (intro exI conjI)
  let ?ms = "concat (map (\<lambda>(u, r). cache_texts client (objects s r)) (nodes s))"
  show "fetch_nodes_cache client s = (Inr (), s\<lparr>outbox := outbox s @ ?ms\<rparr>)"
    using fetch_run [OF assms(2)] by (simp add: said_def)
  show "told fl ?ms V = V ++ cached s" by (rule told_fetch [OF assms(1,3)])
  show "\<forall>m \<in> set ?ms. \<exists>kvs. loads fl m = Inr (JObj kvs) \<and> dict_get kvs ''dst'' = Some client"
    by (rule cache_texts_dst [OF assms(1,3)])
qed

theorem fetch_teaches_cache_witness:
  "\<exists>ms. fetch_nodes_cache (JStr ''c1'') demo_gateway = (Inr (), demo_gateway\<lparr>outbox := ms\<rparr>)
     \<and> told id ms Map.empty = cached demo_gateway"
  using fetch_teaches_cache [OF demo_gateway_ok demo_gateway_fields(5), of id "JStr ''c1''" Map.empty]
  by auto

text \<open>
  Data of a node the cache holds is stored and announced consistently: the resource is set
  in the cache, one message is sent, and reading that message makes the same change to what a
  reader knows.
\<close>

theorem forward_is_mirrored:
  assumes "gateway_ok fl s" and "broker_link s = Some Open" and "current s r"
    and "hashable k" and "json_ok fl k" and "json_ok fl v"
  shows "\<exists>m t. forward_data_from_node r k v s = (Inr (), t) \<and> outbox t = outbox s @ [m]
     \<and> nodes t = nodes s
     \<and> cached t = tell fl m (cached s)
     \<and> cached t (uid (objects s r)) = Some ((resource_map (resources (objects s r)))(canon k \<mapsto> v))"
proof -
  let ?t = "snd (set_resource r k v s)" and ?m = "update_node (JStr (uid (objects s r))) k v dst_all"
  have t: "outbox ?t = outbox s" "nodes ?t = nodes s" using assms(4) by (simp_all add: set_resource_run)
  have c: "cached ?t = (cached s)(uid (objects s r) \<mapsto> (resource_map (resources (objects s r)))(canon k \<mapsto> v))"
    by (rule cached_set_resource [OF assms(1,3,4)])
  moreover have "tell fl ?m (cached s) = cached ?t"
    using assms(5,6) cached_current [OF assms(3)] c by simp
  ultimately show ?thesis
    using forward_run [OF assms(2,4), of r v] t by auto
qed

theorem forward_is_mirrored_witness:
  "\<exists>m t. forward_data_from_node 0 (JStr ''led'') (JStr ''1'') demo_gateway = (Inr (), t)
     \<and> cached t = tell id m (cached demo_gateway)
     \<and> cached t ''a'' = Some [JStr ''ip'' \<mapsto> JStr ''fd00::1'', JStr ''protocol'' \<mapsto> JStr ''CoAP'', JStr ''led'' \<mapsto> JStr ''1'']"
  using forward_is_mirrored [OF demo_gateway_ok demo_gateway_fields(5) demo_current, of "JStr ''led''" id "JStr ''1''"]
  by (auto simp: hashable_def fun_upd_twist)

text \<open>
  Adding a node announces it with all its resources: if the discovery that follows is
  mirrored by its messages then so is the whole operation, and in the cache the node's uid then
  leads to the new object, which carries the name of the protocol.
\<close>

theorem add_node_is_mirrored:
  assumes "gateway_ok fl s" and "broker_link s = Some Open" and "r < fresh s"
    and "\<And>t. gateway_ok fl t \<Longrightarrow> broker_link t = Some Open \<Longrightarrow> current t r \<Longrightarrow>
      uid (objects t r) = uid (objects s r) \<Longrightarrow>
      mirrored fl t (snd (discover r t)) \<and> current (snd (discover r t)) r"
  shows "mirrored fl s (snd (add_node protocol discover r s)) \<and> current (snd (add_node protocol discover r s)) r"
proof -
  let ?k = "JStr ''protocol''" and ?v = "JStr protocol"
  define t where "t = snd (set_resource r ?k ?v s)"
  have run: "set_resource r ?k ?v s = (Inr (), t)"
    by (simp add: t_def set_resource_run hashable_def)
  have "grows fl s t" unfolding t_def by (rule cache.upholdsD) (rule keeps_set_resource, simp_all)
  then have t: "gateway_ok fl t" "broker_link t = Some Open" "uid (objects t r) = uid (objects s r)" "r < fresh t"
    using assms(1-3) by (auto simp: grows_def same_connection_def)
  define a u where "a = objects t r" and "u = uid (objects t r)"
  define ms where "ms = cache_texts dst_all a"
  define t' where "t' = said (t\<lparr>nodes := dict_put (nodes t) u r\<rparr>) ms"
  have "add_node protocol discover r s = discover r t'"
    using add_node_run [OF assms(2) run] by (simp add: t'_def ms_def a_def u_def)
  moreover have ok: "gateway_ok fl t'" "broker_link t' = Some Open" "current t' r"
    using t by (auto simp: t'_def said_def gateway_ok_def dict_ok_put u_def current_def dict.get_put dest!: dict_putD)
  have same: "resource_map (resources (objects t r')) = resource_map (resources (objects s r'))"
    if "dict_get (nodes s) w = Some r'" "w \<noteq> u" for w r'
    using that gateway_ok_node [OF assms(1) that(1)] t(3)
    by (auto simp: t_def set_resource_run hashable_def u_def)
  have nodes: "nodes t = nodes s" "outbox t = outbox s"
    by (simp_all add: t_def set_resource_run hashable_def)
  have "cached t' = (cached s)(u \<mapsto> resource_map (resources a))"
  proof (rule ext)
    fix w
    show "cached t' w = ((cached s)(u \<mapsto> resource_map (resources a))) w"
      using same assms(1) nodes
      by (cases "dict_get (nodes s) w")
        (auto simp: t'_def cached_def a_def gateway_ok_def dict.get_put)
  qed
  moreover have "told fl ms (cached s) = (cached s)(u \<mapsto> resource_map (resources a))"
    using told_cache_texts [OF gateway_ok_resources [OF t(1)], of dst_all r "cached s"]
    by (simp add: ms_def a_def u_def)
  ultimately have "mirrored fl s t'" using nodes by (auto simp: mirrored_def t'_def)
  moreover have "uid (objects t' r) = uid (objects s r)" using t(3) by (simp add: t'_def)
  ultimately show ?thesis
    using assms(4) [OF ok] mirror.trans_state \<open>add_node protocol discover r s = discover r t'\<close>
    by metis
qed

theorem add_node_is_mirrored_witness:
  "mirrored id demo_gateway (snd (add_node ''CoAP'' (\<lambda>_. ret Done) 2 demo_gateway))
   \<and> current (snd (add_node ''CoAP'' (\<lambda>_. ret Done) 2 demo_gateway)) 2"
  by (rule add_node_is_mirrored [OF demo_gateway_ok]) (simp_all add: py_run mirror.refl_state)

text \<open>
  Removing a node the cache holds takes it out of the cache, and the one message sent tells
  the readers to forget that node and no other.
\<close>

theorem remove_node_is_mirrored:
  assumes "gateway_ok fl s" and "broker_link s = Some Open" and "current s r"
  shows "remove_node r s =
      (Inr (), s\<lparr>nodes := dict_del (nodes s) (uid (objects s r)),
                 outbox := outbox s @ [out_node (JStr (uid (objects s r)))]\<rparr>)
    \<and> cached (snd (remove_node r s)) = (cached s)(uid (objects s r) := None)
    \<and> told fl [out_node (JStr (uid (objects s r)))] (cached s) = cached (snd (remove_node r s))"
proof -
  note run = remove_run [OF assms(2,3)]
  moreover have "cached (snd (remove_node r s)) = (cached s)(uid (objects s r) := None)"
    by (rule cached_del [OF assms(1)]) (simp_all add: run)
  ultimately show ?thesis by simp
qed

theorem remove_node_is_mirrored_witness:
  "cached (snd (remove_node 0 demo_gateway)) ''a'' = None
   \<and> cached (snd (remove_node 0 demo_gateway)) ''b'' = cached demo_gateway ''b''"
proof -
  have "cached (snd (remove_node 0 demo_gateway)) = (cached demo_gateway)(''a'' := None)"
    using remove_node_is_mirrored [OF demo_gateway_ok demo_gateway_fields(5) demo_current, of id] by simp
  then show ?thesis by simp
qed

text \<open>
  Resetting a node is announced without its resources: the cache keeps the protocol and the
  default resources, while a reader is told that the node has none and, since nobody awaits the
  discovery that \<open>reset_node\<close> calls, learns nothing more from the operation.
\<close>

theorem reset_not_mirrored:
  assumes "gateway_ok fl s" and "broker_link s = Some Open" and "current s r"
  shows "\<exists>t. reset_node protocol (\<lambda>_. ret ()) r [(JStr ''ip'', v)] s = (Inr (), t)
     \<and> outbox t = outbox s @ [reset_node_msg (JStr (uid (objects s r)))]
     \<and> cached t (uid (objects s r)) = Some [JStr ''protocol'' \<mapsto> JStr protocol, JStr ''ip'' \<mapsto> v]
     \<and> tell fl (reset_node_msg (JStr (uid (objects s r)))) (cached s) (uid (objects s r)) = Some Map.empty"
proof -
  have "hashable (JStr k)" for k by (simp add: hashable_def)
  then show ?thesis
    using assms(2,3) cached_current [OF assms(3)]
    by (simp add: reset_node_def get_object_def bind_gets set_object_def py_run set_resource_run
        clear_resources_def held_key_def cached_def current_def tell_reset fun_eq_iff said_def
        send_to_broker_def)
qed

theorem reset_not_mirrored_witness:
  "\<exists>t. reset_node ''CoAP'' (\<lambda>_. ret ()) 0 [(JStr ''ip'', JStr ''fd00::1'')] demo_gateway = (Inr (), t)
     \<and> cached t ''a'' \<noteq> tell id (reset_node_msg (JStr ''a'')) (cached demo_gateway) ''a''"
  using reset_not_mirrored [OF demo_gateway_ok demo_gateway_fields(5) demo_current, of "''CoAP''" "JStr ''fd00::1''" id]
  by (auto simp: fun_eq_iff)

section \<open>The connection with the broker\<close>

lemma dead_stays:
  "conn s = Dead e \<Longrightarrow> gateway_enabled ev s \<Longrightarrow> conn (snd (gateway_handle fl enc ks upd ev s)) = Dead e"
  by (cases ev) (auto simp: py_run close_client_def send_alive_def send_to_broker_def split: option.split link.split)

lemma dead_forever:
  "conn s = Dead e \<Longrightarrow> run_enabled (gateway_handle fl enc ks upd) gateway_enabled s evs \<Longrightarrow>
   conn (run_events (gateway_handle fl enc ks upd) s evs) = Dead e"
  by (induction evs arbitrary: s) (auto simp: dead_stays)

text \<open>
  C19: One message without data ends a gateway's link with the broker for good: an \<open>out\<close>,
  \<open>reset\<close> or \<open>update\<close> that lacks \<open>data\<close> passes the broker's check and is forwarded, reading it
  raises \<open>KeyError\<close> in the coroutine that holds the connection, and no later event revives it.
\<close>

theorem message_without_data_ends_connection:
  assumes "loads fl m = Inr (JObj kvs)" and "dict_get kvs ''type'' = Some (JStr t)"
    and "t \<in> {''out'', ''reset'', ''update''}" and "\<not> dict_has kvs ''data''"
    and "run_enabled (gateway_handle fl enc ks upd) gateway_enabled
           (snd (gateway_handle fl enc ks upd (BrokerMessage m) s)) evs"
  shows "check_message fl (Text m) = Inr (Some (JObj kvs), None)
     \<and> conn (run_events (gateway_handle fl enc ks upd) s (BrokerMessage m # evs)) = Dead KeyError"
proof
  show "check_message fl (Text m) = Inr (Some (JObj kvs), None)"
    by (rule check_message_valid [OF assms(1)]) (use assms in \<open>auto simp: valid_message_def message_types_def\<close>)
  have "conn (snd (gateway_handle fl enc ks upd (BrokerMessage m) s)) = Dead KeyError"
    using assms(1-4)
    by (auto simp: message_read_def in_loop_def on_broker_message_def py_getitem_def dict_has_def py_run)
  from dead_forever [OF this assms(5)]
  show "conn (run_events (gateway_handle fl enc ks upd) s (BrokerMessage m # evs)) = Dead KeyError" by simp
qed

theorem message_without_data_ends_connection_witness:
  "conn (run_events (gateway_handle id toy_enc \<lparr>private_key = ''k'', secret_key = ''s''\<rparr> (\<lambda>_ _ _. ret Done))
     demo_gateway [BrokerMessage (reset_node_msg (JStr ''a'')), BrokerLost, Tick 3]) = Dead KeyError"
proof -
  let ?kvs = "[(''type'', JStr ''reset''), (''uid'', JStr ''a'')]"
  have l: "loads id (reset_node_msg (JStr ''a'')) = Inr (JObj ?kvs)"
    unfolding reset_node_msg_def by (rule serialize_read) simp
  then have s: "snd (gateway_handle id toy_enc \<lparr>private_key = ''k'', secret_key = ''s''\<rparr> (\<lambda>_ _ _. ret Done)
      (BrokerMessage (reset_node_msg (JStr ''a''))) demo_gateway) = demo_gateway\<lparr>conn := Dead KeyError\<rparr>"
    by (simp add: message_read_def in_loop_def on_broker_message_def py_getitem_def py_run)
  show ?thesis
    by (rule message_without_data_ends_connection [OF l, THEN conjunct2])
      (unfold s, auto simp: py_run close_client_def)
qed

definition retries :: "nat \<Rightarrow> gateway_event list" where
  "retries n = concat (replicate n [BrokerConnection (Inl ConnectionRefusedError), SleepOver])"

lemma retries_run:
  assumes "conn s = Connecting" and "auth_token enc ks = Inr tk"
  shows "run_events (gateway_handle fl enc ks upd) s (retries n) = s"
proof (induction n)
  case (Suc n)
  have "s\<lparr>conn := Connecting\<rparr> = s" using assms(1) [symmetric] by simp
  from Suc assms show ?case
    by (simp add: \<open>s\<lparr>conn := Connecting\<rparr> = s\<close> retries_def connection_made_def connect_outcome_def in_loop_def py_run)
qed (simp add: retries_def)

text \<open>
  C18: A refused connection is tried again until the broker is there: after any number of
  refusals the first connection that succeeds announces the whole cache, starts the alive
  timer and reads.  Any other failure of the connection ends the coroutine.
\<close>

theorem refused_connection_retried:
  assumes "gateway_ok fl s" and "conn s = Connecting" and "auth_token enc ks = Inr tk"
  shows "\<exists>ms. run_events (gateway_handle fl enc ks upd) s (retries n @ [BrokerConnection (Inr ())]) =
      s\<lparr>broker_link := Some Open, alive_timer := True, conn := Reading, outbox := outbox s @ ms\<rparr>
      \<and> told fl ms Map.empty = cached s
    \<and> (e \<noteq> ConnectionRefusedError \<longrightarrow>
      run_events (gateway_handle fl enc ks upd) s (retries n @ [BrokerConnection (Inl e)]) = s\<lparr>conn := Dead e\<rparr>)"
proof (intro exI conjI impI)
  let ?s = "s\<lparr>broker_link := Some Open, alive_timer := True\<rparr>"
  let ?ms = "concat (map (\<lambda>(u, r). cache_texts dst_all (objects ?s r)) (nodes ?s))"
  note again = retries_run [OF assms(2,3), of fl upd n]
  have "fetch_nodes_cache dst_all ?s = (Inr (), said ?s ?ms)" by (rule fetch_run) simp
  then show "run_events (gateway_handle fl enc ks upd) s (retries n @ [BrokerConnection (Inr ())]) =
      s\<lparr>broker_link := Some Open, alive_timer := True, conn := Reading, outbox := outbox s @ ?ms\<rparr>"
    using assms(3) again
    by (simp add: run_events_append connection_made_def connect_outcome_def in_loop_def
        seq_modify py_run said_def)
  have "told fl ?ms Map.empty = Map.empty ++ cached ?s"
    by (rule told_fetch) (use assms(1) in simp_all)
  moreover have "cached ?s = cached s" by (simp add: cached_def fun_eq_iff)
  ultimately show "told fl ?ms Map.empty = cached s" by simp
  show "run_events (gateway_handle fl enc ks upd) s (retries n @ [BrokerConnection (Inl e)]) = s\<lparr>conn := Dead e\<rparr>"
    if "e \<noteq> ConnectionRefusedError"
    using that assms(3) again
    by (simp add: run_events_append connection_made_def connect_outcome_def in_loop_def py_run)
qed

theorem refused_connection_retried_witness:
  "\<exists>ms. run_events (gateway_handle id toy_enc \<lparr>private_key = ''k'', secret_key = ''s''\<rparr> (\<lambda>_ _ _. ret Done))
     (demo_gateway\<lparr>conn := Connecting\<rparr>) (retries 5 @ [BrokerConnection (Inr ())]) =
     demo_gateway\<lparr>broker_link := Some Open, alive_timer := True, conn := Reading, outbox := ms\<rparr>"
proof -
  obtain tk where tk: "auth_token toy_enc \<lparr>private_key = ''k'', secret_key = ''s''\<rparr> = Inr tk"
    by (simp add: auth_token_def toy_enc_def token_char_def is_space_def)
  have "gateway_ok id (demo_gateway\<lparr>conn := Connecting\<rparr>)" by (simp add: demo_gateway_ok)
  from refused_connection_retried [OF this _ tk, of "\<lambda>_ _ _. ret Done" 5]
  show ?thesis by auto
qed

text \<open>
  A client's \<open>new\<close> makes a gateway send its cache to that client and to nobody else, and the
  coroutine goes back to reading.
\<close>

theorem new_client_served:
  assumes "gateway_ok fl s" and "broker_link s = Some Open" and "json_ok fl src"
    and "loads fl m = Inr (JObj kvs)" and "dict_get kvs ''type'' = Some (JStr ''new'')"
    and "dict_get kvs ''src'' = Some src"
  shows "\<exists>ms. message_read fl upd (Some m) s = (Inr (), s\<lparr>outbox := outbox s @ ms, conn := Reading\<rparr>)
     \<and> told fl ms Map.empty = cached s
     \<and> (\<forall>x \<in> set ms. \<exists>kvs. loads fl x = Inr (JObj kvs) \<and> dict_get kvs ''dst'' = Some src)"
proof (intro exI conjI)
  show "message_read fl upd (Some m) s = (Inr (), s\<lparr>outbox := outbox s @ told_to src s, conn := Reading\<rparr>)"
    using assms(2,4-6) by (rule new_client_run)
  show "told fl (told_to src s) Map.empty = cached s"
    using told_fetch [OF assms(1,3), of Map.empty] by (simp add: told_to_eq)
  show "\<forall>x \<in> set (told_to src s). \<exists>kvs. loads fl x = Inr (JObj kvs) \<and> dict_get kvs ''dst'' = Some src"
    using cache_texts_dst [OF assms(1,3)] by (simp add: told_to_eq)
qed

theorem new_client_served_witness:
  "\<exists>m ms. message_read id (\<lambda>_ _ _. ret Done) (Some m) demo_gateway =
      (Inr (), demo_gateway\<lparr>outbox := ms, conn := Reading\<rparr>) \<and> told id ms Map.empty = cached demo_gateway"
proof -
  let ?kvs = "[(''type'', JStr ''new''), (''src'', JStr ''c1'')]"
  have "loads id (serialize (JObj ?kvs)) = Inr (JObj ?kvs)" by (rule serialize_read) simp
  from new_client_served [OF demo_gateway_ok demo_gateway_fields(5) _ this, of "JStr ''c1''" "\<lambda>_ _ _. ret Done"]
  show ?thesis by auto
qed

end
