(* ===== verification/Coap_Gateway.thy ===== *)
theory Coap_Gateway
  imports Gateway_Correct
begin

text \<open>
  \<open>pyaiot/gateway/coap/gateway.py\<close>: the gateway for CoAP nodes.

  The network is an argument: \<open>coap_outcome\<close> is what \<open>aiocoap\<close> makes of a request (a reply
  with a code and the bytes of its payload; an exception of the request, whose text the code
  keeps; an exception outside the \<open>try\<close>, such as a malformed URL).  The waits inside
  \<open>_coap_resource\<close> count as one.  A coroutine that waits for an outcome is a value of
  \<open>coap_task\<close>, which holds the variables it still needs; \<open>tasks\<close> is the table of the waiting
  coroutines and \<open>requests\<close> the requests made so far.

  Addresses and uids are strings, and bytes are strings of the same type: decoding UTF-8
  bytes is the identity where they are valid.
\<close>

section \<open>Bytes and formatted values\<close>

definition byte_in :: "nat \<Rightarrow> nat \<Rightarrow> char \<Rightarrow> bool" where
  "byte_in a b c \<longleftrightarrow> a \<le> (of_char c :: nat) \<and> (of_char c :: nat) \<le> b"

abbreviation continuation :: "char \<Rightarrow> bool" where
  "continuation \<equiv> byte_in 128 191"

text \<open>Strict UTF-8: no overlong form, no surrogate, nothing above \<open>10FFFF\<close>.\<close>

fun utf8_valid :: "string \<Rightarrow> bool" where
  "utf8_valid [] \<longleftrightarrow> True"
| "utf8_valid (a # s) \<longleftrightarrow>
     (if byte_in 0 127 a then utf8_valid s
      else case s of
        b # s2 \<Rightarrow>
          if byte_in 194 223 a then continuation b \<and> utf8_valid s2
          else (case s2 of
            c # s3 \<Rightarrow>
              if byte_in 224 239 a then
                (if byte_in 224 224 a then byte_in 160 191 b
                 else if byte_in 237 237 a then byte_in 128 159 b else continuation b)
                \<and> continuation c \<and> utf8_valid s3
              else (case s3 of
                d # s4 \<Rightarrow>
                  byte_in 240 244 a
                  \<and> (if byte_in 240 240 a then byte_in 144 191 b
                     else if byte_in 244 244 a then byte_in 128 143 b else continuation b)
                  \<and> continuation c \<and> continuation d \<and> utf8_valid s4
              | [] \<Rightarrow> False)
          | [] \<Rightarrow> False)
      | [] \<Rightarrow> False)"

definition decode_utf8 :: "string \<Rightarrow> exn + string" where
  "decode_utf8 b = (if utf8_valid b then Inr b else Inl UnicodeDecodeError)"

text \<open>\<open>v.encode('ascii')\<close>: only a string has the method.\<close>

definition encode_ascii :: "json \<Rightarrow> exn + string" where
  "encode_ascii v =
     (case v of
        JStr s \<Rightarrow> if list_all (byte_in 0 127) s then Inr s else Inl UnicodeEncodeError
      | _ \<Rightarrow> Inl AttributeError)"

text \<open>\<open>s[1:]\<close>: without the bytes of the first character.\<close>

definition tail_text :: "string \<Rightarrow> string" where
  "tail_text s = dropWhile continuation (drop 1 s)"

text \<open>
  \<open>'{}'.format(v)\<close>.  How Python prints a list or a dictionary is the argument \<open>rep\<close>.
\<close>

definition py_format :: "(json \<Rightarrow> string) \<Rightarrow> json \<Rightarrow> string" where
  "py_format rep v =
     (case v of
        JStr s \<Rightarrow> s
      | JNull \<Rightarrow> ''None''
      | JBool b \<Rightarrow> (if b then ''True'' else ''False'')
      | JInt i \<Rightarrow> int_literal i
      | JFloat t \<Rightarrow> (if t = ''NaN'' then ''nan'' else if t = ''Infinity'' then ''inf''
                    else if t = ''-Infinity'' then ''-inf'' else t)
      | _ \<Rightarrow> rep v)"

text \<open>\<open>s.split(c, 1)\<close> unpacked into two variables: \<open>ValueError\<close> without the separator.\<close>

definition split_pair :: "char \<Rightarrow> string \<Rightarrow> exn + (string \<times> string)" where
  "split_pair c s = (if c \<in> set s then Inr (takeWhile (\<lambda>x. x \<noteq> c) s, tl (dropWhile (\<lambda>x. x \<noteq> c) s))
                     else Inl ValueError)"

section \<open>Requests and their outcomes\<close>

datatype coap_code = FetchFailed | Code nat

definition CHANGED :: coap_code where
  "CHANGED = Code 68"

datatype coap_outcome =
    Reply nat string
  | RequestFailed string
  | SetupFailed exn

datatype coap_method = GET | PUT

definition coap_endpoints :: "string \<Rightarrow> string list" where
  "coap_endpoints link_header = split_on CHR '','' (remove_char CHR '' '' link_header)"

definition coap_resource :: "coap_outcome \<Rightarrow> exn + (coap_code \<times> string)" where
  "coap_resource outcome =
     (case outcome of
        Reply code payload \<Rightarrow>
          (case decode_utf8 payload of Inl e \<Rightarrow> Inl e | Inr s \<Rightarrow> Inr (Code code, s))
      | RequestFailed exc \<Rightarrow> Inr (FetchFailed, exc)
      | SetupFailed e \<Rightarrow> Inl e)"

section \<open>The state\<close>

datatype coap_task =
    AwaitCore nat string
  | AwaitResource nat string string "string list"
  | AwaitPut nat json json

record coap_options =
  interface :: "string option"
  max_time :: int

record coap_gateway = gateway +
  node_mapping :: "(string, string) dict"
  tasks :: "(nat, coap_task) dict"
  next_task :: nat
  requests :: "(coap_method \<times> string \<times> string) list"

definition coap_init :: "int \<Rightarrow> coap_gateway" where
  "coap_init now = gateway.extend (gateway_init now)
     \<lparr>node_mapping = [], tasks = [], next_task = 0, requests = []\<rparr>"

abbreviation coap_protocol :: string where
  "coap_protocol \<equiv> ''CoAP''"

definition suspend :: "coap_method \<Rightarrow> string \<Rightarrow> string \<Rightarrow> coap_task \<Rightarrow> (coap_gateway, progress) py" where
  "suspend meth url payload task s =
     (Inr Suspended, s\<lparr>tasks := tasks s @ [(next_task s, task)], next_task := Suc (next_task s),
                       requests := requests s @ [(meth, url, payload)]\<rparr>)"

section \<open>Discovery\<close>

definition node_ip :: "nat \<Rightarrow> (coap_gateway, json) py" where
  "node_ip r = bind (get_object r) (\<lambda>a. lift (resource_value a ''ip''))"

definition coap_node_url :: "coap_options \<Rightarrow> string \<Rightarrow> string" where
  "coap_node_url opts address = ''coap://['' @ address
     @ (case interface opts of None \<Rightarrow> [] | Some i \<Rightarrow> ''%'' @ i) @ '']''"

definition discover_node :: "(json \<Rightarrow> string) \<Rightarrow> coap_options \<Rightarrow> nat \<Rightarrow> (coap_gateway, progress) py" where
  "discover_node rep opts r =
     bind (node_ip r) (\<lambda>address.
       let url = coap_node_url opts (py_format rep address) in
       suspend GET (url @ ''/.well-known/core'') [] (AwaitCore r url))"

definition endpoint_path :: "string \<Rightarrow> string" where
  "endpoint_path endpoint = remove_char CHR ''>'' (remove_char CHR ''<'' (hd (split_on CHR '';'' endpoint)))"

definition discover_next :: "nat \<Rightarrow> string \<Rightarrow> string list \<Rightarrow> (coap_gateway, progress) py" where
  "discover_next r url endpoints =
     (case endpoints of
        [] \<Rightarrow> ret Done
      | endpoint # rest \<Rightarrow>
          let path = endpoint_path endpoint in
          suspend GET (url @ path) [] (AwaitResource r url path rest))"

definition core_received :: "nat \<Rightarrow> string \<Rightarrow> coap_outcome \<Rightarrow> (coap_gateway, progress) py" where
  "core_received r url outcome =
     bind (lift (coap_resource outcome)) (\<lambda>(_, payload).
       discover_next r url
         (filter (\<lambda>endpoint. \<not> contains ''well-known/core'' endpoint) (coap_endpoints payload)))"

definition resource_received ::
  "nat \<Rightarrow> string \<Rightarrow> string \<Rightarrow> string list \<Rightarrow> coap_outcome \<Rightarrow> (coap_gateway, progress) py" where
  "resource_received r url path rest outcome =
     (case coap_resource outcome of
        Inl _ \<Rightarrow> ret Done
      | Inr (_, payload) \<Rightarrow>
          seq (forward_data_from_node r (JStr (tail_text path)) (JStr payload))
              (discover_next r url rest))"

section \<open>Updates of clients\<close>

definition update_node_resource ::
  "(json \<Rightarrow> string) \<Rightarrow> nat \<Rightarrow> json \<Rightarrow> json \<Rightarrow> (coap_gateway, progress) py" where
  "update_node_resource rep r endpoint payload =
     bind (node_ip r) (\<lambda>address.
     bind (lift (encode_ascii payload)) (\<lambda>bytes.
       suspend PUT (''coap://['' @ py_format rep address @ '']/'' @ py_format rep endpoint) bytes
         (AwaitPut r endpoint payload)))"

definition put_received :: "nat \<Rightarrow> json \<Rightarrow> json \<Rightarrow> coap_outcome \<Rightarrow> (coap_gateway, unit) py" where
  "put_received r endpoint payload outcome =
     bind (lift (coap_resource outcome)) (\<lambda>(code, _).
       if code = CHANGED then forward_data_from_node r endpoint payload else ret ())"

section \<open>Messages of nodes\<close>

definition get_mapped :: "string \<Rightarrow> (coap_gateway, string) py" where
  "get_mapped address = bind (gets node_mapping) (\<lambda>m. lift (or_raise KeyError (dict_get m address)))"

definition handle_coap_post :: "string \<Rightarrow> string \<Rightarrow> string \<Rightarrow> (coap_gateway, unit) py" where
  "handle_coap_post address endpoint v =
     bind (gets node_mapping) (\<lambda>m.
       if \<not> dict_has m address then ret ()
       else bind (get_mapped address) (\<lambda>u. bind (get_node u) (\<lambda>r.
            forward_data_from_node r (JStr endpoint) (JStr v))))"

definition handle_coap_check ::
  "(json \<Rightarrow> string) \<Rightarrow> coap_options \<Rightarrow> string \<Rightarrow> string \<Rightarrow> bool \<Rightarrow> (coap_gateway, progress) py" where
  "handle_coap_check rep opts u address reset =
     bind (gets node_mapping) (\<lambda>m.
       if \<not> dict_has m u then
         bind (new_object u [(JStr ''ip'', JStr address)]) (\<lambda>r.
         seq (modify (\<lambda>s. s\<lparr>node_mapping := dict_put (node_mapping s) address u\<rparr>))
         (add_node coap_protocol (discover_node rep opts) r))
       else if reset then
         bind (get_mapped address) (\<lambda>v. bind (get_node v) (\<lambda>r.
         seq (reset_node coap_protocol (\<lambda>_. ret ()) r [(JStr ''ip'', JStr address)]) (ret Done)))
       else
         bind (get_mapped address) (\<lambda>v. bind (get_node v) (\<lambda>r. seq (seen_now r) (ret Done))))"

text \<open>
  The two resources of the CoAP server.  The answer to a request is a code with a text; an
  exception makes \<open>aiocoap\<close> answer 5.00.  The alive request is answered when its coroutine is
  done, with the text given here.
\<close>

definition post_reply :: "string \<Rightarrow> coap_code \<times> string" where
  "post_reply payload = (CHANGED, ''Received '' @ [CHR 39] @ payload @ [CHR 39])"

definition alive_render_post ::
  "(json \<Rightarrow> string) \<Rightarrow> coap_options \<Rightarrow> string \<Rightarrow> string \<Rightarrow> (coap_gateway, progress \<times> coap_code \<times> string) py" where
  "alive_render_post rep opts addr bytes =
     bind (lift (decode_utf8 bytes)) (\<lambda>payload.
     bind (handle_coap_check rep opts (last (split_on CHR '':'' payload)) addr (starts_with ''reset'' payload)) (\<lambda>p.
     ret (p, post_reply payload)))"

definition server_render_post :: "string \<Rightarrow> string \<Rightarrow> (coap_gateway, coap_code \<times> string) py" where
  "server_render_post remote bytes =
     bind (lift (decode_utf8 bytes)) (\<lambda>payload.
     bind (lift (split_pair CHR '':'' payload)) (\<lambda>(path, data).
     seq (handle_coap_post remote path data)
     (ret (post_reply payload))))"

section \<open>The cleanup task\<close>

definition seconds_now :: "'a gateway_scheme \<Rightarrow> int" where
  "seconds_now s = clock s div ticks_per_second"

definition is_dead :: "coap_options \<Rightarrow> 'a gateway_scheme \<Rightarrow> nat \<Rightarrow> bool" where
  "is_dead opts s r \<longleftrightarrow>
     seconds_now s * ticks_per_second > last_seen (objects s r) + max_time opts * ticks_per_second"

text \<open>\<open>self.node_mapping.pop(v)\<close>\<close>

definition pop_mapping :: "json \<Rightarrow> (coap_gateway, unit) py" where
  "pop_mapping v =
     (if \<not> hashable v then raise TypeError
      else bind (gets node_mapping) (\<lambda>m.
        case v of
          JStr a \<Rightarrow> if dict_has m a then modify (\<lambda>s. s\<lparr>node_mapping := dict_del (node_mapping s) a\<rparr>)
                    else raise KeyError
        | _ \<Rightarrow> raise KeyError))"

definition drop_node :: "nat \<Rightarrow> (coap_gateway, unit) py" where
  "drop_node r = bind (node_ip r) (\<lambda>ip. seq (pop_mapping ip) (remove_node r))"

definition check_dead_nodes :: "coap_options \<Rightarrow> (coap_gateway, unit) py" where
  "check_dead_nodes opts =
     bind (gets (\<lambda>s. filter (is_dead opts s) (map snd (nodes s)))) (\<lambda>to_remove.
       for_each to_remove drop_node)"

section \<open>Events\<close>

datatype coap_event =
    Base gateway_event
  | AlivePost string string
  | ServerPost string string
  | Outcome nat coap_outcome
  | Cleanup

text \<open>A waiting coroutine goes on; the one that handles a message of the broker is awaited there.\<close>

definition resume :: "coap_task \<Rightarrow> coap_outcome \<Rightarrow> (coap_gateway, unit) py" where
  "resume task outcome =
     (case task of
        AwaitCore r url \<Rightarrow> seq (core_received r url outcome) (ret ())
      | AwaitResource r url path rest \<Rightarrow> seq (resource_received r url path rest outcome) (ret ())
      | AwaitPut r endpoint payload \<Rightarrow> handler_ended (put_received r endpoint payload outcome))"

fun coap_handle ::
  "(string \<Rightarrow> string) \<Rightarrow> (json \<Rightarrow> string) \<Rightarrow> fernet \<Rightarrow> keys \<Rightarrow> coap_options \<Rightarrow>
   coap_event \<Rightarrow> (coap_gateway, unit) py" where
  "coap_handle fl rep enc ks opts (Base ev) = gateway_handle fl enc ks (update_node_resource rep) ev"
| "coap_handle fl rep enc ks opts (AlivePost addr bytes) =
     seq (alive_render_post rep opts addr bytes) (ret ())"
| "coap_handle fl rep enc ks opts (ServerPost addr bytes) = seq (server_render_post addr bytes) (ret ())"
| "coap_handle fl rep enc ks opts (Outcome tid outcome) =
     bind (gets (\<lambda>s. dict_get (tasks s) tid)) (\<lambda>found.
       case found of
         None \<Rightarrow> ret ()
       | Some task \<Rightarrow>
           seq (modify (\<lambda>s. s\<lparr>tasks := dict_del (tasks s) tid\<rparr>)) (resume task outcome))"
| "coap_handle fl rep enc ks opts Cleanup = check_dead_nodes opts"

fun coap_enabled :: "coap_event \<Rightarrow> coap_gateway \<Rightarrow> bool" where
  "coap_enabled (Base ev) s \<longleftrightarrow> gateway_enabled ev s"
| "coap_enabled (Outcome tid _) s \<longleftrightarrow> dict_has (tasks s) tid"
| "coap_enabled _ s \<longleftrightarrow> True"

end
