(* ===== verification/Coap_Correct.thy ===== *)
theory Coap_Correct
  imports Coap_Gateway
begin

text \<open>
  The invariant of the CoAP gateway, for every state it can reach: the invariants of the cache
  and of the connection, every node object with an address in its resources, and a table of
  waiting coroutines in which exactly one belongs to the broker's message when the connection
  is handling one, and none otherwise.

  \<open>asks\<close> is the part of a step that the shared operations do not see: new coroutines are
  appended under new numbers, and none of them is one the connection waits for.
\<close>

section \<open>The invariant\<close>

definition ips_ok :: "'a gateway_scheme \<Rightarrow> bool" where
  "ips_ok s \<longleftrightarrow> (\<forall>r < fresh s. \<exists>a. dict_get (resources (objects s r)) (JStr ''ip'') = Some (JStr a))"

definition is_put :: "coap_task \<Rightarrow> bool" where
  "is_put task = (case task of AwaitPut _ _ _ \<Rightarrow> True | _ \<Rightarrow> False)"

fun task_node :: "coap_task \<Rightarrow> nat" where
  "task_node (AwaitCore r _) = r"
| "task_node (AwaitResource r _ _ _) = r"
| "task_node (AwaitPut r _ _) = r"

definition task_ok :: "(string \<Rightarrow> string) \<Rightarrow> coap_task \<Rightarrow> bool" where
  "task_ok fl task = (case task of AwaitPut _ k v \<Rightarrow> json_ok fl k \<and> (\<exists>s. v = JStr s) | _ \<Rightarrow> True)"

definition puts :: "coap_gateway \<Rightarrow> nat" where
  "puts s = length (filter is_put (map snd (tasks s)))"

definition tasks_ok :: "(string \<Rightarrow> string) \<Rightarrow> coap_gateway \<Rightarrow> bool" where
  "tasks_ok fl s \<longleftrightarrow> dict_ok (tasks s) \<and> (\<forall>(i, task) \<in> set (tasks s). i < next_task s \<and> task_ok fl task)"

definition coap_ok :: "(string \<Rightarrow> string) \<Rightarrow> coap_gateway \<Rightarrow> bool" where
  "coap_ok fl s \<longleftrightarrow> gateway_inv fl s \<and> ips_ok s \<and> tasks_ok fl s
     \<and> puts s = (if conn s = Handling then 1 else 0)"

section \<open>Steps that start no update\<close>

definition asks :: "(string \<Rightarrow> string) \<Rightarrow> coap_gateway \<Rightarrow> coap_gateway \<Rightarrow> bool" where
  "asks fl s t \<longleftrightarrow> (ips_ok s \<longrightarrow> ips_ok t) \<and> (tasks_ok fl s \<longrightarrow> tasks_ok fl t) \<and> puts t = puts s"

interpretation ask: state_preorder "asks fl"
  by unfold_locales (auto simp: asks_def)

lemma asks_same:
  "resources \<circ> objects t = resources \<circ> objects s \<Longrightarrow> fresh t = fresh s \<Longrightarrow> tasks t = tasks s \<Longrightarrow>
   next_task t = next_task s \<Longrightarrow> asks fl s t"
  by (auto simp: asks_def ips_ok_def tasks_ok_def puts_def fun_eq_iff)

named_theorems ask_keeps \<open>operations that start no update\<close>

lemmas ask_rules = ask.upholds_rules

lemma ask_send [ask_keeps]: "ask.upholds fl (send_to_broker m)"
  by (rule ask.upholdsI) (auto simp: send_to_broker_def intro!: asks_same split: option.splits link.splits)

lemma ask_get_object [ask_keeps]: "ask.upholds fl (get_object r)"
  unfolding get_object_def by (rule ask.upholds_gets)

lemma held_key_JStr:
  "held_key d k = JStr u \<longleftrightarrow> k = JStr u"
proof
  assume "held_key d k = JStr u"
  then have "canon k = JStr u" using canon_held_key [of d k] by simp
  then show "k = JStr u" by (cases k) (auto split: option.splits)
next
  assume "k = JStr u"
  moreover have "canon (held_key d (JStr u)) = JStr u" by (simp add: canon_held_key)
  then have "held_key d (JStr u) = JStr u" by (cases "held_key d (JStr u)") (auto split: option.splits)
  ultimately show "held_key d k = JStr u" by simp
qed

lemma ask_set_resource [ask_keeps]:
  assumes "k = JStr ''ip'' \<Longrightarrow> \<exists>a. v = JStr a"
  shows "ask.upholds fl (set_resource r k v)"
proof (rule ask.upholdsI)
  fix s :: coap_gateway
  show "asks fl s (snd (set_resource r k v s))"
  proof (cases "hashable k")
    case True
    have "ips_ok (snd (set_resource r k v s))" if "ips_ok s"
      using that assms held_key_JStr [of "resources (objects s r)" k "''ip''"] True
      by (auto simp: ips_ok_def set_resource_def get_object_def set_object_def set_resource_value_def
          py_run dict_get_put)
    with True show ?thesis
      by (simp add: asks_def tasks_ok_def puts_def set_resource_def get_object_def set_object_def
          set_resource_value_def py_run)
  next
    case False
    then show ?thesis
      by (simp add: set_resource_def get_object_def set_resource_value_def py_run ask.refl_state)
  qed
qed

lemma ask_forward [ask_keeps]:
  "(k = JStr ''ip'' \<Longrightarrow> \<exists>a. v = JStr a) \<Longrightarrow> ask.upholds fl (forward_data_from_node r k v)"
  unfolding forward_data_from_node_def by (intro ask_rules ask_keeps)

lemma ask_modify_maps [ask_keeps]:
  "ask.upholds fl (modify (\<lambda>s. s\<lparr>nodes := f s\<rparr>))"
  "ask.upholds fl (modify (\<lambda>s. s\<lparr>node_mapping := g s\<rparr>))"
  by (intro ask.upholds_modify asks_same; simp)+

lemma ask_remove_node [ask_keeps]: "ask.upholds fl (remove_node r)"
  unfolding remove_node_def by (intro ask_rules ask_keeps)

lemma ask_fetch [ask_keeps]: "ask.upholds fl (fetch_nodes_cache client)"
  unfolding fetch_nodes_cache_def send_cached_def by (intro ask_rules ask_keeps)

lemma ask_lookups [ask_keeps]:
  "ask.upholds fl (get_node u)" "ask.upholds fl (node_named v)" "ask.upholds fl (get_mapped a)"
  "ask.upholds fl (node_ip r)"
  unfolding get_node_def node_named_def get_mapped_def node_ip_def
  by (intro ask_rules ask_keeps)+

lemma ask_seen_now [ask_keeps]: "ask.upholds fl (seen_now r)"
  by (rule ask.upholdsI)
    (auto simp: seen_now_def get_object_def set_object_def update_last_seen_def py_run fun_eq_iff
      intro!: asks_same)

lemma ask_suspend [ask_keeps]:
  assumes "\<not> is_put task"
  shows "ask.upholds fl (suspend meth url payload task)"
proof (rule ask.upholdsI)
  fix s :: coap_gateway
  have "task_ok fl task" using assms by (auto simp: is_put_def task_ok_def split: coap_task.splits)
  then show "asks fl s (snd (suspend meth url payload task s))"
    using assms
    by (auto simp: suspend_def asks_def ips_ok_def tasks_ok_def puts_def dict_ok_def less_Suc_eq
        image_iff split_def)
qed

lemma ask_discover [ask_keeps]: "ask.upholds fl (discover_node rep opts r)"
  unfolding discover_node_def Let_def by (intro ask_rules ask_keeps) (simp add: is_put_def)

lemma ask_discover_next [ask_keeps]: "ask.upholds fl (discover_next r url es)"
  by (cases es) (auto simp: discover_next_def Let_def is_put_def intro!: ask_rules ask_keeps)

lemma ask_add_node [ask_keeps]: "ask.upholds fl (add_node coap_protocol (discover_node rep opts) r)"
  unfolding add_node_def by (intro ask_rules ask_keeps) simp

lemma ask_new_object [ask_keeps]: "ask.upholds fl (new_object u [(JStr ''ip'', JStr a)])"
  by (rule ask.upholdsI)
    (auto simp: new_object_def asks_def ips_ok_def tasks_ok_def puts_def node_init_def less_Suc_eq)

lemma ask_reset [ask_keeps]:
  "ask.upholds fl (reset_node coap_protocol (\<lambda>_. ret ()) r [(JStr ''ip'', JStr a)])"
proof -
  let ?d = "[(JStr ''protocol'', JStr coap_protocol), (JStr ''ip'', JStr a)]"
  have run: "reset_node coap_protocol (\<lambda>_. ret ()) r [(JStr ''ip'', JStr a)] =
    seq (bind (get_object r) (\<lambda>n. set_object r (n\<lparr>resources := ?d\<rparr>)))
        (bind (get_object r) (\<lambda>n. seq (send_to_broker (reset_node_msg (JStr (uid n)))) (ret ())))"
    by (rule ext)
      (simp add: reset_node_def get_object_def set_object_def set_resource_def set_resource_value_def
        hashable_def clear_resources_def held_key_def py_run)
  have "ask.upholds fl (bind (get_object r) (\<lambda>n. set_object r (n\<lparr>resources := ?d\<rparr>)))"
    by (rule ask.upholdsI)
      (auto simp: get_object_def set_object_def py_run asks_def ips_ok_def tasks_ok_def puts_def)
  then show ?thesis unfolding run by (rule ask.upholds_seq) (intro ask_rules ask_keeps)
qed

lemma ask_drop_node [ask_keeps]: "ask.upholds fl (drop_node r)"
proof -
  have "ask.upholds fl (pop_mapping v)" for v
    by (cases v) (auto simp: pop_mapping_def hashable_def intro!: ask_rules ask_keeps)
  then show ?thesis unfolding drop_node_def by (intro ask_rules ask_keeps)
qed

lemma ask_handlers [ask_keeps]:
  "ask.upholds fl (handle_coap_post addr k v)"
  "ask.upholds fl (handle_coap_check rep opts u addr reset)"
  "ask.upholds fl (check_dead_nodes opts)"
  "ask.upholds fl (core_received r url outcome)"
  unfolding handle_coap_post_def handle_coap_check_def check_dead_nodes_def core_received_def
  by ((intro ask_rules ask_keeps); simp)+

lemma ask_resource_received [ask_keeps]: "ask.upholds fl (resource_received r url path rest outcome)"
  by (cases "coap_resource outcome")
    (auto simp: resource_received_def intro!: ask_rules ask_keeps)

section \<open>The contract of the shared operations\<close>

lemma grows_extension [cache_keeps]:
  "cache.upholds fl (modify (\<lambda>s. s\<lparr>node_mapping := f s\<rparr>))"
  "cache.upholds fl (suspend meth url payload task)"
  by (auto simp: cache.upholds_def py_run suspend_def grows_def gateway_ok_def same_connection_def)

lemma keeps_discover [cache_keeps]:
  "cache.upholds fl (node_ip r)" "cache.upholds fl (discover_node rep opts r)"
  "cache.upholds fl (discover_next r url es)"
  unfolding node_ip_def discover_node_def Let_def
  by ((intro cache_rules cache_keeps)+)
    (cases es; auto simp: discover_next_def Let_def intro!: cache_rules cache_keeps)

lemma keeps_update: "cache.upholds fl (update_node_resource rep r k v)"
  unfolding update_node_resource_def by (intro cache_rules cache_keeps)

interpretation coap: gateway_protocol fl coap_protocol "discover_node rep opts" "\<lambda>_. ret ()" "update_node_resource rep"
  by unfold_locales (intro cache_rules cache_keeps keeps_update)+

lemma keeps_check [cache_keeps]: "cache.upholds fl (handle_coap_check rep opts u address reset)"
proof -
  have new: "cache.upholds fl (bind (new_object u [(JStr ''ip'', JStr address)]) (\<lambda>r.
         seq (modify (\<lambda>s. s\<lparr>node_mapping := dict_put (node_mapping s) address u\<rparr>))
         (add_node coap_protocol (discover_node rep opts) r)))"
  proof (rule cache.upholdsI)
    fix s :: coap_gateway
    obtain x t where t: "new_object u [(JStr ''ip'', JStr address)] s = (x, t)" by fastforce
    have x: "x = Inr (fresh s)" "grows fl s t" "fresh s < fresh t"
      using new_object_run [OF t, of fl] by (auto simp: hashable_def)
    have run: "new_object u [(JStr ''ip'', JStr address)] s = (Inr (fresh s), t)" using t x(1) by simp
    let ?t = "t\<lparr>node_mapping := dict_put (node_mapping t) address u\<rparr>"
    have "grows fl t ?t" by (simp add: grows_def gateway_ok_def same_connection_def)
    moreover have "grows fl ?t (snd (add_node coap_protocol (discover_node rep opts) (fresh s) ?t))"
      by (rule coap.add_node_keeps) (use x in simp)
    ultimately show "grows fl s (snd (bind (new_object u [(JStr ''ip'', JStr address)]) (\<lambda>r.
         seq (modify (\<lambda>s. s\<lparr>node_mapping := dict_put (node_mapping s) address u\<rparr>))
         (add_node coap_protocol (discover_node rep opts) r)) s))"
      using x(2) by (auto simp: bind_first [where m = "new_object u [(JStr ''ip'', JStr address)]", OF run] seq_modify intro: cache.trans_state)
  qed
  show ?thesis
    unfolding handle_coap_check_def get_mapped_def
    by (intro cache_rules cache_keeps new coap.reset_node_keeps) auto
qed

lemma keeps_coap [cache_keeps]:
  "cache.upholds fl (handle_coap_post addr k v)"
  "cache.upholds fl (core_received r url outcome)"
  unfolding handle_coap_post_def get_mapped_def core_received_def
  by ((intro cache_rules cache_keeps); simp)+

lemma keeps_drop [cache_keeps]: "cache.upholds fl (drop_node r)"
proof -
  have "cache.upholds fl (pop_mapping v)" for v
    by (cases v) (auto simp: pop_mapping_def hashable_def intro!: cache_rules cache_keeps)
  then show ?thesis unfolding drop_node_def by (intro cache_rules cache_keeps)
qed

lemma keeps_resource_received [cache_keeps]: "cache.upholds fl (resource_received r url path rest outcome)"
  by (cases "coap_resource outcome")
    (auto simp: resource_received_def intro!: cache_rules cache_keeps)

section \<open>Steps of the gateway\<close>

text \<open>
  A computation that may end by starting an update: it suspends exactly when it has appended
  the coroutine of one.
\<close>

definition ends_in_put :: "(string \<Rightarrow> string) \<Rightarrow> (coap_gateway, progress) py \<Rightarrow> bool" where
  "ends_in_put fl m \<longleftrightarrow> (\<forall>s. \<exists>t. asks fl s t \<and>
     (if fst (m s) = Inr Suspended
      then \<exists>task meth url bytes. is_put task \<and> task_ok fl task \<and> snd (m s) = snd (suspend meth url bytes task t)
      else snd (m s) = t))"

lemma ends_in_put_bind:
  assumes "ask.upholds fl m" and "\<And>x. ends_in_put fl (f x)"
  shows "ends_in_put fl (bind m f)"
  unfolding ends_in_put_def
proof
  fix s
  obtain r t where run: "m s = (r, t)" by fastforce
  then have st: "asks fl s t" using ask.upholds_run [OF assms(1)] by blast
  show "\<exists>t. asks fl s t \<and> (if fst (bind m f s) = Inr Suspended
      then \<exists>task meth url bytes. is_put task \<and> task_ok fl task \<and> snd (bind m f s) = snd (suspend meth url bytes task t)
      else snd (bind m f s) = t)"
  proof (cases r)
    case (Inl e)
    with run st show ?thesis by (auto simp: py_run)
  next
    case (Inr x)
    then have "bind m f s = f x t" using run by (simp add: py_run)
    with assms(2) [of x] st show ?thesis
      unfolding ends_in_put_def by (metis ask.trans_state)
  qed
qed

lemma ends_in_put_done: "ask.upholds fl m \<Longrightarrow> ends_in_put fl (seq m (ret Done))"
  unfolding seq_def
  by (rule ends_in_put_bind) (auto simp: ends_in_put_def py_run intro: ask.refl_state)

lemma ends_in_put_pure: "ends_in_put fl (ret Done)" "ends_in_put fl (raise e)"
  by (auto simp: ends_in_put_def py_run intro: ask.refl_state)

lemma ends_in_put_update:
  assumes "json_ok fl k"
  shows "ends_in_put fl (update_node_resource rep r k v)"
proof -
  have put: "ends_in_put fl (suspend meth url bytes (AwaitPut r k v))" if "v = JStr w" for meth url bytes w
    using assms that
    by (auto simp: ends_in_put_def suspend_def is_put_def task_ok_def intro!: exI ask.refl_state)
  have "ends_in_put fl (bind (lift (encode_ascii v)) (\<lambda>bytes. suspend PUT (url address) bytes (AwaitPut r k v)))"
    for url :: "json \<Rightarrow> string" and address
  proof (cases "encode_ascii v")
    case (Inr bytes)
    then obtain w where "v = JStr w" by (auto simp: encode_ascii_def split: json.splits)
    with Inr put show ?thesis by simp
  qed (simp add: ends_in_put_pure)
  then show ?thesis
    unfolding update_node_resource_def by (rule ends_in_put_bind [OF ask_lookups(4)])
qed

lemma ends_in_put_message:
  assumes "canonical_floats fl"
  shows "ends_in_put fl (on_broker_message fl (update_node_resource rep) m)"
proof (cases "loads fl m")
  case (Inl e)
  then show ?thesis by (simp add: on_broker_message_def ends_in_put_pure)
next
  case (Inr message)
  then have ok: "json_ok fl message" using loads_ok [OF assms] by blast
  have named: "ends_in_put fl (update_named (update_node_resource rep) data)" if "json_ok fl data" for data
  proof -
    have "ends_in_put fl (bind (lift (py_getitem data ''endpoint'')) (\<lambda>k.
      bind (lift (py_getitem data ''payload'')) (\<lambda>v. bind (node_named u) (\<lambda>found.
        case found of None \<Rightarrow> ret Done | Some r \<Rightarrow> update_node_resource rep r k v))))" for u
    proof (cases "py_getitem data ''endpoint''")
      case (Inr k)
      with that have "json_ok fl k" by (rule coap.getitem_ok)
      then have "ends_in_put fl (case found of None \<Rightarrow> ret Done | Some r \<Rightarrow> update_node_resource rep r k v)" for found v
        by (cases found) (auto simp: ends_in_put_pure ends_in_put_update)
      with Inr show ?thesis by (simp add: ends_in_put_bind ask_keeps ask.upholds_pure)
    qed (simp add: ends_in_put_pure)
    then show ?thesis unfolding update_named_def by (rule ends_in_put_bind [OF ask.upholds_lift])
  qed
  have upd: "ends_in_put fl (bind (lift (py_getitem message ''data'')) (update_named (update_node_resource rep)))"
  proof (cases "py_getitem message ''data''")
    case (Inr data)
    with ok have "json_ok fl data" by (rule coap.getitem_ok)
    with Inr named show ?thesis by simp
  qed (simp add: ends_in_put_pure)
  have skip: "ends_in_put fl (bind (lift (py_getitem message ''data'')) (\<lambda>_. ret Done))"
    by (intro ends_in_put_bind ask_rules ends_in_put_pure)
  have new: "ends_in_put fl (bind (lift (py_getitem message ''src'')) (\<lambda>src. seq (fetch_nodes_cache src) (ret Done)))"
    by (intro ends_in_put_bind ask_rules ends_in_put_done ask_keeps)
  show ?thesis
    using Inr upd skip new
    by (auto simp: on_broker_message_def intro!: ends_in_put_bind ask_rules)
qed

section \<open>Every event keeps the invariant\<close>

lemma gateway_inv_grows: "gateway_inv fl s \<Longrightarrow> grows fl s t \<Longrightarrow> gateway_inv fl t"
  by (auto simp: gateway_inv_def loop_ok_def grows_def same_connection_def)

lemma coap_ok_calm: "coap_ok fl s \<Longrightarrow> grows fl s t \<Longrightarrow> asks fl s t \<Longrightarrow> coap_ok fl t"
  by (auto simp: coap_ok_def asks_def grows_def same_connection_def intro: gateway_inv_grows)

lemma coap_ok_upholds:
  "coap_ok fl s \<Longrightarrow> cache.upholds fl m \<Longrightarrow> ask.upholds fl m \<Longrightarrow> coap_ok fl (snd (m s))"
  using coap_ok_calm cache.upholdsD ask.upholdsD by blast

lemma coap_ok_message:
  assumes "canonical_floats fl" and "coap_ok fl s" and "conn s = Reading"
  shows "coap_ok fl (snd (message_read fl (update_node_resource rep) (Some m) s))"
proof -
  let ?m = "on_broker_message fl (update_node_resource rep) m"
  obtain r t where run: "?m s = (r, t)" by fastforce
  have inv: "gateway_inv fl (snd (message_read fl (update_node_resource rep) (Some m) s))"
    using assms by (intro coap.message_read_inv) (auto simp: coap_ok_def)
  have p: "puts s = 0" "ips_ok s" "tasks_ok fl s" using assms(2,3) by (auto simp: coap_ok_def)
  obtain u where u: "asks fl s u" "if r = Inr Suspended
      then \<exists>task meth url bytes. is_put task \<and> task_ok fl task \<and> t = snd (suspend meth url bytes task u)
      else t = u"
    using ends_in_put_message [OF assms(1), of rep m] run unfolding ends_in_put_def
    by (metis fst_conv snd_conv)
  show ?thesis
  proof (cases "r = Inr Suspended")
    case True
    then obtain task meth url bytes where t: "is_put task" "task_ok fl task" "t = snd (suspend meth url bytes task u)"
      using u(2) by auto
    have "ips_ok t" "tasks_ok fl t" "puts t = 1"
      using p u(1) t
      by (auto simp: asks_def suspend_def ips_ok_def tasks_ok_def puts_def dict_ok_def less_Suc_eq image_iff split_def)
    with inv run True show ?thesis
      by (auto simp: coap_ok_def message_read_def in_loop_def py_run ips_ok_def tasks_ok_def puts_def)
  next
    case False
    then have "t = u" using u(2) by simp
    then have "ips_ok t" "tasks_ok fl t" "puts t = 0" using p u(1) by (auto simp: asks_def)
    moreover have "conn (snd (message_read fl (update_node_resource rep) (Some m) s)) \<noteq> Handling"
      using run False
      by (cases r) (auto simp: message_read_def in_loop_def py_run split: progress.splits)
    ultimately show ?thesis
      using inv run
      by (auto simp: coap_ok_def message_read_def in_loop_def py_run ips_ok_def tasks_ok_def puts_def
          split: sum.splits)
  qed
qed

lemma coap_ok_connection:
  assumes "coap_ok fl s" and "conn s = Connecting"
  shows "coap_ok fl (snd (connection_made enc ks outcome s))"
proof -
  let ?t = "s\<lparr>broker_link := Some Open, alive_timer := True\<rparr>"
  have "asks fl s ?t" by (rule asks_same) simp_all
  moreover have "asks fl ?t (snd (fetch_nodes_cache dst_all ?t))" by (rule ask.upholdsD) (rule ask_fetch)
  ultimately have a: "asks fl s (snd (fetch_nodes_cache dst_all ?t))" by (rule ask.trans_state)
  have inv: "gateway_inv fl (snd (connection_made enc ks outcome s))"
    using assms by (intro connection_made_inv) (auto simp: coap_ok_def)
  show ?thesis
  proof (cases "connect_outcome enc ks outcome")
    case (Inl e)
    with inv assms show ?thesis
      by (auto simp: connection_made_def in_loop_def py_run coap_ok_def ips_ok_def tasks_ok_def puts_def)
  next
    case (Inr x)
    obtain r t where "fetch_nodes_cache dst_all ?t = (r, t)" by fastforce
    with inv assms Inr a show ?thesis
      by (auto simp: connection_made_def in_loop_def py_run coap_ok_def asks_def ips_ok_def tasks_ok_def
          puts_def split: sum.splits)
  qed
qed

lemma coap_ok_base:
  assumes "canonical_floats fl" and "coap_ok fl s" and "gateway_enabled ev s"
  shows "coap_ok fl (snd (gateway_handle fl enc ks (update_node_resource rep) ev s))"
proof (cases ev)
  case (BrokerConnection outcome)
  with assms show ?thesis by (simp add: coap_ok_connection)
next
  case (BrokerMessage m)
  with assms show ?thesis by (simp add: coap_ok_message)
next
  case AliveTimer
  with assms show ?thesis
    by (simp add: send_alive_def coap_ok_upholds cache_keeps ask_keeps)
qed (use assms coap.gateway_handle_inv [of fl s ev enc ks] in
      \<open>auto simp: coap_ok_def message_read_def in_loop_def close_client_def py_run ips_ok_def tasks_ok_def puts_def\<close>)

lemma puts_del:
  assumes "dict_ok (tasks s)" and "dict_get (tasks s) i = Some task"
  shows "puts s = puts (s\<lparr>tasks := dict_del (tasks s) i\<rparr>) + (if is_put task then 1 else 0)"
proof -
  have "length (filter is_put (map snd d)) = length (filter is_put (map snd (dict_del d i))) + (if is_put task then 1 else 0)"
    if "dict_get d i = Some task" for d
    using that by (induction d) (auto split: if_splits)
  with assms(2) show ?thesis by (simp add: puts_def)
qed

lemma coap_ok_outcome:
  assumes "coap_ok fl s" and "dict_get (tasks s) i = Some task"
  shows "coap_ok fl (snd (resume task outcome (s\<lparr>tasks := dict_del (tasks s) i\<rparr>)))"
proof -
  let ?s = "s\<lparr>tasks := dict_del (tasks s) i\<rparr>"
  have ok: "gateway_inv fl ?s" "ips_ok ?s" "tasks_ok fl ?s" "task_ok fl task"
    and puts: "puts s = puts ?s + (if is_put task then 1 else 0)"
    using assms puts_del [of s i task]
    by (auto simp: coap_ok_def gateway_inv_def gateway_ok_def loop_ok_def ips_ok_def tasks_ok_def dict_ok_del
        dest: dict_delD map_of_SomeD)
  show ?thesis
  proof (cases task)
    case (AwaitPut r k v)
    then have h: "conn ?s = Handling" "puts ?s = 0" and kv: "json_ok fl k" "\<exists>a. v = JStr a"
      using assms(1) puts ok(4) by (auto simp: coap_ok_def is_put_def task_ok_def split: if_splits)
    have c: "cache.upholds fl (put_received r k v outcome)" and a: "ask.upholds fl (put_received r k v outcome)"
      unfolding put_received_def using kv by (intro cache_rules ask_rules cache_keeps ask_keeps; auto)+
    have "gateway_inv fl (snd (handler_ended (put_received r k v outcome) ?s))"
      by (rule coap.handler_ended_inv) (use ok h c in auto)
    moreover obtain x t where "put_received r k v outcome ?s = (x, t)" by fastforce
    moreover from this have "asks fl ?s t" using ask.upholds_run [OF a] by blast
    ultimately show ?thesis
      using AwaitPut h ok
      by (auto simp: resume_def coap_ok_def handler_ended_def in_loop_def py_run asks_def ips_ok_def
          tasks_ok_def puts_def split: sum.splits)
  next
    case (AwaitCore r url)
    then have "coap_ok fl ?s" using assms(1) ok puts by (simp add: coap_ok_def is_put_def)
    then show ?thesis
      unfolding AwaitCore resume_def coap_task.case
      by (rule coap_ok_upholds) (intro cache_rules ask_rules cache_keeps ask_keeps)+
  next
    case (AwaitResource r url path rest)
    then have "coap_ok fl ?s" using assms(1) ok puts by (simp add: coap_ok_def is_put_def)
    then show ?thesis
      unfolding AwaitResource resume_def coap_task.case
      by (rule coap_ok_upholds) (intro cache_rules ask_rules cache_keeps ask_keeps)+
  qed
qed

lemma coap_ok_handle:
  assumes "canonical_floats fl" and "coap_ok fl s" and "coap_enabled ev s"
  shows "coap_ok fl (snd (coap_handle fl rep enc ks opts ev s))"
proof (cases ev)
  case (Base x)
  with assms show ?thesis by (simp add: coap_ok_base)
next
  case (AlivePost addr bytes)
  then show ?thesis
    using assms(2) unfolding AlivePost coap_handle.simps alive_render_post_def
    by (rule_tac coap_ok_upholds) (intro cache_rules ask_rules cache_keeps ask_keeps | assumption)+
next
  case (ServerPost addr bytes)
  then show ?thesis
    using assms(2) unfolding ServerPost coap_handle.simps server_render_post_def
    by (rule_tac coap_ok_upholds) (intro cache_rules ask_rules cache_keeps ask_keeps | assumption)+
next
  case (Outcome i outcome)
  with assms show ?thesis
    by (auto simp: bind_gets seq_modify dict_has_def coap_ok_outcome split: option.splits)
next
  case Cleanup
  have "cache.upholds fl (check_dead_nodes opts)"
    unfolding check_dead_nodes_def by (intro cache_rules cache_keeps)
  with Cleanup assms(2) show ?thesis by (simp add: coap_ok_upholds ask_keeps)
qed

lemma coap_ok_init: "coap_ok fl (coap_init now)"
  using gateway_inv_init [of fl now]
  by (simp add: coap_ok_def coap_init_def gateway_init_def gateway.defs gateway_inv_def gateway_ok_def
      loop_ok_def ips_ok_def tasks_ok_def puts_def)

interpretation coap_service:
  service "coap_handle fl rep enc ks opts" coap_enabled "coap_init now" "\<lambda>s. canonical_floats fl \<longrightarrow> coap_ok fl s"
  by unfold_locales (auto simp: coap_ok_init coap_ok_handle)

end
