(* ===== verification/Coap_Properties.thy ===== *)
theory Coap_Properties
  imports Coap_Correct Gateway_View
begin

text \<open>
  The properties of the CoAP gateway, with witnesses on \<open>demo_coap\<close>: connected to the broker,
  with one cached node at one address.
\<close>

section \<open>A concrete state\<close>

definition demo_options :: coap_options where
  "demo_options = \<lparr>interface = Some ''tap0'', max_time = 120\<rparr>"

definition demo_coap :: coap_gateway where
  "demo_coap = \<lparr>clock = 1000 * ticks_per_second,
     objects = (\<lambda>_. node_init 0 [] [])
       (0 := node_init 0 ''n1'' [(JStr ''ip'', JStr ''fd00::1''), (JStr ''protocol'', JStr ''CoAP'')]),
     fresh = 1, nodes = [(''n1'', 0)], broker_link = Some Open, outbox = [], conn = Reading,
     alive_timer = True, node_mapping = [(''fd00::1'', ''n1'')], tasks = [], next_task = 0, requests = []\<rparr>"

lemma demo_coap_fields [simp]:
  "clock demo_coap = 1000 * ticks_per_second" "fresh demo_coap = 1" "nodes demo_coap = [(''n1'', 0)]"
  "broker_link demo_coap = Some Open" "outbox demo_coap = []" "conn demo_coap = Reading"
  "node_mapping demo_coap = [(''fd00::1'', ''n1'')]" "tasks demo_coap = []" "next_task demo_coap = 0"
  "requests demo_coap = []" "alive_timer demo_coap"
  "objects demo_coap 0 = node_init 0 ''n1'' [(JStr ''ip'', JStr ''fd00::1''), (JStr ''protocol'', JStr ''CoAP'')]"
  by (simp_all add: demo_coap_def)

lemma demo_coap_ok: "gateway_ok fl demo_coap"
proof -
  have "resources_ok fl (resources (objects demo_coap r))" for r
    by (auto simp: demo_coap_def node_init_def hashable_def)
  then show ?thesis by (auto simp: gateway_ok_def node_init_def)
qed

lemma demo_coap_current: "current demo_coap 0"
  by (simp add: current_def node_init_def)

section \<open>Every reachable state\<close>



section \<open>Alive messages\<close>

lemma new_object_eq:
  "new_object u res s =
     (Inr (fresh s), s\<lparr>objects := (objects s)(fresh s := node_init (clock s) u res), fresh := Suc (fresh s)\<rparr>)"
  by (simp add: new_object_def)

lemma discover_run:
  assumes "resource_value (objects s r) ''ip'' = Inr (JStr a)"
  shows "discover_node rep opts r s =
    suspend GET (coap_node_url opts a @ ''/.well-known/core'') [] (AwaitCore r (coap_node_url opts a)) s"
  using assms by (simp add: discover_node_def node_ip_def get_object_def py_format_def py_run Let_def)

lemma new_node_added:
  assumes "gateway_ok fl s" and "broker_link s = Some Open"
    and "objects s r = node_init now u [(JStr ''ip'', JStr a)]"
    and d: "d = [(JStr ''ip'', JStr a), (JStr ''protocol'', JStr coap_protocol)]"
  shows "add_node coap_protocol (discover_node rep opts) r s =
     suspend GET (coap_node_url opts a @ ''/.well-known/core'') [] (AwaitCore r (coap_node_url opts a))
       (s\<lparr>objects := (objects s)(r := node_init now u d), nodes := dict_put (nodes s) u r,
          outbox := outbox s @ cache_texts dst_all (node_init now u d)\<rparr>)"
proof -
  have run: "set_resource r (JStr ''protocol'') (JStr coap_protocol) s =
      (Inr (), s\<lparr>objects := (objects s)(r := node_init now u d)\<rparr>)"
    using assms(3) by (simp add: d set_resource_run hashable_def node_init_def held_key_def)
  show ?thesis
    using add_node_run [OF assms(2) run, of "discover_node rep opts"]
    by (simp add: discover_run [of _ _ a] resource_value_def node_init_def said_def d)
qed

lemma told_new_node:
  assumes "d = [(JStr ''ip'', JStr a), (JStr ''protocol'', JStr coap_protocol)]"
  shows "told fl (cache_texts dst_all (node_init now u d)) V =
    V(u \<mapsto> [JStr ''ip'' \<mapsto> JStr a, JStr ''protocol'' \<mapsto> JStr coap_protocol])"
  using told_cache_texts [of fl "node_init now u d" dst_all V]
  by (simp add: assms node_init_def hashable_def fun_upd_twist)

text \<open>The first message of a node, or what the gateway takes for one.\<close>

lemma new_node_run:
  assumes "gateway_ok fl s" and "broker_link s = Some Open" and "\<not> dict_has (node_mapping s) u"
    and d: "d = [(JStr ''ip'', JStr addr), (JStr ''protocol'', JStr coap_protocol)]"
  shows "\<exists>t. handle_coap_check rep opts u addr reset s = (Inr Suspended, t)
     \<and> nodes t = dict_put (nodes s) u (fresh s) \<and> node_mapping t = dict_put (node_mapping s) addr u
     \<and> tasks t = tasks s @ [(next_task s, AwaitCore (fresh s) (coap_node_url opts addr))]
     \<and> requests t = requests s @ [(GET, coap_node_url opts addr @ ''/.well-known/core'', [])]
     \<and> outbox t = outbox s @ cache_texts dst_all (node_init (clock s) u d)
     \<and> cached t = (cached s)(u \<mapsto> [JStr ''ip'' \<mapsto> JStr addr, JStr ''protocol'' \<mapsto> JStr coap_protocol])"
proof -
  let ?d = "[(JStr ''ip'', JStr addr)]"
  define s1 where "s1 = s\<lparr>objects := (objects s)(fresh s := node_init (clock s) u ?d), fresh := Suc (fresh s),
      node_mapping := dict_put (node_mapping s) addr u\<rparr>"
  have "grows fl s (snd (new_object u ?d s))"
    using new_object_run [of u ?d s _ _ fl] by (simp add: new_object_def hashable_def)
  then have ok: "gateway_ok fl s1" "broker_link s1 = Some Open"
    using assms(1,2) by (auto simp: s1_def grows_def new_object_def gateway_ok_def)
  define t where "t = snd (add_node coap_protocol (discover_node rep opts) (fresh s) s1)"
  note run = new_node_added [OF ok _ d, of "fresh s" "clock s" u rep opts]
  have t: "nodes t = dict_put (nodes s) u (fresh s)" "objects t = (objects s)(fresh s := node_init (clock s) u d)"
    "node_mapping t = dict_put (node_mapping s) addr u"
    "tasks t = tasks s @ [(next_task s, AwaitCore (fresh s) (coap_node_url opts addr))]"
    "requests t = requests s @ [(GET, coap_node_url opts addr @ ''/.well-known/core'', [])]"
    "outbox t = outbox s @ cache_texts dst_all (node_init (clock s) u d)"
    using run by (simp_all add: t_def suspend_def s1_def)
  have check: "handle_coap_check rep opts u addr reset s = (Inr Suspended, t)"
    using assms(3) run
    by (simp add: handle_coap_check_def bind_gets bind_first [OF new_object_eq] seq_modify s1_def t_def suspend_def)
  have old: "r \<noteq> fresh s" if "dict_get (nodes s) w = Some r" for w r
    using gateway_ok_node [OF assms(1) that] by simp
  have "cached t w = ((cached s)(u \<mapsto> [JStr ''ip'' \<mapsto> JStr addr, JStr ''protocol'' \<mapsto> JStr coap_protocol])) w" for w
    using assms(1) old
    by (cases "dict_get (nodes s) w") (auto simp: t cached_def dict_get_put node_init_def d fun_upd_twist)
  then have "cached t = (cached s)(u \<mapsto> [JStr ''ip'' \<mapsto> JStr addr, JStr ''protocol'' \<mapsto> JStr coap_protocol])" by blast
  with check t show ?thesis by blast
qed

text \<open>Without a connection sending does nothing, over a lost one it raises.\<close>

lemma not_sent:
  "broker_link s = None \<Longrightarrow> send_to_broker m s = (Inr (), s)"
  "broker_link s = Some Closed \<Longrightarrow> send_to_broker m s = (Inl WebSocketClosedError, s)"
  by (simp_all add: send_to_broker_def)

lemma none_sent: "broker_link s = None \<Longrightarrow> for_each d (\<lambda>(res, v). send_to_broker (m res v)) s = (Inr (), s)"
  by (induction d) (auto simp: py_run not_sent)

lemma new_node_offline:
  assumes "gateway_ok fl s" and "broker_link s \<noteq> Some Open" and "\<not> dict_has (node_mapping s) u"
  shows "\<exists>t. handle_coap_check rep opts u addr reset s =
        (if broker_link s = None then Inr Suspended else Inl WebSocketClosedError, t)
     \<and> nodes t = dict_put (nodes s) u (fresh s) \<and> node_mapping t = dict_put (node_mapping s) addr u
     \<and> tasks t = tasks s @ (if broker_link s = None then [(next_task s, AwaitCore (fresh s) (coap_node_url opts addr))] else [])
     \<and> requests t = requests s @ (if broker_link s = None then [(GET, coap_node_url opts addr @ ''/.well-known/core'', [])] else [])
     \<and> outbox t = outbox s
     \<and> cached t = (cached s)(u \<mapsto> [JStr ''ip'' \<mapsto> JStr addr, JStr ''protocol'' \<mapsto> JStr coap_protocol])"
proof -
  let ?d = "[(JStr ''ip'', JStr addr)]"
  define d where "d = ?d @ [(JStr ''protocol'', JStr coap_protocol)]"
  define s1 where "s1 = s\<lparr>objects := (objects s)(fresh s := node_init (clock s) u ?d), fresh := Suc (fresh s),
      node_mapping := dict_put (node_mapping s) addr u\<rparr>"
  define s2 where "s2 = s1\<lparr>objects := (objects s)(fresh s := node_init (clock s) u d), nodes := dict_put (nodes s1) u (fresh s)\<rparr>"
  have fields: "uid (node_init (clock s) u d) = u" "resources (node_init (clock s) u d) = d" by (simp_all add: node_init_def)
  define t where "t = (if broker_link s = None
      then snd (suspend GET (coap_node_url opts addr @ ''/.well-known/core'') [] (AwaitCore (fresh s) (coap_node_url opts addr)) s2)
      else s2)"
  have link: "broker_link s2 = broker_link s" by (simp add: s2_def s1_def)
  have set: "set_resource (fresh s) (JStr ''protocol'') (JStr coap_protocol) s1 =
      (Inr (), s1\<lparr>objects := (objects s)(fresh s := node_init (clock s) u d)\<rparr>)"
    by (simp add: s1_def d_def set_resource_run hashable_def node_init_def held_key_def)
  have "add_node coap_protocol (discover_node rep opts) (fresh s) s1 =
      (if broker_link s = None then Inr Suspended else Inl WebSocketClosedError, t)"
  proof (cases "broker_link s = None")
    case True
    have "discover_node rep opts (fresh s) s2 =
        suspend GET (coap_node_url opts addr @ ''/.well-known/core'') [] (AwaitCore (fresh s) (coap_node_url opts addr)) s2"
      by (rule discover_run) (simp add: s2_def d_def resource_value_def node_init_def)
    moreover have n: "broker_link s2 = None" using True link by simp
    have "seq (send_to_broker m) k s2 = k s2" "seq (for_each d (\<lambda>(res, v). send_to_broker (m' res v))) k s2 = k s2"
      for m m' and d :: "(json \<times> json) list" and k :: "(coap_gateway, progress) py"
      by (simp add: seq_run not_sent(1) [OF n], simp add: seq_run none_sent [OF n, of d m'])
    ultimately show ?thesis
      using True
      by (simp add: add_node_def seq_first [where m = "set_resource (fresh s) _ _", OF set] get_object_def bind_gets
          seq_modify s2_def [symmetric] fields t_def suspend_def)
  next
    case False
    then have n: "broker_link s2 = Some Closed" using assms(2) link by (metis link.exhaust option.exhaust)
    have "seq (send_to_broker m) k s2 = (Inl WebSocketClosedError, s2)" for m and k :: "(coap_gateway, progress) py"
      using not_sent(2) [OF n] by (simp add: seq_run)
    then show ?thesis
      using False
      by (simp add: add_node_def seq_first [where m = "set_resource (fresh s) _ _", OF set] get_object_def bind_gets
          seq_modify s2_def [symmetric] fields t_def)
  qed
  then have "handle_coap_check rep opts u addr reset s =
      (if broker_link s = None then Inr Suspended else Inl WebSocketClosedError, t)"
    using assms(3) by (simp add: handle_coap_check_def bind_gets bind_first [OF new_object_eq] seq_modify s1_def)
  moreover have t: "nodes t = dict_put (nodes s) u (fresh s)" "objects t = (objects s)(fresh s := node_init (clock s) u d)"
    "node_mapping t = dict_put (node_mapping s) addr u" "outbox t = outbox s"
    "tasks t = tasks s @ (if broker_link s = None then [(next_task s, AwaitCore (fresh s) (coap_node_url opts addr))] else [])"
    "requests t = requests s @ (if broker_link s = None then [(GET, coap_node_url opts addr @ ''/.well-known/core'', [])] else [])"
    by (simp_all add: t_def suspend_def s2_def s1_def)
  moreover have old: "r \<noteq> fresh s" if "dict_get (nodes s) w = Some r" for w r
    using gateway_ok_node [OF assms(1) that] by simp
  have "cached t w = ((cached s)(u \<mapsto> [JStr ''ip'' \<mapsto> JStr addr, JStr ''protocol'' \<mapsto> JStr coap_protocol])) w" for w
    using assms(1) old
    by (cases "dict_get (nodes s) w") (auto simp: t cached_def dict_get_put node_init_def d_def fun_upd_twist)
  then have "cached t = (cached s)(u \<mapsto> [JStr ''ip'' \<mapsto> JStr addr, JStr ''protocol'' \<mapsto> JStr coap_protocol])" by blast
  ultimately show ?thesis by blast
qed



end
