(* ===== verification/Composition.thy ===== *)
theory Composition
  imports Broker_Routing Coap_Properties "HOL-Library.Sublist"
begin

text \<open>
  The broker and one CoAP gateway together, over one connection.  The state is the two
  states and, for each direction, how many of the texts written to the connection the other
  side has read; websockets deliver in order.  A step is a step of one side, or the next text
  of one direction is read.  Clients come, go and write at any time, and so do the nodes.
\<close>

section \<open>The system\<close>

record system =
  hub :: broker
  edge :: coap_gateway
  read_down :: nat
  read_up :: nat

definition at_hub :: "(broker, unit) py \<Rightarrow> (system, unit) py" where
  "at_hub m s = (case m (hub s) of (r, t) \<Rightarrow> (r, s\<lparr>hub := t\<rparr>))"

definition at_edge :: "(coap_gateway, unit) py \<Rightarrow> (system, unit) py" where
  "at_edge m s = (case m (edge s) of (r, t) \<Rightarrow> (r, s\<lparr>edge := t\<rparr>))"

definition texts_to :: "ws \<Rightarrow> broker \<Rightarrow> string list" where
  "texts_to w b = map snd (filter (\<lambda>p. fst p = w) (sent b))"

text \<open>The gateway's connection, as the broker sees it.\<close>

definition link_ws :: ws where "link_ws = 0"

lemma at_side_snd [simp]:
  "snd (at_hub m s) = s\<lparr>hub := snd (m (hub s))\<rparr>"
  "snd (at_edge m' s) = s\<lparr>edge := snd (m' (edge s))\<rparr>"
  by (simp_all add: at_hub_def at_edge_def split: prod.split)

datatype system_event = Hub broker_event | Edge coap_event | Down | Up

fun system_handle ::
  "(string \<Rightarrow> string) \<Rightarrow> (json \<Rightarrow> string) \<Rightarrow> fernet \<Rightarrow> keys \<Rightarrow> coap_options \<Rightarrow>
   system_event \<Rightarrow> (system, unit) py" where
  "system_handle fl rep enc ks opts (Hub e) = at_hub (broker_handle fl e)"
| "system_handle fl rep enc ks opts (Edge e) = at_edge (coap_handle fl rep enc ks opts e)"
| "system_handle fl rep enc ks opts Down =
     bind (gets (\<lambda>s. texts_to link_ws (hub s) ! read_down s)) (\<lambda>m.
     seq (modify (\<lambda>s. s\<lparr>read_down := Suc (read_down s)\<rparr>))
     (at_edge (coap_handle fl rep enc ks opts (Base (BrokerMessage m)))))"
| "system_handle fl rep enc ks opts Up =
     bind (gets (\<lambda>s. outbox (edge s) ! read_up s)) (\<lambda>m.
     seq (modify (\<lambda>s. s\<lparr>read_up := Suc (read_up s)\<rparr>))
     (at_hub (broker_handle fl (GatewayMessage link_ws (Text m)))))"

text \<open>
  Within the life of the connection: the gateway hears of the broker only through \<open>Down\<close>, the
  broker of the gateway only through \<open>Up\<close>, and no other gateway connects.
\<close>

fun is_client_event :: "broker_event \<Rightarrow> bool" where
  "is_client_event (ClientOpen w _) \<longleftrightarrow> True"
| "is_client_event (ClientMessage w _) \<longleftrightarrow> True"
| "is_client_event (ClientClose w) \<longleftrightarrow> True"
| "is_client_event (ConnectionLost w) \<longleftrightarrow> True"
| "is_client_event _ \<longleftrightarrow> False"

fun is_local_event :: "coap_event \<Rightarrow> bool" where
  "is_local_event (Base (BrokerConnection _)) \<longleftrightarrow> False"
| "is_local_event (Base (BrokerMessage _)) \<longleftrightarrow> False"
| "is_local_event _ \<longleftrightarrow> True"

fun system_enabled :: "system_event \<Rightarrow> system \<Rightarrow> bool" where
  "system_enabled (Hub e) s \<longleftrightarrow> is_client_event e \<and> broker_enabled e (hub s)"
| "system_enabled (Edge e) s \<longleftrightarrow> is_local_event e \<and> coap_enabled e (edge s)"
| "system_enabled Down s \<longleftrightarrow>
     read_down s < length (texts_to link_ws (hub s)) \<and> conn (edge s) = Reading"
| "system_enabled Up s \<longleftrightarrow> read_up s < length (outbox (edge s)) \<and> dict_has (gateways (hub s)) link_ws"

definition system_start :: "(string \<Rightarrow> string) \<Rightarrow> fernet \<Rightarrow> keys \<Rightarrow> (json \<Rightarrow> string) \<Rightarrow> coap_options \<Rightarrow> int \<Rightarrow> system" where
  "system_start fl enc ks rep opts now =
     \<lparr>hub = snd (broker_handle fl (GatewayOpen link_ws) (broker_init ks)),
      edge = snd (coap_handle fl rep enc ks opts (Base (BrokerConnection (Inr ()))) (coap_init now)),
      read_down = 0, read_up = 0\<rparr>"

section \<open>What the sides write\<close>

interpretation talks: state_preorder "\<lambda>s t. \<exists>ms. outbox t = outbox s @ ms"
  by unfold_locales auto

lemma talks_cache: "cache.upholds fl m \<Longrightarrow> talks.upholds m"
  by (auto simp: cache.upholds_def talks.upholds_def grows_def)

lemma talks_in_loop: "talks.upholds m \<Longrightarrow> talks.upholds (in_loop m)"
  by (auto simp: talks.upholds_def in_loop_def split: prod.splits sum.splits)
    (metis snd_conv)+

lemma talks_base:
  assumes "canonical_floats fl"
  shows "talks.upholds (gateway_handle fl enc ks (update_node_resource rep) ev)"
proof -
  have quiet: "talks.upholds (modify f)" if "\<And>s. outbox (f s) = outbox s" for f
    using that by (intro talks.upholds_modify) auto
  show ?thesis
    by (cases ev)
      (auto simp: connection_made_def message_read_def send_alive_def close_client_def
        intro!: talks_in_loop talks.upholds_rules quiet talks_cache [OF keeps_fetch] talks_cache [OF keeps_send]
          talks_cache [OF coap.on_broker_message_keeps [OF assms]] split: sum.splits)
qed

lemma talks_resume:
  assumes "task_ok fl task"
  shows "talks.upholds (resume task outcome)"
proof (cases task)
  case (AwaitPut r k v)
  then have "cache.upholds fl (put_received r k v outcome)"
    using assms unfolding put_received_def by (intro cache_rules cache_keeps) (auto simp: task_ok_def)
  with AwaitPut show ?thesis
    by (simp add: resume_def handler_ended_def)
      (rule talks_in_loop, rule talks.upholds_seq, erule talks_cache, rule talks.upholds_ret)
qed (auto simp: resume_def intro!: talks.upholds_seq talks.upholds_ret talks_cache [of fl, OF keeps_coap(2)]
      talks_cache [of fl, OF keeps_resource_received])

lemma talks_coap:
  assumes "canonical_floats fl" and "coap_ok fl s"
  shows "\<exists>ms. outbox (snd (coap_handle fl rep enc ks opts ev s)) = outbox s @ ms"
proof (cases ev)
  case (Base x)
  then show ?thesis using talks.upholdsD [OF talks_base [OF assms(1)]] by simp
next
  case (AlivePost addr bytes)
  have "cache.upholds fl (seq (alive_render_post rep opts addr bytes) (ret ()))"
    unfolding alive_render_post_def by (intro cache_rules cache_keeps)
  with AlivePost show ?thesis using talks.upholdsD [OF talks_cache] by simp
next
  case (ServerPost addr bytes)
  have "cache.upholds fl (seq (server_render_post addr bytes) (ret ()))"
    unfolding server_render_post_def by (intro cache_rules cache_keeps)
  with ServerPost show ?thesis using talks.upholdsD [OF talks_cache] by simp
next
  case (Outcome i outcome)
  have "task_ok fl task" if "dict_get (tasks s) i = Some task" for task
    using map_of_SomeD [OF that] assms(2) by (auto simp: coap_ok_def tasks_ok_def)
  then have "\<exists>ms. outbox (snd (resume task outcome (s\<lparr>tasks := dict_del (tasks s) i\<rparr>))) = outbox s @ ms"
    if "dict_get (tasks s) i = Some task" for task
    using talks.upholdsD [OF talks_resume, of fl task outcome "s\<lparr>tasks := dict_del (tasks s) i\<rparr>"] that by simp
  then show ?thesis
    by (cases "dict_get (tasks s) i") (simp_all add: Outcome bind_gets seq_modify ret_run)
next
  case Cleanup
  have "cache.upholds fl (check_dead_nodes opts)"
    unfolding check_dead_nodes_def by (intro cache_rules cache_keeps)
  with Cleanup show ?thesis using talks.upholdsD [OF talks_cache] by simp
qed

text \<open>A client's event writes to gateways only and leaves their table alone.\<close>

lemma client_event_run:
  assumes "broker_ok s" and "is_client_event e"
  shows "gateways (snd (broker_handle fl e s)) = gateways s
    \<and> (\<exists>xs. sent (snd (broker_handle fl e s)) = sent s @ xs \<and> fst ` set xs \<subseteq> fst ` set (gateways s))"
proof (cases e)
  case (ClientMessage w raw)
  have forward: "gateways (snd (on_client_message w m s)) = gateways s
    \<and> (\<exists>xs. sent (snd (on_client_message w m s)) = sent s @ xs \<and> fst ` set xs \<subseteq> fst ` set (gateways s))" for m
    by (auto simp: on_client_message_def py_run write_each_run comp_def dest!: set_takeWhileD split: sum.split)
  then show ?thesis
    by (auto simp: ClientMessage client_on_message_def close_ws_def py_run split: sum.split option.split)
next
  case (ClientClose w)
  then show ?thesis
    by (auto simp: client_on_close_def set_up_def remove_ws_def py_run split: sum.split)
qed (use assms(2) in \<open>auto simp: client_open_def set_up_def py_run\<close>)

text \<open>A gateway's text is written at most once to each connection, and no other text is.\<close>

definition writes_once :: "string \<Rightarrow> broker \<Rightarrow> broker \<Rightarrow> bool" where
  "writes_once msg s t \<longleftrightarrow>
     (\<exists>xs. sent t = sent s @ xs \<and> distinct (map fst xs) \<and> (\<forall>p \<in> set xs. snd p = msg))"

lemma broadcast_once: "broker_ok s \<Longrightarrow> writes_once msg s (snd (broadcast msg s))"
proof -
  assume ok: "broker_ok s"
  have "map fst (deliveries s msg) = map snd (takeWhile (\<lambda>(u, w). up s w) (clients s))"
    by (simp add: deliveries_def comp_def split_def)
  then have "distinct (map fst (deliveries s msg))"
    using distinct_take [OF clients_distinct [OF ok], of "length (takeWhile (\<lambda>(u, w). up s w) (clients s))"]
      takeWhile_eq_take [of "\<lambda>(u, w). up s w" "clients s"] by (simp add: take_map)
  then show ?thesis
    by (auto simp: writes_once_def broadcast_run [OF ok] deliveries_def)
qed

lemma deliver_once: "broker_ok s \<Longrightarrow> writes_once (serialize m) s (snd (deliver m s))"
proof -
  assume ok: "broker_ok s"
  have "writes_once msg s (snd (send_to_client uid msg s))" for uid msg
    by (auto simp: send_to_client_def py_run write_message_def writes_once_def split: sum.split)
  moreover have "writes_once msg s s" for msg by (simp add: writes_once_def)
  ultimately show ?thesis
    using broadcast_once [OF ok] by (auto simp: deliver_def py_run split: sum.split)
qed

lemma gateway_message_once:
  assumes "broker_ok s"
  shows "writes_once (serialize m) s (snd (on_gateway_message w m s))
    \<and> map fst (gateways (snd (on_gateway_message w m s))) = map fst (gateways s)"
  using on_gateway_message_outcome [OF assms, of m w] unfolding gateway_outcome_def
proof (elim disjE exE conjE)
  fix r
  assume "on_gateway_message w m s = (r, s)"
  then show ?thesis by (simp add: writes_once_def)
next
  fix t
  assume t: "regrouped s t" and "on_gateway_message w m s = deliver m t"
  moreover have "same_tables t (snd (deliver m t))" using tables_deliver by (rule tables.upholdsD)
  ultimately show ?thesis
    using deliver_once [of t m] by (simp add: regrouped_def writes_once_def same_tables_def)
next
  fix t
  assume t: "regrouped s t" and "on_gateway_message w m s = broadcast (serialize m) t"
  moreover have "same_tables t (snd (broadcast (serialize m) t))" using tables_broadcast by (rule tables.upholdsD)
  ultimately show ?thesis
    using broadcast_once [of t "serialize m"] by (simp add: regrouped_def writes_once_def same_tables_def)
qed

section \<open>The invariant\<close>

text \<open>What the broker makes of a text it relays: it writes the value again.\<close>

definition rewritten :: "(string \<Rightarrow> string) \<Rightarrow> string \<Rightarrow> string" where
  "rewritten fl x = (case loads fl x of Inr v \<Rightarrow> serialize v | Inl _ \<Rightarrow> x)"

lemma texts_append: "sent t = sent s @ xs \<Longrightarrow> texts_to w t = texts_to w s @ map snd (filter (\<lambda>p. fst p = w) xs)"
  by (simp add: texts_to_def)

lemma writes_once_texts:
  assumes "writes_once msg s t"
  shows "texts_to w t = texts_to w s \<or> texts_to w t = texts_to w s @ [msg]"
proof -
  obtain xs where xs: "sent t = sent s @ xs" "distinct (map fst xs)" "\<forall>p \<in> set xs. snd p = msg"
    using assms by (auto simp: writes_once_def)
  from xs(2,3) have "map snd (filter (\<lambda>p. fst p = w) xs) \<in> {[], [msg]}"
    by (induction xs) (force simp: filter_empty_conv)+
  with xs(1) show ?thesis by (auto simp: texts_append)
qed

lemma gateway_text_relayed:
  assumes "broker_ok s" and t: "t = snd (broker_handle fl (GatewayMessage w (Text x)) s)"
  shows "(\<forall>c. texts_to c t = texts_to c s \<or> texts_to c t = texts_to c s @ [rewritten fl x])
    \<and> map fst (gateways t) = map fst (gateways s)"
proof (cases "check_message fl (Text x)")
  case (Inr p)
  obtain m r where p: "p = (m, r)" by fastforce
  show ?thesis
  proof (cases m)
    case (Some v)
    with Inr p have "loads fl x = Inr v" by (auto dest: check_message_Some)
    then have "serialize v = rewritten fl x" by (simp add: rewritten_def)
    with Inr p Some gateway_message_once [OF assms(1), of v w] show ?thesis
      by (simp add: t gateway_on_message_def py_run writes_once_texts)
  qed (simp add: t Inr p gateway_on_message_def close_ws_def py_run texts_to_def)
qed (simp add: t gateway_on_message_def py_run)

definition in_order :: "(string \<Rightarrow> string) \<Rightarrow> system \<Rightarrow> bool" where
  "in_order fl s \<longleftrightarrow> read_up s \<le> length (outbox (edge s))
     \<and> (\<forall>c. c \<noteq> link_ws \<longrightarrow> subseq (texts_to c (hub s)) (map (rewritten fl) (take (read_up s) (outbox (edge s)))))"

definition system_ok :: "(string \<Rightarrow> string) \<Rightarrow> system \<Rightarrow> bool" where
  "system_ok fl s \<longleftrightarrow> broker_ok (hub s) \<and> coap_ok fl (edge s)
     \<and> map fst (gateways (hub s)) = [link_ws] \<and> in_order fl s"


lemma in_order_more:
  assumes "in_order fl s" and "\<exists>ms. outbox t = outbox (edge s) @ ms"
  shows "in_order fl (s\<lparr>edge := t\<rparr>)"
  using assms by (auto simp: in_order_def)

lemma in_order_hub:
  assumes "in_order fl s" and "\<And>c. c \<noteq> link_ws \<Longrightarrow> texts_to c b = texts_to c (hub s)"
  shows "in_order fl (s\<lparr>hub := b\<rparr>)"
  using assms by (simp add: in_order_def)

lemma edge_step:
  assumes "canonical_floats fl" and "system_ok fl s" and "coap_enabled e (edge s)"
  shows "system_ok fl (s\<lparr>edge := snd (coap_handle fl rep enc ks opts e (edge s))\<rparr>)"
  using assms coap_ok_handle [OF assms(1) _ assms(3)] in_order_more [of fl s] talks_coap [OF assms(1)]
  by (simp add: system_ok_def)

lemma hub_step:
  assumes "system_ok fl s" and "is_client_event e" and "broker_enabled e (hub s)"
  shows "system_ok fl (s\<lparr>hub := snd (broker_handle fl e (hub s))\<rparr>)"
proof -
  let ?b = "snd (broker_handle fl e (hub s))"
  have ok: "broker_ok (hub s)" and g: "map fst (gateways (hub s)) = [link_ws]" and o: "in_order fl s"
    using assms(1) by (simp_all add: system_ok_def)
  have keys: "fst ` set (gateways (hub s)) = {link_ws}" using arg_cong [OF g, of set] by simp
  have run: "gateways ?b = gateways (hub s)"
    "\<exists>xs. sent ?b = sent (hub s) @ xs \<and> fst ` set xs \<subseteq> {link_ws}"
    using client_event_run [OF ok assms(2), of fl] keys by auto
  have "in_order fl (s\<lparr>hub := ?b\<rparr>)"
    using run(2) by (intro in_order_hub [OF o]) (force simp: texts_to_def filter_empty_conv)
  with assms(1) run(1) broker_handle_keeps [OF ok assms(3)] show ?thesis
    by (simp add: system_ok_def)
qed

lemma up_step:
  assumes "system_ok fl s" and "system_enabled Up s"
  shows "system_ok fl (snd (system_handle fl rep enc ks opts Up s))"
proof -
  let ?x = "outbox (edge s) ! read_up s"
  let ?b = "snd (broker_handle fl (GatewayMessage link_ws (Text ?x)) (hub s))"
  have ok: "broker_ok (hub s)" and o: "in_order fl s" and n: "read_up s < length (outbox (edge s))"
    using assms by (simp_all add: system_ok_def)
  note relay = gateway_text_relayed [OF ok refl, of fl link_ws ?x]
  have "broker_enabled (GatewayMessage link_ws (Text ?x)) (hub s)" using assms(2) by simp
  from broker_handle_keeps [OF ok this] have "broker_ok ?b" .
  moreover have "in_order fl (s\<lparr>read_up := Suc (read_up s), hub := ?b\<rparr>)"
    unfolding in_order_def
  proof (intro conjI allI impI)
    fix c
    assume "c \<noteq> link_ws"
    then have "subseq (texts_to c (hub s)) (map (rewritten fl) (take (read_up s) (outbox (edge s))))"
      using o by (simp add: in_order_def)
    then have "subseq (texts_to c (hub s) @ ys) (map (rewritten fl) (take (read_up s) (outbox (edge s))) @ [rewritten fl ?x])"
      if "ys = [] \<or> ys = [rewritten fl ?x]" for ys
      using that by (intro list_emb_append_mono) auto
    from this [of "[]"] this [of "[rewritten fl ?x]"]
    have "subseq (texts_to c ?b) (map (rewritten fl) (take (read_up s) (outbox (edge s))) @ [rewritten fl ?x])"
      using relay by (metis append_Nil2)
    moreover have "take (Suc (read_up s)) (outbox (edge s)) = take (read_up s) (outbox (edge s)) @ [?x]"
      using n by (simp add: take_Suc_conv_app_nth)
    ultimately show "subseq (texts_to c (hub (s\<lparr>read_up := Suc (read_up s), hub := ?b\<rparr>)))
        (map (rewritten fl) (take (read_up (s\<lparr>read_up := Suc (read_up s), hub := ?b\<rparr>))
          (outbox (edge (s\<lparr>read_up := Suc (read_up s), hub := ?b\<rparr>)))))"
      by simp
  qed (use n in simp)
  ultimately show ?thesis
    using assms(1) relay
    by (simp add: system_ok_def bind_gets seq_modify del: broker_handle.simps)
qed

lemma system_step_ok:
  assumes "canonical_floats fl" and "system_ok fl s" and "system_enabled e s"
  shows "system_ok fl (snd (system_handle fl rep enc ks opts e s))"
proof (cases e)
  case (Hub x)
  with assms hub_step [OF assms(2), of x] show ?thesis by simp
next
  case (Edge x)
  with assms edge_step [OF assms(1,2), of x] show ?thesis by simp
next
  case Down
  let ?m = "texts_to link_ws (hub s) ! read_down s"
  have "system_ok fl (s\<lparr>read_down := Suc (read_down s)\<rparr>)" using assms(2) by (simp add: system_ok_def in_order_def)
  from edge_step [OF assms(1) this, of "Base (BrokerMessage ?m)" rep enc ks opts] assms(3) Down show ?thesis
    by (simp add: bind_gets seq_modify)
next
  case Up
  with assms show ?thesis using up_step by simp
qed

interpretation whole: service "system_handle fl rep enc ks opts" system_enabled "system_start fl enc ks rep opts now"
  "\<lambda>s. canonical_floats fl \<longrightarrow> system_ok fl s"
proof unfold_locales
  show "canonical_floats fl \<longrightarrow> system_ok fl (system_start fl enc ks rep opts now)"
  proof
    assume fl: "canonical_floats fl"
    have "coap_ok fl (edge (system_start fl enc ks rep opts now))"
      using coap_ok_handle [OF fl coap_ok_init [of fl now], of "Base (BrokerConnection (Inr ()))" rep enc ks opts]
      by (simp add: system_start_def coap_init_def gateway_init_def gateway.defs)
    moreover have "broker_ok (hub (system_start fl enc ks rep opts now))"
      using broker_handle_keeps [OF broker_service.start_good, of "GatewayOpen link_ws" ks fl]
      by (simp add: system_start_def broker_init_def)
    ultimately show "system_ok fl (system_start fl enc ks rep opts now)"
      by (simp add: system_ok_def in_order_def system_start_def texts_to_def broker_init_def py_run set_up_def gateway_open_def)
  qed
qed (auto simp: system_step_ok)

end
