(* ===== verification/Composition_Properties.thy ===== *)
theory Composition_Properties
  imports Composition
begin

text \<open>
  What the broker and a CoAP gateway achieve together: texts reach the clients in order, and a
  client that asks for the nodes is told the gateway's cache.
\<close>

section \<open>A run of the gateway's texts through the broker\<close>

text \<open>The broker is ready to serve the client \<open>u\<close> on the connection \<open>c\<close>.\<close>

definition serves :: "ws \<Rightarrow> string \<Rightarrow> broker \<Rightarrow> bool" where
  "serves c u b \<longleftrightarrow> broker_ok b \<and> clients_up b \<and> dict_get (clients b) (JStr u) = Some c
     \<and> dict_get (gateways b) link_ws \<noteq> None"

definition relay_at :: "ws \<Rightarrow> (string \<Rightarrow> string) \<Rightarrow> string \<Rightarrow> broker \<Rightarrow> broker" where
  "relay_at w fl m b = snd (broker_handle fl (GatewayMessage w (Text m)) b)"

lemma relay_at_text:
  assumes "json_ok fl v" and "valid_message v"
  shows "relay_at w fl (serialize v) b = snd (on_gateway_message w v b)"
  by (simp add: relay_at_def gateway_on_message_def check_message_serialize [OF assms] py_run)

definition relay :: "(string \<Rightarrow> string) \<Rightarrow> string \<Rightarrow> broker \<Rightarrow> broker" where
  "relay = relay_at link_ws"

definition lists_node :: "broker \<Rightarrow> string \<Rightarrow> bool" where
  "lists_node b n \<longleftrightarrow> (\<exists>uids. dict_get (gateways b) link_ws = Some uids \<and> py_in (JStr n) uids)"

lemma relay_text:
  assumes "json_ok fl v" and "valid_message v"
  shows "relay fl (serialize v) b = snd (on_gateway_message link_ws v b)"
  unfolding relay_def by (rule relay_at_text [OF assms])

lemma target_of: "u \<noteq> ''all'' \<Longrightarrow> serves c u b \<Longrightarrow> targets b (JStr u) = [c]"
  by (simp add: targets_def serves_def hashable_def)

lemma relay_new:
  assumes "serves c u b" and "u \<noteq> ''all''"
  shows "serves c u (relay fl (new_node (JStr n) (JStr u)) b)
    \<and> lists_node (relay fl (new_node (JStr n) (JStr u)) b) n
    \<and> sent (relay fl (new_node (JStr n) (JStr u)) b) = sent b @ [(c, new_node (JStr n) (JStr u))]"
proof -
  let ?kvs = "[(''type'', JStr ''new''), (''uid'', JStr n), (''dst'', JStr u)]"
  let ?b = "snd (on_gateway_message link_ws (JObj ?kvs) b)"
  obtain uids where w: "dict_get (gateways b) link_ws = Some uids" and ok: "broker_ok b" "clients_up b"
    using assms(1) by (auto simp: serves_def)
  have "valid_message (JObj ?kvs)" by (simp add: valid_message_def message_types_def)
  then have r: "relay fl (new_node (JStr n) (JStr u)) b = ?b"
    unfolding new_node_def by (rule relay_text [rotated]) simp
  have run: "?b = (if py_in (JStr n) uids then b else b\<lparr>gateways := dict_put (gateways b) link_ws (uids @ [JStr n])\<rparr>)
      \<lparr>sent := sent b @ [(c, new_node (JStr n) (JStr u))]\<rparr>"
    using gateway_message_run [OF ok w refl, of ?kvs "''new''" "JStr n" "JStr u"] target_of [OF assms(2,1)]
    by (simp add: Let_def hashable_def new_node_def)
  have "broker_ok ?b" using ok by (intro on_gateway_message_keeps)
  then show ?thesis
    using assms(1) w unfolding r
    by (auto simp: run serves_def lists_node_def clients_up_def dict_get_put py_in_iff)
qed

lemma relay_update:
  assumes "serves c u b" and "u \<noteq> ''all''" and "lists_node b n" and "json_ok fl k" and "json_ok fl v"
  shows "relay fl (update_node (JStr n) k v (JStr u)) b =
    b\<lparr>sent := sent b @ [(c, update_node (JStr n) k v (JStr u))]\<rparr>"
proof -
  let ?kvs = "[(''type'', JStr ''update''), (''uid'', JStr n), (''endpoint'', k), (''data'', v), (''dst'', JStr u)]"
  obtain uids where w: "dict_get (gateways b) link_ws = Some uids" "py_in (JStr n) uids"
    and ok: "broker_ok b" "clients_up b"
    using assms(1,3) by (auto simp: serves_def lists_node_def)
  have "valid_message (JObj ?kvs)" by (simp add: valid_message_def message_types_def)
  then have r: "relay fl (update_node (JStr n) k v (JStr u)) b = snd (on_gateway_message link_ws (JObj ?kvs) b)"
    unfolding update_node_def by (rule relay_text [rotated]) (use assms(4,5) in simp)
  show ?thesis
    using gateway_message_run [OF ok w(1) refl, of ?kvs "''update''" "JStr n" "JStr u"] target_of [OF assms(2,1)] w(2)
    unfolding r by (simp add: Let_def hashable_def update_node_def)
qed


lemma relay_updates:
  assumes "serves c u b" and "u \<noteq> ''all''" and "lists_node b n" and "resources_ok fl d"
  shows "fold (relay fl) (update_texts (JStr u) n d) b = b\<lparr>sent := sent b @ map (Pair c) (update_texts (JStr u) n d)\<rparr>"
  using assms
proof (induction d arbitrary: b)
  case (Cons p d)
  obtain k v where p: "p = (k, v)" by fastforce
  let ?b = "b\<lparr>sent := sent b @ [(c, update_node (JStr n) k v (JStr u))]\<rparr>"
  have "json_ok fl k" "json_ok fl v" "resources_ok fl d" using Cons.prems(4) by (simp_all add: p)
  moreover have "serves c u ?b" "lists_node ?b n"
    using Cons.prems by (simp_all add: serves_def lists_node_def broker_ok_def clients_up_def)
  ultimately show ?case
    using Cons.IH [of ?b] relay_update [OF Cons.prems(1-3), of fl k v] Cons.prems(2)
    by (simp add: update_texts_def p)
qed (simp add: update_texts_def)

lemma relay_cached:
  assumes "serves c u b" and "u \<noteq> ''all''" and "resources_ok fl (resources a)"
  shows "serves c u (fold (relay fl) (cache_texts (JStr u) a) b)
    \<and> sent (fold (relay fl) (cache_texts (JStr u) a) b) = sent b @ map (Pair c) (cache_texts (JStr u) a)"
proof -
  let ?b = "relay fl (new_node (JStr (uid a)) (JStr u)) b"
  have b: "serves c u ?b" "lists_node ?b (uid a)" "sent ?b = sent b @ [(c, new_node (JStr (uid a)) (JStr u))]"
    using relay_new [OF assms(1,2)] by blast+
  then show ?thesis
    using relay_updates [OF b(1) assms(2) b(2) assms(3)]
    by (simp add: cache_texts_def serves_def broker_ok_def clients_up_def)
qed

lemma relay_cache:
  assumes "serves c u b" and "u \<noteq> ''all''" and "\<And>a. a \<in> set ns \<Longrightarrow> resources_ok fl (resources a)"
  shows "serves c u (fold (relay fl) (concat (map (cache_texts (JStr u)) ns)) b)
    \<and> sent (fold (relay fl) (concat (map (cache_texts (JStr u)) ns)) b)
      = sent b @ map (Pair c) (concat (map (cache_texts (JStr u)) ns))"
  using assms
proof (induction ns arbitrary: b)
  case (Cons a ns)
  let ?b = "fold (relay fl) (cache_texts (JStr u) a) b"
  have "serves c u ?b" "sent ?b = sent b @ map (Pair c) (cache_texts (JStr u) a)"
    using relay_cached [OF Cons.prems(1,2)] Cons.prems(3) by simp_all
  then show ?case using Cons.IH [of ?b] Cons.prems(2,3) by simp
qed simp

lemma ups_run:
  assumes "outbox (edge s) = pre @ ms" and "read_up s = length pre"
  shows "run_events (system_handle fl rep enc ks opts) s (replicate (length ms) Up)
    = s\<lparr>read_up := read_up s + length ms, hub := fold (relay fl) ms (hub s)\<rparr>"
  using assms
proof (induction ms arbitrary: s pre)
  case (Cons m ms)
  let ?s = "s\<lparr>read_up := Suc (read_up s), hub := relay fl m (hub s)\<rparr>"
  have "outbox (edge s) ! read_up s = m" using Cons.prems(1,2) by simp
  then have "snd (system_handle fl rep enc ks opts Up s) = ?s"
    by (simp add: bind_gets seq_modify relay_def relay_at_def)
  moreover have "outbox (edge ?s) = (pre @ [m]) @ ms" "read_up ?s = length (pre @ [m])"
    using Cons.prems by simp_all
  ultimately show ?case
    using Cons.IH [of ?s "pre @ [m]"] by simp
qed simp


section \<open>A client that asks\<close>

lemma stamped_ok:
  assumes "canonical_floats fl" and "loads fl x = Inr (JObj kvs)"
  shows "json_ok fl (JObj (dict_put kvs k (JStr u)))"
  using loads_ok [OF assms] dict_putD [of _ kvs k "JStr u"]
  by (fastforce simp: list_all_iff dict_ok_put)

text \<open>A client's message is forwarded to the gateways, with the client's uid as its source.\<close>

lemma client_text_spread:
  assumes fl: "canonical_floats fl" and ok: "broker_ok b" and u: "handler_uid b c = JStr u"
    and m: "loads fl x = Inr (JObj kvs)" "dict_get kvs ''type'' = Some (JStr t)" "t \<in> set message_types"
    and k: "k = dict_put kvs ''src'' (JStr u)"
  shows "snd (broker_handle fl (ClientMessage c (Text x)) b) =
      b\<lparr>clients := (if t = ''new'' \<and> \<not> dict_has (clients b) (JStr u) then dict_put (clients b) (JStr u) c else clients b),
        sent := sent b @ map (\<lambda>g. (g, serialize (JObj k))) (in_reach b)\<rparr>
    \<and> loads fl (serialize (JObj k)) = Inr (JObj k)"
proof
  have "valid_message (JObj kvs)" using m(2,3) by (simp add: valid_message_def)
  note valid = check_message_valid [OF m(1) this]
  have type: "dict_get k ''type'' = Some (JStr t)" using m(2) by (simp add: k dict_get_put)
  show "snd (broker_handle fl (ClientMessage c (Text x)) b) =
      b\<lparr>clients := (if t = ''new'' \<and> \<not> dict_has (clients b) (JStr u) then dict_put (clients b) (JStr u) c else clients b),
        sent := sent b @ map (\<lambda>g. (g, serialize (JObj k))) (in_reach b)\<rparr>"
    using client_message_run [OF ok u refl type]
    by (simp add: client_on_message_def valid py_run u py_update_def k in_reach_def)
  show "loads fl (serialize (JObj k)) = Inr (JObj k)"
    unfolding k by (rule serialize_read) (rule stamped_ok [OF fl m(1)])
qed

lemma client_text_forwarded:
  assumes "canonical_floats fl" and "broker_ok b" and "gateways b = [(link_ws, uids)]" "gateways_up b"
    and "handler_uid b c = JStr u"
    and "loads fl x = Inr (JObj kvs)" "dict_get kvs ''type'' = Some (JStr t)" "t \<in> set message_types"
    and "k = dict_put kvs ''src'' (JStr u)"
  shows "snd (broker_handle fl (ClientMessage c (Text x)) b) =
      b\<lparr>clients := (if t = ''new'' \<and> \<not> dict_has (clients b) (JStr u) then dict_put (clients b) (JStr u) c else clients b),
        sent := sent b @ [(link_ws, serialize (JObj k))]\<rparr>
    \<and> loads fl (serialize (JObj k)) = Inr (JObj k)"
  using client_text_spread [OF assms(1,2,5-9)] in_reach_up [OF assms(4)] assms(3) by simp

text \<open>The state of the broker once a client's \<open>new\<close> has been forwarded to the one gateway.\<close>

lemma client_asks:
  assumes fl: "canonical_floats fl" and ok: "broker_ok b" and g: "gateways b = [(link_ws, uids)]"
    and up: "clients_up b" "gateways_up b" "up b c"
    and u: "handler_uid b c = JStr u" "dict_get (clients b) (JStr u) \<in> {None, Some c}"
    and m: "loads fl x = Inr (JObj kvs)" "dict_get kvs ''type'' = Some (JStr ''new'')"
    and b1: "b1 = snd (broker_handle fl (ClientMessage c (Text x)) b)"
  shows "serves c u b1 \<and> (\<exists>y kvs'. sent b1 = sent b @ [(link_ws, y)] \<and> loads fl y = Inr (JObj kvs')
      \<and> dict_get kvs' ''type'' = Some (JStr ''new'') \<and> dict_get kvs' ''src'' = Some (JStr u))"
proof -
  let ?k = "dict_put kvs ''src'' (JStr u)"
  define cs where "cs = (if dict_has (clients b) (JStr u) then clients b else dict_put (clients b) (JStr u) c)"
  have run: "b1 = b\<lparr>clients := cs, sent := sent b @ [(link_ws, serialize (JObj ?k))]\<rparr>"
      "loads fl (serialize (JObj ?k)) = Inr (JObj ?k)"
    using client_text_forwarded [OF fl ok g up(2) u(1) m _ refl] by (simp_all add: b1 cs_def message_types_def)
  have "broker_enabled (ClientMessage c (Text x)) b" using u(1) by simp
  then have "broker_ok b1" unfolding b1 by (rule broker_handle_keeps [OF ok])
  moreover have "dict_get cs (JStr u) = Some c" using u(2) by (auto simp: cs_def dict_has_def dict_get_put)
  moreover have "\<forall>(v, w) \<in> set cs. up b w"
    using up by (auto simp: cs_def clients_up_def dest!: dict_putD split: if_splits)
  ultimately have "serves c u b1" by (simp add: serves_def run(1) clients_up_def g)
  then show ?thesis using run m(2) by (auto simp: dict_get_put)
qed

text \<open>
  C7: A client is told the cache: in a system whose texts have all been read, a client that sends
  \<open>new\<close> gets, once its message has been read by the gateway and the answers by the broker,
  texts from which it learns exactly the nodes and resources that the gateway has cached; the
  cache is as before, and no other client gets anything.
\<close>

theorem client_learns_cache:
  assumes "canonical_floats fl" and "system_ok fl s"
    and "broker_link (edge s) = Some Open" and "conn (edge s) = Reading"
    and "read_down s = length (texts_to link_ws (hub s))" and "read_up s = length (outbox (edge s))"
    and "clients_up (hub s)" and "gateways_up (hub s)" and "up (hub s) c"
    and "handler_uid (hub s) c = JStr u" and "u \<noteq> ''all''" and "dict_get (clients (hub s)) (JStr u) \<in> {None, Some c}"
    and "loads fl x = Inr (JObj kvs)" and "dict_get kvs ''type'' = Some (JStr ''new'')"
  shows "\<exists>n ms. let t = run_events (system_handle fl rep enc ks opts) s (Hub (ClientMessage c (Text x)) # Down # replicate n Up) in
      texts_to c (hub t) = texts_to c (hub s) @ ms \<and> told fl ms Map.empty = cached (edge s)
      \<and> cached (edge t) = cached (edge s) \<and> read_up t = length (outbox (edge t))
      \<and> (\<forall>d. d \<noteq> c \<and> d \<noteq> link_ws \<longrightarrow> texts_to d (hub t) = texts_to d (hub s))"
proof -
  define b1 where "b1 = snd (broker_handle fl (ClientMessage c (Text x)) (hub s))"
  have ok: "broker_ok (hub s)" and gok: "gateway_ok fl (edge s)"
    using assms(2) by (simp_all add: system_ok_def coap_ok_def gateway_inv_def)
  obtain uids where g: "gateways (hub s) = [(link_ws, uids)]" using assms(2) by (auto simp: system_ok_def)
  obtain y kvs' where s1: "serves c u b1" "sent b1 = sent (hub s) @ [(link_ws, y)]"
      and y: "loads fl y = Inr (JObj kvs')" "dict_get kvs' ''type'' = Some (JStr ''new'')" "dict_get kvs' ''src'' = Some (JStr u)"
    using client_asks [OF assms(1) ok g assms(7-10,12-14) b1_def] by blast
  define ms where "ms = told_to (JStr u) (edge s)"
  let ?e = "(edge s)\<lparr>outbox := outbox (edge s) @ ms, conn := Reading\<rparr>"
  let ?t = "s\<lparr>hub := b1, read_down := Suc (read_down s), edge := ?e\<rparr>"
  let ?es = "Hub (ClientMessage c (Text x)) # Down # replicate (length ms) Up"
  have "texts_to link_ws b1 ! read_down s = y" using s1(2) assms(5) by (simp add: texts_append nth_append)
  moreover have "message_read fl (update_node_resource rep) (Some y) (edge s) = (Inr (), ?e)"
    unfolding ms_def using assms(3) y by (rule new_client_run)
  ultimately have "run_events (system_handle fl rep enc ks opts) s ?es
      = run_events (system_handle fl rep enc ks opts) ?t (replicate (length ms) Up)"
    by (simp add: b1_def [symmetric] bind_gets seq_modify del: broker_handle.simps)
  also have "\<dots> = ?t\<lparr>read_up := read_up s + length ms, hub := fold (relay fl) ms b1\<rparr>"
    using ups_run [of ?t "outbox (edge s)" ms] assms(6) by simp
  finally have run: "run_events (system_handle fl rep enc ks opts) s ?es = \<dots>" .
  have sent: "sent (fold (relay fl) ms b1) = sent b1 @ map (Pair c) ms"
    unfolding ms_def told_to_def using s1(1) assms(11) gateway_ok_resources [OF gok]
    by (intro relay_cache [THEN conjunct2]) auto
  have "c \<noteq> link_ws" using ok g assms(10) by (auto simp: broker_ok_def)
  with s1(2) sent have "texts_to c (fold (relay fl) ms b1) = texts_to c (hub s) @ ms"
    "\<forall>d. d \<noteq> c \<and> d \<noteq> link_ws \<longrightarrow> texts_to d (fold (relay fl) ms b1) = texts_to d (hub s)"
    by (auto simp: texts_to_def filter_empty_conv comp_def)
  moreover have "told fl ms Map.empty = cached (edge s)"
    using told_fetch [OF gok, of "JStr u" Map.empty] by (simp add: told_to_eq ms_def)
  moreover have "cached ?e = cached (edge s)" by (simp add: cached_def fun_eq_iff)
  ultimately show ?thesis
    using run assms(6) by (intro exI [of _ "length ms"] exI [of _ ms]) (simp add: Let_def)
qed


section \<open>A concrete system\<close>

definition demo_system :: system where
  "demo_system = \<lparr>hub = (broker_init \<lparr>private_key = ''k'', secret_key = ''s''\<rparr>)\<lparr>gateways := [(link_ws, [])],
       handler_uid := (\<lambda>_. JNull)(7 := JStr ''c7''), up := (\<lambda>_. True)\<rparr>,
     edge = demo_coap, read_down = 0, read_up = 0\<rparr>"

lemma demo_system_fields [simp]:
  "edge demo_system = demo_coap" "read_down demo_system = 0" "read_up demo_system = 0"
  "gateways (hub demo_system) = [(link_ws, [])]" "clients (hub demo_system) = []" "sent (hub demo_system) = []"
  "handler_uid (hub demo_system) = (\<lambda>_. JNull)(7 := JStr ''c7'')" "up (hub demo_system) = (\<lambda>_. True)"
  by (simp_all add: demo_system_def broker_init_def)

lemma demo_system_ok: "system_ok fl demo_system"
proof -
  have "ips_ok demo_coap" by (simp add: ips_ok_def node_init_def)
  moreover have "loop_ok demo_coap" by (simp add: loop_ok_def)
  ultimately have "coap_ok fl demo_coap"
    using demo_coap_ok by (simp add: coap_ok_def gateway_inv_def tasks_ok_def puts_def)
  moreover have "broker_ok (hub demo_system)"
    by (auto simp: broker_ok_def link_ws_def pairwise_distinct_def)
  ultimately show ?thesis by (simp add: system_ok_def in_order_def texts_to_def)
qed

theorem client_learns_cache_witness:
  "\<exists>n ms. let t = run_events (system_handle keep_literal (\<lambda>_. []) toy_enc \<lparr>private_key = ''k'', secret_key = ''s''\<rparr> demo_options)
        demo_system (Hub (ClientMessage 7 (Text (dumps (JObj [(''type'', JStr ''new'')])))) # Down # replicate n Up) in
      texts_to 7 (hub t) = ms
      \<and> told keep_literal ms Map.empty = cached demo_coap \<and> cached demo_coap ''n1'' \<noteq> None"
proof -
  have l: "loads keep_literal (dumps (JObj [(''type'', JStr ''new'')])) = Inr (JObj [(''type'', JStr ''new'')])"
    by (rule loads_dumps) simp
  have up: "clients_up (hub demo_system)" "gateways_up (hub demo_system)"
    by (simp_all add: clients_up_def gateways_up_def)
  have n1: "cached demo_coap ''n1'' \<noteq> None" by (simp add: cached_def)
  have empty: "texts_to w (hub demo_system) = []" for w by (simp add: texts_to_def)
  from client_learns_cache [OF canonical_keep_literal demo_system_ok _ _ _ _ up _ _ _ _ l, of 7 "''c7''"
      "\<lambda>_. []" toy_enc "\<lparr>private_key = ''k'', secret_key = ''s''\<rparr>" demo_options]
  show ?thesis using n1 by (auto simp: empty Let_def)
qed

section \<open>Order\<close>

text \<open>
  In the life of one connection of one gateway, however clients, nodes and network interleave, what the broker
  has written to a client is, in order and each at most once, part of what it has read from the
  gateway.  \<open>Deployment_Order\<close> has the general case.
\<close>

theorem clients_read_in_order:
  assumes "canonical_floats fl"
    and "reachable (system_handle fl rep enc ks opts) system_enabled (system_start fl enc ks rep opts now) s"
    and "c \<noteq> link_ws"
  shows "subseq (texts_to c (hub s)) (map (rewritten fl) (take (read_up s) (outbox (edge s))))"
  using whole.reachable_good [OF assms(2)] assms(1,3) by (simp add: system_ok_def in_order_def)

theorem clients_read_in_order_witness:
  "let t = run_events (system_handle keep_literal (\<lambda>_. []) toy_enc \<lparr>private_key = ''k'', secret_key = ''s''\<rparr> demo_options)
       (system_start keep_literal toy_enc \<lparr>private_key = ''k'', secret_key = ''s''\<rparr> (\<lambda>_. []) demo_options 0)
       [Hub (ClientOpen 7 ''c7''), Edge (Base AliveTimer), Up]
   in read_up t = 1 \<and> subseq (texts_to 7 (hub t)) (map (rewritten keep_literal) (take 1 (outbox (edge t))))"
proof -
  let ?k = "\<lparr>private_key = ''k'', secret_key = ''s''\<rparr>"
  let ?h = "system_handle keep_literal (\<lambda>_. []) toy_enc ?k demo_options"
  let ?s = "system_start keep_literal toy_enc ?k (\<lambda>_. []) demo_options 0"
  let ?es = "[Hub (ClientOpen 7 ''c7''), Edge (Base AliveTimer), Up]"
  obtain tk where tk: "auth_token toy_enc ?k = Inr tk"
    by (simp add: auth_token_def toy_enc_def token_char_def is_space_def)
  have hub: "hub ?s = (broker_init ?k)\<lparr>up := (\<lambda>_. False)(link_ws := True), gateways := [(link_ws, [])]\<rparr>"
    by (simp add: system_start_def py_run set_up_def gateway_open_def broker_init_def)
  have edge: "broker_link (edge ?s) = Some Open" "alive_timer (edge ?s)" "outbox (edge ?s) = []"
    using fetch_run [of "(coap_init 0)\<lparr>broker_link := Some Open, alive_timer := True\<rparr>" dst_all]
    by (simp_all add: system_start_def connection_made_def connect_outcome_def tk in_loop_def py_run said_def
        coap_init_def gateway_init_def gateway.defs)
  have "run_enabled ?h system_enabled ?s ?es"
    by (simp add: hub edge send_alive_def py_run set_up_def client_open_def uuid_used_def broker_init_def link_ws_def
        del: coap_handle.simps(2-5)) (simp add: system_start_def)
  then have r: "reachable ?h system_enabled ?s (run_events ?h ?s ?es)"
    by (rule reachable_run [OF reach_start])
  have "read_up (run_events ?h ?s ?es) = 1"
    by (simp add: py_run system_start_def)
  with clients_read_in_order [OF canonical_keep_literal r, of 7] show ?thesis
    by (simp add: Let_def link_ws_def)
qed

end
