(* ===== verification/Coap_Discovery.thy ===== *)
theory Coap_Discovery
  imports Coap_Properties
begin

text \<open>
  The conversations of the CoAP gateway with a node: a discovery from the first request to
  the last reply, and an update a client asked for.
\<close>

section \<open>Discovery\<close>

text \<open>The outcomes of consecutive requests, as events.\<close>

fun outcomes :: "nat \<Rightarrow> coap_outcome list \<Rightarrow> coap_event list" where
  "outcomes n [] = []"
| "outcomes n (x # xs) = Outcome n x # outcomes (Suc n) xs"

definition fetched :: "coap_outcome \<Rightarrow> string \<Rightarrow> bool" where
  "fetched x b \<longleftrightarrow> (\<exists>c. coap_resource x = Inr (c, b))"

definition learned :: "string list \<Rightarrow> string list \<Rightarrow> (json \<rightharpoonup> json) \<Rightarrow> (json \<rightharpoonup> json)" where
  "learned endpoints bodies m =
     fold (\<lambda>(e, b) m. m(JStr (tail_text (endpoint_path e)) \<mapsto> JStr b)) (zip endpoints bodies) m"

text \<open>\<open>numbered\<close>: the numbers of the waiting coroutines are below the next one.\<close>

definition numbered :: "coap_gateway \<Rightarrow> bool" where
  "numbered s \<longleftrightarrow> (\<forall>(i, task) \<in> set (tasks s). i < next_task s)"

lemma numbered_fresh: "numbered s \<Longrightarrow> next_task s \<notin> fst ` set (tasks s)"
  by (auto simp: numbered_def)

lemma outcome_of_last:
  assumes "numbered s"
  shows "coap_handle fl rep enc ks opts (Outcome (next_task s) x) (snd (suspend meth url bytes task s)) =
    resume task x (s\<lparr>next_task := Suc (next_task s), requests := requests s @ [(meth, url, bytes)]\<rparr>)"
  using numbered_fresh [OF assms]
  by (simp add: suspend_def bind_gets seq_modify dict_get_last dict_del_last del: map_of_append)

lemma forward_step:
  fixes k v :: string
  assumes "gateway_ok fl s" and "broker_link s = Some Open" and "current s r"
  defines "t \<equiv> snd (forward_data_from_node r (JStr k) (JStr v) s)"
  shows "forward_data_from_node r (JStr k) (JStr v) s = (Inr (), t)"
    and "gateway_ok fl t" "broker_link t = Some Open" "current t r" "uid (objects t r) = uid (objects s r)"
    and "resource_map (resources (objects t r)) = (resource_map (resources (objects s r)))(JStr k \<mapsto> JStr v)"
    and "cached t = (cached s)(uid (objects s r) \<mapsto> (resource_map (resources (objects s r)))(JStr k \<mapsto> JStr v))"
    and "mirrored fl s t" "conn t = conn s"
proof -
  have h: "hashable (JStr k)" by (simp add: hashable_def)
  note run = forward_run [OF assms(2) h, of r "JStr v"]
  have grows: "grows fl s t"
    unfolding t_def by (rule cache.upholdsD) (rule keeps_forward, simp_all)
  then show "gateway_ok fl t" "broker_link t = Some Open" "conn t = conn s"
    using assms(1,2) by (auto simp: grows_def same_connection_def)
  show "forward_data_from_node r (JStr k) (JStr v) s = (Inr (), t)" by (simp add: t_def run)
  show "current t r" "uid (objects t r) = uid (objects s r)"
    using assms(3) by (simp_all add: t_def run current_def set_resource_run [OF h])
  show "resource_map (resources (objects t r)) = (resource_map (resources (objects s r)))(JStr k \<mapsto> JStr v)"
    by (simp add: t_def run set_resource_run [OF h] resource_map_put)
  show c: "cached t = (cached s)(uid (objects s r) \<mapsto> (resource_map (resources (objects s r)))(JStr k \<mapsto> JStr v))"
    by (simp add: t_def run cached_set_resource [OF assms(1,3) h])
  show "mirrored fl s t"
    unfolding mirrored_def c using cached_current [OF assms(3)]
    by (simp add: t_def run set_resource_run [OF h])
qed

lemma forward_tasks:
  "tasks (snd (forward_data_from_node r k v s)) = tasks s"
  "next_task (snd (forward_data_from_node r k v s)) = next_task s"
  by (auto simp: forward_data_from_node_def set_resource_def get_object_def set_object_def
      set_resource_value_def send_to_broker_def py_run split: option.splits link.splits)

lemma mirrored_same:
  assumes "outbox t = outbox s" and "nodes t = nodes s" and "objects t = objects s"
  shows "mirrored fl s t"
proof -
  have "cached t = cached s" using assms by (simp add: cached_def fun_eq_iff)
  with assms(1) show ?thesis by (simp add: mirrored_def)
qed

lemma discovery_rest:
  assumes "gateway_ok fl s" and "broker_link s = Some Open" and "current s r" and "numbered s"
    and "list_all2 fetched xs bodies" and "length bodies = length endpoints"
    and t: "t = run_events (coap_handle fl rep enc ks opts) (snd (discover_next r url endpoints s))
    (outcomes (next_task s) xs)"
  shows "cached t = (cached s)(uid (objects s r) \<mapsto>
      learned endpoints bodies (resource_map (resources (objects s r))))
    \<and> mirrored fl s t \<and> tasks t = tasks s \<and> conn t = conn s"
  using assms(1-6) unfolding t
proof (induction endpoints arbitrary: s xs bodies)
  case Nil
  then show ?case
    using cached_current [OF Nil.prems(3)]
    by (auto simp: discover_next_def learned_def py_run mirror.refl_state map_upd_triv)
next
  case (Cons e es)
  obtain x xs' b bodies' where x: "xs = x # xs'" "bodies = b # bodies'" "fetched x b"
    "list_all2 fetched xs' bodies'" "length bodies' = length es"
    using Cons.prems(5,6) by (cases xs; cases bodies) auto
  obtain c where c: "coap_resource x = Inr (c, b)" using x(3) by (auto simp: fetched_def)
  let ?u = "uid (objects s r)" and ?p = "endpoint_path e"
  define s1 where "s1 = s\<lparr>next_task := Suc (next_task s), requests := requests s @ [(GET, url @ ?p, [])]\<rparr>"
  have s1: "gateway_ok fl s1" "broker_link s1 = Some Open" "current s1 r"
    using Cons.prems(1-3) by (simp_all add: s1_def gateway_ok_def current_def)
  define s2 where "s2 = snd (forward_data_from_node r (JStr (tail_text ?p)) (JStr b) s1)"
  note f = forward_step [OF s1, of "tail_text ?p" b, folded s2_def]
  have n: "numbered s2" "next_task s2 = Suc (next_task s)" "tasks s2 = tasks s"
    using Cons.prems(4) by (auto simp: numbered_def s2_def forward_tasks s1_def less_Suc_eq)
  have go: "run_events (coap_handle fl rep enc ks opts) (snd (discover_next r url (e # es) s)) (outcomes (next_task s) xs)
      = run_events (coap_handle fl rep enc ks opts) (snd (discover_next r url es s2)) (outcomes (next_task s2) xs')"
    using outcome_of_last [OF Cons.prems(4), of fl rep enc ks opts x GET "url @ ?p" "[]" "AwaitResource r url ?p es"]
      c f(1) n(2)
    by (simp add: x(1) discover_next_def Let_def resume_def resource_received_def s1_def py_run
        split: sum.splits prod.splits)
  have "cached s1 = cached s" by (simp add: cached_def s1_def fun_eq_iff)
  then have "cached s2 = (cached s)(?u \<mapsto> (resource_map (resources (objects s r)))(JStr (tail_text ?p) \<mapsto> JStr b))"
    using f(7) by (simp add: s1_def)
  moreover have "uid (objects s2 r) = ?u"
    "resource_map (resources (objects s2 r)) = (resource_map (resources (objects s r)))(JStr (tail_text ?p) \<mapsto> JStr b)"
    using f(5,6) by (simp_all add: s1_def)
  moreover have "mirrored fl s s2"
    using mirrored_same [of s1 s] f(8) mirror.trans_state by (fastforce simp: s1_def)
  moreover have "conn s2 = conn s" using f(9) by (simp add: s1_def)
  moreover note ih = Cons.IH [OF f(2,3,4) n(1) x(4,5)]
  ultimately show ?case
    unfolding go using n(3) x(2) mirror.trans_state [of fl s s2]
    by (auto simp: learned_def fun_upd_def fun_eq_iff)
qed

text \<open>
  C14: A discovery that nothing interrupts learns the node: when the connection with the broker is
  open, the node object is the one in the cache, and each request is answered by a text, in
  UTF-8, or fails (then the text of the failure counts) before anything else happens, then the
  reply to the first request lists the endpoints, those other than \<open>.well-known/core\<close> are
  fetched one after the other, and in the end each of their paths, without its first character,
  leads to the text fetched for it, in the cache and for every reader.  Nothing is left waiting,
  and the connection with the broker is where it was.  (\<open>late_reply_not_cached\<close> shows what happens to a reply for an object
  that has left the cache.)
\<close>

theorem discovery_learns_node:
  assumes "gateway_ok fl s" and "broker_link s = Some Open" and "current s r" and "numbered s"
    and "fetched core links"
    and "endpoints = filter (\<lambda>e. \<not> contains ''well-known/core'' e) (coap_endpoints links)"
    and "list_all2 fetched xs bodies" and "length bodies = length endpoints"
    and "resource_value (objects s r) ''ip'' = Inr (JStr a)"
    and t: "t = run_events (coap_handle fl rep enc ks opts) (snd (discover_node rep opts r s))
    (outcomes (next_task s) (core # xs))"
  shows "cached t = (cached s)(uid (objects s r) \<mapsto>
      learned endpoints bodies (resource_map (resources (objects s r))))
    \<and> mirrored fl s t \<and> tasks t = tasks s \<and> conn t = conn s"
proof -
  obtain c where c: "coap_resource core = Inr (c, links)" using assms(5) by (auto simp: fetched_def)
  let ?url = "coap_node_url opts a"
  define s1 where "s1 = s\<lparr>next_task := Suc (next_task s),
    requests := requests s @ [(GET, ?url @ ''/.well-known/core'', [])]\<rparr>"
  have s1: "gateway_ok fl s1" "broker_link s1 = Some Open" "current s1 r" "numbered s1"
    using assms(1-4) by (auto simp: s1_def gateway_ok_def current_def numbered_def)
  have run: "t = run_events (coap_handle fl rep enc ks opts) (snd (discover_next r ?url endpoints s1))
      (outcomes (next_task s1) xs)"
    using outcome_of_last [OF assms(4), of fl rep enc ks opts core GET _ "[]" "AwaitCore r ?url"] c assms(6)
    by (simp add: t discover_run [OF assms(9)] resume_def core_received_def s1_def py_run
        split: sum.splits prod.splits)
  have "cached s1 = cached s" by (simp add: cached_def s1_def fun_eq_iff)
  moreover have "mirrored fl s s1" by (rule mirrored_same) (simp_all add: s1_def)
  moreover note discovery_rest [OF s1 assms(7,8) run]
  ultimately show ?thesis
    using mirror.trans_state [of fl s s1] by (simp add: s1_def)
qed

theorem discovery_learns_node_witness:
  "cached (run_events (coap_handle id (\<lambda>_. []) toy_enc \<lparr>private_key = ''k'', secret_key = ''s''\<rparr> demo_options)
      (snd (discover_node (\<lambda>_. []) demo_options 0 demo_coap))
      (outcomes 0 [Reply 69 ''</.well-known/core>, </led>;if=x'', Reply 69 ''off''])) ''n1'' =
    Some [JStr ''ip'' \<mapsto> JStr ''fd00::1'', JStr ''protocol'' \<mapsto> JStr ''CoAP'', JStr ''led'' \<mapsto> JStr ''off'']"
proof -
  let ?l = "''</.well-known/core>, </led>;if=x''"
  have ends: "filter (\<lambda>e. \<not> contains ''well-known/core'' e) (coap_endpoints ?l) = [''</led>;if=x'']"
    by (simp add: coap_endpoints_def remove_char_def)
  have f: "fetched (Reply 69 ?l) ?l" "list_all2 fetched [Reply 69 ''off''] [''off'']"
    by (simp_all add: fetched_def coap_resource_def decode_utf8_def byte_in_def)
  have n: "numbered demo_coap" by (simp add: numbered_def)
  have ip: "resource_value (objects demo_coap 0) ''ip'' = Inr (JStr ''fd00::1'')"
    by (simp add: resource_value_def node_init_def)
  have path: "tail_text (endpoint_path ''</led>;if=x'') = ''led''"
    by (simp add: endpoint_path_def remove_char_def tail_text_def byte_in_def)
  show ?thesis
    using discovery_learns_node [OF demo_coap_ok demo_coap_fields(4) demo_coap_current n f(1) ends [symmetric] f(2) _ ip refl,
        of id "\<lambda>_. []" toy_enc "\<lparr>private_key = ''k'', secret_key = ''s''\<rparr>" demo_options]
    by (simp add: learned_def path node_init_def fun_upd_twist)
qed

end
