(* ===== verification/Coap_Updates.thy ===== *)
theory Coap_Updates
  imports Coap_Discovery
begin

text \<open>
  Updates of clients, values that nodes post, replies that come late and the cleanup of the
  CoAP gateway.
\<close>

section \<open>Updates of clients\<close>

text \<open>The message a client's update arrives as.\<close>

definition update_message :: "(string \<Rightarrow> string) \<Rightarrow> string \<Rightarrow> json \<Rightarrow> json \<Rightarrow> json \<Rightarrow> bool" where
  "update_message fl m u k v \<longleftrightarrow> (\<exists>kvs data. loads fl m = Inr (JObj kvs)
     \<and> dict_get kvs ''type'' = Some (JStr ''update'') \<and> dict_get kvs ''data'' = Some (JObj data)
     \<and> check_broker_data (JObj data) = Inr True \<and> dict_get data ''uid'' = Some u
     \<and> dict_get data ''endpoint'' = Some k \<and> dict_get data ''payload'' = Some v)"

lemma find_current:
  assumes "gateway_ok fl s" and "current s r"
  shows "find (\<lambda>r'. py_eq (JStr (uid (objects s r'))) (JStr (uid (objects s r)))) (map snd (nodes s)) = Some r"
proof -
  have "find (\<lambda>r'. uid (objects s r') = u) (map snd ns) = Some r"
    if "dict_get ns u = Some r" "\<forall>(w, r') \<in> set ns. uid (objects s r') = w" for ns u
    using that by (induction ns) (auto split: if_splits)
  from this [of "nodes s" "uid (objects s r)"] show ?thesis
    using assms by (fastforce simp: gateway_ok_def current_def)
qed

lemma update_message_run:
  assumes "update_message fl m (JStr (uid (objects s r))) k v" and "gateway_ok fl s" and "current s r"
  shows "on_broker_message fl upd m s = upd r k v s"
proof -
  obtain kvs data where "loads fl m = Inr (JObj kvs)" "dict_get kvs ''type'' = Some (JStr ''update'')"
    "dict_get kvs ''data'' = Some (JObj data)" "check_broker_data (JObj data) = Inr True"
    "dict_get data ''uid'' = Some (JStr (uid (objects s r)))"
    "dict_get data ''endpoint'' = Some k" "dict_get data ''payload'' = Some v"
    using assms(1) by (auto simp: update_message_def)
  then show ?thesis
    using find_current [OF assms(2,3)]
    by (simp add: on_broker_message_def update_named_def py_getitem_def node_named_def bind_gets)
qed

lemma conn_unseen:
  fixes s :: coap_gateway
  shows "mirrored fl s (s\<lparr>conn := c\<rparr>)" "cached (s\<lparr>conn := c\<rparr>) = cached s"
  by (rule mirrored_same) (simp_all add: cached_def fun_eq_iff)

lemma put_outcome:
  assumes "gateway_ok fl s" and "broker_link s = Some Open" and "current s r"
    and u: "u = snd (handler_ended (put_received r (JStr k) (JStr v) outcome) s)"
  shows "tasks u = tasks s
     \<and> (case coap_resource outcome of
          Inl e \<Rightarrow> conn u = Dead e \<and> cached u = cached s
        | Inr (code, _) \<Rightarrow> conn u = Reading \<and> mirrored fl s u \<and>
            cached u = (if code = CHANGED
              then (cached s)(uid (objects s r) \<mapsto> (resource_map (resources (objects s r)))(JStr k \<mapsto> JStr v))
              else cached s))"
proof (cases "coap_resource outcome")
  case (Inl e)
  then show ?thesis by (simp add: u handler_ended_def in_loop_def put_received_def py_run conn_unseen)
next
  case (Inr p)
  then obtain code b where p: "coap_resource outcome = Inr (code, b)" by (cases p) auto
  show ?thesis
  proof (cases "code = CHANGED")
    case True
    note f = forward_step [OF assms(1-3), of k v]
    define w where "w = snd (forward_data_from_node r (JStr k) (JStr v) s)"
    have u': "u = w\<lparr>conn := Reading\<rparr>"
      using p True f(1) [folded w_def] by (simp add: u handler_ended_def in_loop_def put_received_def py_run)
    have "mirrored fl s u"
      unfolding u' by (rule mirror.trans_state [OF f(8) [folded w_def] conn_unseen(1)])
    then show ?thesis using p True f(7) by (simp add: u' conn_unseen(2) w_def forward_tasks)
  next
    case False
    have "u = s\<lparr>conn := Reading\<rparr>"
      using p False by (simp add: u handler_ended_def in_loop_def put_received_def py_run)
    then show ?thesis using p False by (simp add: conn_unseen)
  qed
qed

lemma put_written:
  assumes "broker_link s = Some Open"
    and u: "u = snd (handler_ended (put_received r (JStr k) v outcome) s)"
  shows "requests u = requests s \<and> outbox u = outbox s @
    (case coap_resource outcome of
       Inr (code, _) \<Rightarrow> if code = CHANGED then [update_node (JStr (uid (objects s r))) (JStr k) v dst_all] else []
     | Inl _ \<Rightarrow> [])"
proof -
  have h: "hashable (JStr k)" by (simp add: hashable_def)
  show ?thesis
    using forward_run [OF assms(1) h, of r v] set_resource_run [OF h, of r v s]
    by (auto simp: u handler_ended_def in_loop_def put_received_def py_run said_def split: sum.split)
qed

lemma update_suspends:
  assumes "list_all (byte_in 0 127) v" and "resource_value (objects s r) ''ip'' = Inr (JStr a)"
  shows "update_node_resource rep r (JStr k) (JStr v) s =
    suspend PUT (''coap://['' @ a @ '']/'' @ k) v (AwaitPut r (JStr k) (JStr v)) s"
  using assms by (simp add: update_node_resource_def node_ip_def get_object_def encode_ascii_def py_format_def py_run)

text \<open>The two halves of an update: the request, and what its outcome resumes.\<close>

lemma update_requested:
  assumes "gateway_ok fl s" and "current s r"
    and "update_message fl m (JStr (uid (objects s r))) (JStr k) (JStr v)"
    and "list_all (byte_in 0 127) v"
    and "resource_value (objects s r) ''ip'' = Inr (JStr a)"
  shows "coap_handle fl rep enc ks opts (Base (BrokerMessage m)) s =
    (Inr (), s\<lparr>conn := Handling, tasks := tasks s @ [(next_task s, AwaitPut r (JStr k) (JStr v))],
       next_task := Suc (next_task s), requests := requests s @ [(PUT, ''coap://['' @ a @ '']/'' @ k, v)]\<rparr>)"
  using update_message_run [OF assms(3,1,2)] update_suspends [OF assms(4,5)]
  by (simp add: message_read_def in_loop_def bind_def suspend_def ret_def)

lemma put_resumed:
  assumes "numbered s"
  shows "coap_handle fl rep enc ks opts (Outcome (next_task s) outcome)
      (s\<lparr>conn := c, tasks := tasks s @ [(next_task s, AwaitPut r k v)], next_task := n, requests := q\<rparr>) =
    handler_ended (put_received r k v outcome) (s\<lparr>conn := c, next_task := n, requests := q\<rparr>)"
  using numbered_fresh [OF assms]
  by (simp add: bind_gets seq_modify dict_get_last dict_del_last resume_def del: map_of_append)

text \<open>
  A client's update becomes one PUT request to the node's address with the endpoint as its
  path and the payload as its bytes, and the connection waits for the outcome.  If the node
  answers 2.04 the cache and the readers get the new value; any other answer changes nothing
  there; either way the connection reads again.  A request that could not be made at all ends
  the connection.
\<close>

theorem update_round_trip:
  assumes "gateway_ok fl s" and "broker_link s = Some Open" and "current s r" and "numbered s"
    and "update_message fl m (JStr (uid (objects s r))) (JStr k) (JStr v)"
    and "list_all (byte_in 0 127) v"
    and "resource_value (objects s r) ''ip'' = Inr (JStr a)"
  shows "\<exists>t. coap_handle fl rep enc ks opts (Base (BrokerMessage m)) s = (Inr (), t)
     \<and> conn t = Handling \<and> cached t = cached s \<and> outbox t = outbox s
     \<and> requests t = requests s @ [(PUT, ''coap://['' @ a @ '']/'' @ k, v)]
     \<and> (let u = snd (coap_handle fl rep enc ks opts (Outcome (next_task s) outcome) t) in
         tasks u = tasks s
         \<and> (case coap_resource outcome of
              Inl e \<Rightarrow> conn u = Dead e \<and> cached u = cached s
            | Inr (code, _) \<Rightarrow> conn u = Reading \<and> mirrored fl s u \<and>
                cached u = (if code = CHANGED
                  then (cached s)(uid (objects s r) \<mapsto> (resource_map (resources (objects s r)))(JStr k \<mapsto> JStr v))
                  else cached s)))"
proof -
  define s1 where "s1 = s\<lparr>conn := Handling, next_task := Suc (next_task s),
      requests := requests s @ [(PUT, ''coap://['' @ a @ '']/'' @ k, v)]\<rparr>"
  define t where "t = s\<lparr>conn := Handling, tasks := tasks s @ [(next_task s, AwaitPut r (JStr k) (JStr v))],
      next_task := Suc (next_task s), requests := requests s @ [(PUT, ''coap://['' @ a @ '']/'' @ k, v)]\<rparr>"
  have t: "coap_handle fl rep enc ks opts (Base (BrokerMessage m)) s = (Inr (), t)"
    unfolding t_def using assms(1,3,5,6,7) by (rule update_requested)
  have resume: "coap_handle fl rep enc ks opts (Outcome (next_task s) outcome) t =
      handler_ended (put_received r (JStr k) (JStr v) outcome) s1"
    unfolding t_def s1_def using assms(4) by (rule put_resumed)
  have s1: "gateway_ok fl s1" "broker_link s1 = Some Open" "current s1 r" "cached s1 = cached s"
    using assms(1-3) by (simp_all add: s1_def gateway_ok_def current_def cached_def fun_eq_iff)
  have same: "tasks s1 = tasks s" "objects s1 = objects s" by (simp_all add: s1_def)
  have "mirrored fl s s1" by (rule mirrored_same) (simp_all add: s1_def)
  then have "mirrored fl s1 u \<Longrightarrow> mirrored fl s u" for u by (rule mirror.trans_state)
  moreover have "conn t = Handling" "cached t = cached s" "outbox t = outbox s"
      "requests t = requests s @ [(PUT, ''coap://['' @ a @ '']/'' @ k, v)]"
    by (simp_all add: t_def cached_def fun_eq_iff)
  ultimately show ?thesis
    using put_outcome [OF s1(1-3) refl, of k v outcome] t s1(4)
    by (intro exI [of _ t]) (auto simp: Let_def same resume simp del: coap_handle.simps split: sum.splits)
qed

theorem update_round_trip_witness:
  "\<exists>m t. coap_handle id (\<lambda>_. []) toy_enc \<lparr>private_key = ''k'', secret_key = ''s''\<rparr> demo_options
      (Base (BrokerMessage m)) demo_coap = (Inr (), t)
     \<and> requests t = [(PUT, ''coap://[fd00::1]/led'', ''1'')]
     \<and> conn (snd (coap_handle id (\<lambda>_. []) toy_enc \<lparr>private_key = ''k'', secret_key = ''s''\<rparr> demo_options
         (Outcome 0 (Reply 68 [])) t)) = Reading
     \<and> cached (snd (coap_handle id (\<lambda>_. []) toy_enc \<lparr>private_key = ''k'', secret_key = ''s''\<rparr> demo_options
         (Outcome 0 (Reply 68 [])) t)) \<noteq> cached demo_coap"
proof -
  let ?data = "[(''uid'', JStr ''n1''), (''endpoint'', JStr ''led''), (''payload'', JStr ''1'')]"
  let ?m = "JObj [(''type'', JStr ''update''), (''data'', JObj ?data)]"
  have "loads id (serialize ?m) = Inr ?m" by (rule serialize_read) simp
  then have m: "update_message id (serialize ?m) (JStr (uid (objects demo_coap 0))) (JStr ''led'') (JStr ''1'')"
    by (simp add: update_message_def node_init_def check_broker_data_def py_contains_def)
  have n: "numbered demo_coap" by (simp add: numbered_def)
  have a: "list_all (byte_in 0 127) ''1''" by (simp add: byte_in_def)
  have ip: "resource_value (objects demo_coap 0) ''ip'' = Inr (JStr ''fd00::1'')"
    by (simp add: resource_value_def node_init_def)
  have r: "coap_resource (Reply 68 []) = Inr (CHANGED, [])"
    by (simp add: coap_resource_def decode_utf8_def CHANGED_def)
  have u: "uid (objects demo_coap 0) = ''n1''" by (simp add: node_init_def)
  have c: "(cached demo_coap)(''n1'' \<mapsto> (resource_map (resources (objects demo_coap 0)))(JStr ''led'' \<mapsto> JStr ''1''))
      \<noteq> cached demo_coap"
  proof
    assume "(cached demo_coap)(''n1'' \<mapsto> (resource_map (resources (objects demo_coap 0)))(JStr ''led'' \<mapsto> JStr ''1''))
      = cached demo_coap"
    from arg_cong [OF this, of "\<lambda>V. map_option (\<lambda>m. m (JStr ''led'')) (V ''n1'')"] show False
      by (simp add: cached_def node_init_def)
  qed
  obtain t where t: "coap_handle id (\<lambda>_. []) toy_enc \<lparr>private_key = ''k'', secret_key = ''s''\<rparr> demo_options
      (Base (BrokerMessage (serialize ?m))) demo_coap = (Inr (), t)"
    "requests t = [(PUT, ''coap://[fd00::1]/led'', ''1'')]"
    "(let u = snd (coap_handle id (\<lambda>_. []) toy_enc \<lparr>private_key = ''k'', secret_key = ''s''\<rparr> demo_options
         (Outcome 0 (Reply 68 [])) t) in conn u = Reading \<and> cached u = (cached demo_coap)(''n1'' \<mapsto> (resource_map (resources (objects demo_coap 0)))(JStr ''led'' \<mapsto> JStr ''1'')))"
    using update_round_trip [OF demo_coap_ok demo_coap_fields(4) demo_coap_current n m a ip,
        of "\<lambda>_. []" toy_enc "\<lparr>private_key = ''k'', secret_key = ''s''\<rparr>" demo_options "Reply 68 []"]
    by (auto simp: r u Let_def simp del: demo_coap_fields(12))
  then show ?thesis using c by (intro exI [of _ "serialize ?m"] exI [of _ t]) (simp add: Let_def)
qed

text \<open>
  A client ends a gateway's connection with the broker by updating a node with a payload
  that has no ASCII form: text with other characters raises \<open>UnicodeEncodeError\<close>, anything
  that is not text \<open>AttributeError\<close>, no request is made and the coroutine is dead.
\<close>

theorem payload_not_ascii_ends_connection:
  assumes "gateway_ok fl s" and "current s r"
    and "update_message fl m (JStr (uid (objects s r))) k v"
    and "\<nexists>w. v = JStr w \<and> list_all (byte_in 0 127) w"
    and "resource_value (objects s r) ''ip'' = Inr a"
  shows "coap_handle fl rep enc ks opts (Base (BrokerMessage m)) s =
    (Inr (), s\<lparr>conn := Dead (case v of JStr _ \<Rightarrow> UnicodeEncodeError | _ \<Rightarrow> AttributeError)\<rparr>)"
proof -
  have "update_node_resource rep r k v s =
      (Inl (case v of JStr _ \<Rightarrow> UnicodeEncodeError | _ \<Rightarrow> AttributeError), s)"
    using assms(4,5) by (cases v)
      (auto simp: update_node_resource_def node_ip_def get_object_def encode_ascii_def py_run)
  then show ?thesis
    using update_message_run [OF assms(3,1,2), of "update_node_resource rep"]
    by (simp add: message_read_def in_loop_def py_run)
qed

theorem payload_not_ascii_ends_connection_witness:
  "\<exists>m. conn (snd (coap_handle id (\<lambda>_. []) toy_enc \<lparr>private_key = ''k'', secret_key = ''s''\<rparr> demo_options
      (Base (BrokerMessage m)) demo_coap)) = Dead AttributeError"
proof -
  let ?data = "[(''uid'', JStr ''n1''), (''endpoint'', JStr ''led''), (''payload'', JInt 1)]"
  let ?m = "JObj [(''type'', JStr ''update''), (''data'', JObj ?data)]"
  have "loads id (serialize ?m) = Inr ?m" by (rule serialize_read) simp
  then have m: "update_message id (serialize ?m) (JStr (uid (objects demo_coap 0))) (JStr ''led'') (JInt 1)"
    by (simp add: update_message_def node_init_def check_broker_data_def py_contains_def)
  have ip: "resource_value (objects demo_coap 0) ''ip'' = Inr (JStr ''fd00::1'')"
    by (simp add: resource_value_def node_init_def)
  show ?thesis
    using payload_not_ascii_ends_connection [OF demo_coap_ok demo_coap_current m _ ip, where rep = "\<lambda>_. []"]
    by (intro exI [of _ "serialize ?m"]) simp
qed

end
