(* ===== verification/Composition_Updates.thy ===== *)
theory Composition_Updates
  imports Composition_Properties Coap_Updates
begin

text \<open>
  The way of an update through the broker and the CoAP gateway: from a client to the node, and
  from the node's answer to every client.
\<close>

section \<open>The parts of the way\<close>

lemma relay_to_all:
  assumes "broker_ok b" and "lists_node b n" and "json_ok fl k" and "json_ok fl v"
  shows "relay fl (update_node (JStr n) k v dst_all) b =
    b\<lparr>sent := sent b @ map (\<lambda>d. (d, update_node (JStr n) k v dst_all)) (reached b)\<rparr>"
proof -
  let ?kvs = "[(''type'', JStr ''update''), (''uid'', JStr n), (''endpoint'', k), (''data'', v), (''dst'', dst_all)]"
  obtain uids where w: "dict_get (gateways b) link_ws = Some uids" "py_in (JStr n) uids"
    using assms(2) by (auto simp: lists_node_def)
  have "valid_message (JObj ?kvs)" by (simp add: valid_message_def message_types_def)
  then have r: "relay fl (update_node (JStr n) k v dst_all) b = snd (on_gateway_message link_ws (JObj ?kvs) b)"
    unfolding update_node_def by (rule relay_text [rotated]) (use assms(3,4) in simp)
  have "targets b dst_all = map snd (clients b)" by (simp add: targets_def)
  then show ?thesis
    using gateway_message_any [OF assms(1) w(1) refl, of ?kvs "''update''" "JStr n" dst_all] w(2)
    unfolding r by (simp add: Let_def hashable_def update_node_def written_to_def reached_def)
qed

lemma texts_to_all:
  assumes "broker_ok b" and "t = b\<lparr>sent := sent b @ map (\<lambda>d. (d, m)) (reached b)\<rparr>"
  shows "texts_to d t = texts_to d b @ (if d \<in> set (reached b) then [m] else [])"
proof -
  have once: "map snd (filter (\<lambda>p. fst p = d) (map (\<lambda>d. (d, m)) ds)) = (if d \<in> set ds then [m] else [])"
    if "distinct ds" for ds
    using that by (induction ds) auto
  have "distinct (reached b)" using clients_distinct [OF assms(1)] by (simp add: reached_def)
  from once [OF this] show ?thesis by (simp add: assms(2) texts_append)
qed

lemma stamped_update:
  assumes "dict_get kvs ''type'' = Some (JStr ''update'')" and "dict_get kvs ''data'' = Some (JObj data)"
    and "check_broker_data (JObj data) = Inr True"
    and "dict_get data ''uid'' = Some n" and "dict_get data ''endpoint'' = Some k" and "dict_get data ''payload'' = Some v"
    and "loads fl y = Inr (JObj (dict_put kvs ''src'' u))"
  shows "update_message fl y n k v"
  using assms by (auto simp: update_message_def dict_get_put)

text \<open>A payload that has no ASCII form ends the coroutine that reads from the broker.\<close>

lemma edge_refuses:
  assumes "gateway_ok fl e" and "current e r" and "update_message fl y (JStr (uid (objects e r))) k v"
    and "encode_ascii v = Inl x" and "resource_value (objects e r) ''ip'' = Inr a"
  shows "coap_handle fl rep enc ks opts (Base (BrokerMessage y)) e = (Inr (), e\<lparr>conn := Dead x\<rparr>)"
proof -
  have "update_node_resource rep r k v e = (Inl x, e)"
    using assms(4,5) by (simp add: update_node_resource_def node_ip_def get_object_def py_run)
  then show ?thesis
    using update_message_run [OF assms(3,1,2), of "update_node_resource rep"]
    by (simp add: message_read_def in_loop_def py_run)
qed

definition accepts :: "coap_outcome \<Rightarrow> bool" where
  "accepts outcome \<longleftrightarrow> (case coap_resource outcome of Inl _ \<Rightarrow> False | Inr (code, _) \<Rightarrow> code = CHANGED)"

lemma edge_updates:
  assumes ok: "gateway_ok fl e" "broker_link e = Some Open" "current e r" "numbered e"
    and m: "update_message fl y (JStr (uid (objects e r))) (JStr k) (JStr v)" "list_all (byte_in 0 127) v"
    and ip: "resource_value (objects e r) ''ip'' = Inr (JStr a)"
  shows "\<exists>w. coap_handle fl rep enc ks opts (Base (BrokerMessage y)) e = (Inr (), w)
    \<and> dict_has (tasks w) (next_task e)
    \<and> (let t = snd (coap_handle fl rep enc ks opts (Outcome (next_task e) outcome) w) in
        requests t = requests e @ [(PUT, ''coap://['' @ a @ '']/'' @ k, v)]
        \<and> conn t = (case coap_resource outcome of Inl x \<Rightarrow> Dead x | Inr _ \<Rightarrow> Reading)
        \<and> outbox t = outbox e @
          (if accepts outcome then [update_node (JStr (uid (objects e r))) (JStr k) (JStr v) dst_all] else [])
        \<and> cached t = (if accepts outcome
            then (cached e)(uid (objects e r) \<mapsto> (resource_map (resources (objects e r)))(JStr k \<mapsto> JStr v))
            else cached e))"
proof -
  define q where "q = requests e @ [(PUT, ''coap://['' @ a @ '']/'' @ k, v)]"
  define e1 where "e1 = e\<lparr>conn := Handling, next_task := Suc (next_task e), requests := q\<rparr>"
  define w where "w = e\<lparr>conn := Handling, tasks := tasks e @ [(next_task e, AwaitPut r (JStr k) (JStr v))],
      next_task := Suc (next_task e), requests := q\<rparr>"
  define t where "t = snd (handler_ended (put_received r (JStr k) (JStr v) outcome) e1)"
  have ask: "coap_handle fl rep enc ks opts (Base (BrokerMessage y)) e = (Inr (), w)"
    unfolding w_def q_def by (rule update_requested [OF ok(1,3) m ip])
  have answer: "snd (coap_handle fl rep enc ks opts (Outcome (next_task e) outcome) w) = t"
    unfolding w_def t_def e1_def by (simp only: put_resumed [OF ok(4)])
  have e1: "gateway_ok fl e1" "broker_link e1 = Some Open" "current e1 r"
    using ok(1-3) by (simp_all add: e1_def gateway_ok_def current_def)
  have same: "cached e1 = cached e" "objects e1 = objects e" "outbox e1 = outbox e" "requests e1 = q"
    by (simp_all add: e1_def cached_def fun_eq_iff)
  have "dict_has (tasks w) (next_task e)" by (simp add: w_def dict_has_iff)
  with put_outcome [OF e1 t_def] put_written [OF e1(2) t_def] ask show ?thesis
    by (intro exI [of _ w])
      (auto simp: answer same q_def accepts_def Let_def simp del: coap_handle.simps split: sum.splits)
qed

lemma hub_told:
  assumes "broker_ok (hub s)" and "lists_node (hub s) n" and "json_ok fl k" and "json_ok fl v"
    and "outbox (edge s) = pre @ (if accepted then [update_node (JStr n) k v dst_all] else [])"
    and "read_up s = length pre" and "gateways (hub s) = [(link_ws, uids)]"
    and t: "t = run_events (system_handle fl rep enc ks opts) s (if accepted then [Up] else [])"
  shows "edge t = edge s \<and> read_down t = read_down s \<and> read_up t = length (outbox (edge t))
    \<and> texts_to link_ws (hub t) = texts_to link_ws (hub s)
    \<and> (\<forall>(w, d) \<in> set (clients (hub s)). texts_to d (hub t) = texts_to d (hub s) @
         (if accepted \<and> d \<in> set (reached (hub s)) then [update_node (JStr n) k v dst_all] else []))"
proof (cases accepted)
  case True
  let ?m = "update_node (JStr n) k v dst_all"
  have "t = s\<lparr>read_up := Suc (read_up s), hub := relay fl ?m (hub s)\<rparr>"
    using ups_run [of s pre "[?m]"] assms(5,6) True by (simp add: t)
  moreover have "link_ws \<notin> set (reached (hub s))"
    using assms(1,7) reached_registered [of link_ws "hub s"] by (force simp: broker_ok_def)
  ultimately show ?thesis
    using texts_to_all [OF assms(1) relay_to_all [OF assms(1-4)]] assms(5,6) True by auto
next
  case False
  then show ?thesis using assms(5,6) by (auto simp: t)
qed

text \<open>The client's text is forwarded by the broker and read by the gateway.\<close>

lemma update_delivered:
  assumes "canonical_floats fl" and "system_ok fl s" and "conn (edge s) = Reading"
    and "read_down s = length (texts_to link_ws (hub s))" and "gateways_up (hub s)"
    and "handler_uid (hub s) c = JStr u" and m: "update_message fl x n k v"
  obtains y b where "update_message fl y n k v" and "b = (hub s)\<lparr>sent := sent (hub s) @ [(link_ws, y)]\<rparr>"
    and "length (texts_to link_ws b) = Suc (read_down s)"
    and "run_events (system_handle fl rep enc ks opts) s [Hub (ClientMessage c (Text x)), Down] =
      s\<lparr>hub := b, read_down := Suc (read_down s),
        edge := snd (coap_handle fl rep enc ks opts (Base (BrokerMessage y)) (edge s))\<rparr>"
    and "run_enabled (system_handle fl rep enc ks opts) system_enabled s [Hub (ClientMessage c (Text x)), Down]"
proof -
  obtain kvs data where x: "loads fl x = Inr (JObj kvs)" "dict_get kvs ''type'' = Some (JStr ''update'')"
    "dict_get kvs ''data'' = Some (JObj data)" "check_broker_data (JObj data) = Inr True"
    "dict_get data ''uid'' = Some n" "dict_get data ''endpoint'' = Some k" "dict_get data ''payload'' = Some v"
    using m by (auto simp: update_message_def)
  have ok: "broker_ok (hub s)" using assms(2) by (simp add: system_ok_def)
  obtain uids where g: "gateways (hub s) = [(link_ws, uids)]" using assms(2) by (auto simp: system_ok_def)
  define y where "y = serialize (JObj (dict_put kvs ''src'' (JStr u)))"
  define b where "b = (hub s)\<lparr>sent := sent (hub s) @ [(link_ws, y)]\<rparr>"
  have forwarded: "snd (broker_handle fl (ClientMessage c (Text x)) (hub s)) = b"
      and y: "loads fl y = Inr (JObj (dict_put kvs ''src'' (JStr u)))"
    using client_text_forwarded [OF assms(1) ok g assms(5,6) x(1,2) _ refl] by (simp_all add: b_def y_def message_types_def)
  have read: "texts_to link_ws b ! read_down s = y" "read_down s < length (texts_to link_ws b)"
      "length (texts_to link_ws b) = Suc (read_down s)"
    using assms(4) by (simp_all add: b_def texts_to_def nth_append)
  show thesis
  proof (rule that [OF stamped_update [OF x(2-7) y] b_def read(3)])
    show "run_events (system_handle fl rep enc ks opts) s [Hub (ClientMessage c (Text x)), Down] =
        s\<lparr>hub := b, read_down := Suc (read_down s),
          edge := snd (coap_handle fl rep enc ks opts (Base (BrokerMessage y)) (edge s))\<rparr>"
      by (simp add: forwarded read(1) bind_gets seq_modify del: broker_handle.simps coap_handle.simps)
    show "run_enabled (system_handle fl rep enc ks opts) system_enabled s [Hub (ClientMessage c (Text x)), Down]"
      using assms(3,6) read(2) by (simp add: forwarded del: broker_handle.simps coap_handle.simps)
  qed
qed

section \<open>The whole way\<close>

text \<open>Whether the payload can be sent to the node and the outcome of the request is that it was accepted.\<close>

definition update_taken :: "json \<Rightarrow> coap_outcome \<Rightarrow> bool" where
  "update_taken v outcome \<longleftrightarrow> (case encode_ascii v of Inl _ \<Rightarrow> False | Inr _ \<Rightarrow> accepts outcome)"

definition update_events :: "nat \<Rightarrow> ws \<Rightarrow> string \<Rightarrow> json \<Rightarrow> coap_outcome \<Rightarrow> system_event list" where
  "update_events i c x v outcome =
     [Hub (ClientMessage c (Text x)), Down]
     @ (case encode_ascii v of Inl _ \<Rightarrow> [] | Inr _ \<Rightarrow> [Edge (Outcome i outcome)])
     @ (if update_taken v outcome then [Up] else [])"

lemma encode_ascii_text: "encode_ascii v = Inr bs \<Longrightarrow> v = JStr bs \<and> list_all (byte_in 0 127) bs"
  by (auto simp: encode_ascii_def split: json.splits if_splits)


definition busy_system :: system where
  "busy_system = demo_system\<lparr>hub := (hub demo_system)\<lparr>gateways := [(link_ws, [JStr ''n1''])], clients := [(JStr ''c7'', 7)]\<rparr>\<rparr>"

lemma busy_system_ok: "system_ok fl busy_system"
proof -
  have "broker_ok (hub busy_system)"
    by (auto simp: busy_system_def broker_ok_def link_ws_def pairwise_distinct_def)
  then show ?thesis
    using demo_system_ok [of fl] by (simp add: system_ok_def in_order_def texts_to_def busy_system_def)
qed


end
