(* ===== verification/Coap_Cleanup.thy ===== *)
theory Coap_Cleanup
  imports Coap_Updates
begin

text \<open>
  Values that nodes post, replies that arrive after their node was replaced, and the removal
  of nodes that fell silent.
\<close>

section \<open>Posted values\<close>

lemma server_post_forwards:
  assumes "gateway_ok fl s" and "broker_link s = Some Open"
    and "CHR '':'' \<notin> set path" and "utf8_valid (path @ CHR '':'' # data)"
    and "dict_get (node_mapping s) addr = Some u" and "dict_get (nodes s) u = Some r"
  shows "server_render_post addr (path @ CHR '':'' # data) s =
      (Inr (post_reply (path @ CHR '':'' # data)), snd (forward_data_from_node r (JStr path) (JStr data) s))"
    and "outbox (snd (forward_data_from_node r (JStr path) (JStr data) s)) =
      outbox s @ [update_node (JStr u) (JStr path) (JStr data) dst_all]"
proof -
  let ?b = "path @ CHR '':'' # data"
  have split: "split_pair CHR '':'' ?b = Inr (path, data)"
    using assms(3) by (auto simp: split_pair_def takeWhile_append dropWhile_append)
  have h: "hashable (JStr path)" by (simp add: hashable_def)
  have u: "current s r" "uid (objects s r) = u"
    using gateway_ok_node [OF assms(1,6)] assms(6) by (auto simp: current_def)
  show "server_render_post addr ?b s = (Inr (post_reply ?b), snd (forward_data_from_node r (JStr path) (JStr data) s))"
    using assms(4-6) forward_run [OF assms(2) h, of r "JStr data"]
    by (simp add: server_render_post_def decode_utf8_def split handle_coap_post_def get_mapped_def get_node_def
        dict_has_def py_run)
  show "outbox (snd (forward_data_from_node r (JStr path) (JStr data) s)) =
      outbox s @ [update_node (JStr u) (JStr path) (JStr data) dst_all]"
    using forward_run [OF assms(2) h, of r "JStr data"] set_resource_run [OF h, of r "JStr data" s] u(2)
    by (simp add: said_def)
qed

lemma server_post_run:
  assumes "gateway_ok fl s" and "broker_link s = Some Open"
    and "CHR '':'' \<notin> set path" and "utf8_valid (path @ CHR '':'' # data)"
    and "dict_get (node_mapping s) addr = Some u" and "dict_get (nodes s) u = Some r"
  shows "\<exists>t. server_render_post addr (path @ CHR '':'' # data) s = (Inr (post_reply (path @ CHR '':'' # data)), t)
    \<and> cached t = (cached s)(u \<mapsto> (resource_map (resources (objects s r)))(JStr path \<mapsto> JStr data))
    \<and> mirrored fl s t"
proof -
  have u: "current s r" "uid (objects s r) = u"
    using gateway_ok_node [OF assms(1,6)] assms(6) by (auto simp: current_def)
  show ?thesis
    using server_post_forwards(1) [OF assms] forward_step(7,8) [OF assms(1,2) u(1), of path data] u(2) by simp
qed

text \<open>
  A value posted by a node is stored under the path before the first colon, told to the
  readers and acknowledged.  A post from an unknown address is acknowledged and ignored; one
  that has no colon or is not UTF-8 is an error; neither changes anything.
\<close>

theorem posted_value_stored:
  assumes "gateway_ok fl s" and "broker_link s = Some Open"
  shows "(\<not> utf8_valid bytes \<longrightarrow> server_render_post addr bytes s = (Inl UnicodeDecodeError, s))
    \<and> (utf8_valid bytes \<and> CHR '':'' \<notin> set bytes \<longrightarrow> server_render_post addr bytes s = (Inl ValueError, s))
    \<and> (CHR '':'' \<notin> set path \<and> utf8_valid (path @ CHR '':'' # data) \<longrightarrow>
        (\<not> dict_has (node_mapping s) addr \<longrightarrow>
          server_render_post addr (path @ CHR '':'' # data) s = (Inr (post_reply (path @ CHR '':'' # data)), s))
      \<and> (dict_get (node_mapping s) addr = Some u \<and> dict_get (nodes s) u = Some r \<longrightarrow>
          (\<exists>t. server_render_post addr (path @ CHR '':'' # data) s = (Inr (post_reply (path @ CHR '':'' # data)), t)
            \<and> cached t = (cached s)(u \<mapsto> (resource_map (resources (objects s r)))(JStr path \<mapsto> JStr data))
            \<and> mirrored fl s t)))"
proof (intro conjI impI)
  show "server_render_post addr bytes s = (Inl UnicodeDecodeError, s)" if "\<not> utf8_valid bytes"
    using that by (simp add: server_render_post_def decode_utf8_def py_run)
  show "server_render_post addr bytes s = (Inl ValueError, s)" if "utf8_valid bytes \<and> CHR '':'' \<notin> set bytes"
    using that by (simp add: server_render_post_def decode_utf8_def split_pair_def py_run)
next
  let ?b = "path @ CHR '':'' # data"
  assume b: "CHR '':'' \<notin> set path \<and> utf8_valid ?b"
  then have split: "split_pair CHR '':'' ?b = Inr (path, data)"
    by (auto simp: split_pair_def takeWhile_append dropWhile_append)
  note step = server_render_post_def decode_utf8_def split handle_coap_post_def get_mapped_def get_node_def
  show "server_render_post addr ?b s = (Inr (post_reply ?b), s)" if "\<not> dict_has (node_mapping s) addr"
    using b that by (simp add: step py_run)
  assume n: "dict_get (node_mapping s) addr = Some u \<and> dict_get (nodes s) u = Some r"
  with b show "\<exists>t. server_render_post addr ?b s = (Inr (post_reply ?b), t)
      \<and> cached t = (cached s)(u \<mapsto> (resource_map (resources (objects s r)))(JStr path \<mapsto> JStr data))
      \<and> mirrored fl s t"
    by (intro server_post_run [OF assms]) simp_all
qed

theorem posted_value_stored_witness:
  "\<exists>t. server_render_post ''fd00::1'' (''time'' @ CHR '':'' # ''12:30'') demo_coap =
      (Inr (post_reply ''time:12:30''), t)
    \<and> cached t ''n1'' = Some [JStr ''ip'' \<mapsto> JStr ''fd00::1'', JStr ''protocol'' \<mapsto> JStr ''CoAP'', JStr ''time'' \<mapsto> JStr ''12:30'']"
  using posted_value_stored [OF demo_coap_ok demo_coap_fields(4), of "[]" "''fd00::1''" "''time''" "''12:30''" "''n1''" 0 id]
  by (auto simp: byte_in_def node_init_def fun_upd_twist)

section \<open>Late replies\<close>

text \<open>
  A reply that arrives for a node object which an alive message has replaced in the
  meantime is told to the readers under the uid but not stored in the cache: from then on the
  readers and the cache disagree about that resource.
\<close>

theorem late_reply_not_cached:
  assumes "gateway_ok fl s" and "broker_link s = Some Open" and "uid (objects s r) = u"
    and "dict_get (nodes s) u = Some r'" and "r' \<noteq> r" and "coap_resource x = Inr (c, b)"
  shows "\<exists>t. resume (AwaitResource r url path []) x s = (Inr (), t)
     \<and> cached t = cached s
     \<and> (\<exists>m. outbox t = outbox s @ [m]
         \<and> tell fl m (cached s) = (cached s)(u \<mapsto> (resource_map (resources (objects s r')))(JStr (tail_text path) \<mapsto> JStr b)))"
proof -
  define p where "p = tail_text path"
  have h: "hashable (JStr p)" by (simp add: hashable_def)
  let ?m = "update_node (JStr u) (JStr p) (JStr b) dst_all"
  let ?t = "said (snd (set_resource r (JStr p) (JStr b) s)) [?m]"
  have run: "resume (AwaitResource r url path []) x s = (Inr (), ?t)"
    using assms(3,6) forward_run [OF assms(2) h, of r "JStr b"]
    by (simp add: resume_def resource_received_def discover_next_def p_def py_run)
  have "r'' \<noteq> r" if "dict_get (nodes s) w = Some r''" for w r''
    using that assms(3-5) gateway_ok_node [OF assms(1) that] by auto
  then have "cached (snd (set_resource r (JStr p) (JStr b) s)) w = cached s w" for w
    by (cases "dict_get (nodes s) w") (auto simp: cached_def set_resource_run [OF h])
  then have "cached ?t = cached s" by (simp add: fun_eq_iff)
  moreover have "outbox ?t = outbox s @ [?m]" by (simp add: set_resource_run [OF h])
  moreover have "tell fl ?m (cached s) = (cached s)(u \<mapsto> (resource_map (resources (objects s r')))(JStr p \<mapsto> JStr b))"
    using assms(4) by (simp add: cached_def)
  ultimately show ?thesis using run unfolding p_def by blast
qed

theorem late_reply_not_cached_witness:
  "\<exists>t. resume (AwaitResource 5 ''coap://[fd00::1]'' ''/led'' []) (Reply 69 ''on'')
      (demo_coap\<lparr>objects := (objects demo_coap)(5 := node_init 0 ''n1'' []), fresh := 6\<rparr>) = (Inr (), t)
     \<and> (\<exists>m. outbox t = [m] \<and> tell id m (cached t) ''n1'' \<noteq> cached t ''n1'')"
proof -
  let ?s = "demo_coap\<lparr>objects := (objects demo_coap)(5 := node_init 0 ''n1'' []), fresh := 6\<rparr>"
  have ok: "gateway_ok id ?s"
    using demo_coap_ok [of id] by (auto simp: gateway_ok_def node_init_def)
  have r: "coap_resource (Reply 69 ''on'') = Inr (Code 69, ''on'')"
    by (simp add: coap_resource_def decode_utf8_def byte_in_def)
  obtain t m where t: "resume (AwaitResource 5 ''coap://[fd00::1]'' ''/led'' []) (Reply 69 ''on'') ?s = (Inr (), t)"
    "cached t = cached ?s" "outbox t = [m]"
    "tell id m (cached ?s) ''n1'' = Some ((resource_map (resources (objects ?s 0)))(JStr ''led'' \<mapsto> JStr ''on''))"
    using late_reply_not_cached [OF ok _ _ _ _ r, of 5 "''n1''" 0 "''coap://[fd00::1]''" "''/led''"]
    by (auto simp: node_init_def tail_text_def byte_in_def)
  moreover have "cached ?s ''n1'' = Some (resource_map (resources (objects ?s 0)))"
    by (simp add: cached_def)
  moreover have "resource_map (resources (objects ?s 0)) (JStr ''led'') = None"
    by (simp add: node_init_def)
  then have "(resource_map (resources (objects ?s 0)))(JStr ''led'' \<mapsto> JStr ''on'') \<noteq> resource_map (resources (objects ?s 0))"
    by (metis fun_upd_same option.distinct(1))
  ultimately show ?thesis by (intro exI [of _ t]) simp
qed

section \<open>Silent nodes\<close>

text \<open>Every cached node's address leads back to its uid.\<close>

definition addresses_ok :: "coap_gateway \<Rightarrow> bool" where
  "addresses_ok s \<longleftrightarrow> (\<forall>(u, r) \<in> set (nodes s). \<exists>a.
     resource_value (objects s r) ''ip'' = Inr (JStr a) \<and> dict_get (node_mapping s) a = Some u)"

definition gone :: "coap_gateway \<Rightarrow> nat list \<Rightarrow> coap_gateway \<Rightarrow> bool" where
  "gone s rs t \<longleftrightarrow> nodes t = filter (\<lambda>(u, r). r \<notin> set rs) (nodes s) \<and> objects t = objects s
     \<and> broker_link t = broker_link s
     \<and> outbox t = outbox s @ (if broker_link s = Some Open then map (\<lambda>r. out_node (JStr (uid (objects s r)))) rs else [])"

lemma dict_del_object:
  assumes "gateway_ok fl s" and "current s r"
  shows "dict_del (nodes s) (uid (objects s r)) = filter (\<lambda>(u, r'). r' \<notin> {r}) (nodes s)"
proof -
  have ok: "dict_ok (nodes s)" using assms(1) by (simp add: gateway_ok_def)
  have "u \<noteq> uid (objects s r) \<longleftrightarrow> r' \<noteq> r" if "(u, r') \<in> set (nodes s)" for u r'
  proof
    assume "r' \<noteq> r"
    have "dict_get (nodes s) u = Some r'" using that ok by (simp add: dict.get_items)
    with \<open>r' \<noteq> r\<close> show "u \<noteq> uid (objects s r)" using assms(2) by (auto simp: current_def)
  next
    assume "u \<noteq> uid (objects s r)"
    moreover have "uid (objects s r') = u" using that assms(1) by (auto simp: gateway_ok_def)
    ultimately show "r' \<noteq> r" by auto
  qed
  then show ?thesis unfolding dict_del_filter [OF ok] by (intro filter_cong) auto
qed

lemma drop_node_run:
  assumes "gateway_ok fl s" and "current s r" and "addresses_ok s" and "dict_ok (node_mapping s)"
  shows "\<exists>t. drop_node r s = (if broker_link s = Some Closed then Inl WebSocketClosedError else Inr (), t)
    \<and> gone s [r] t \<and> gateway_ok fl t \<and> addresses_ok t \<and> dict_ok (node_mapping t)
    \<and> (broker_link s = Some Open \<longrightarrow> mirrored fl s t)"
proof -
  let ?u = "uid (objects s r)"
  have r: "(?u, r) \<in> set (nodes s)" using assms(2) by (auto simp: current_def dest: map_of_SomeD)
  then obtain a where a: "resource_value (objects s r) ''ip'' = Inr (JStr a)" "dict_get (node_mapping s) a = Some ?u"
    using assms(3) by (auto simp: addresses_ok_def)
  let ?t = "s\<lparr>node_mapping := dict_del (node_mapping s) a, nodes := dict_del (nodes s) ?u,
      outbox := outbox s @ (if broker_link s = Some Open then [out_node (JStr ?u)] else [])\<rparr>"
  have 1: "drop_node r s = (if broker_link s = Some Closed then Inl WebSocketClosedError else Inr (), ?t)"
    using a assms(2)
    by (simp add: drop_node_def node_ip_def get_object_def pop_mapping_def hashable_def dict_has_def remove_node_def
        send_to_broker_def current_def py_run split: option.split link.split)
  have ok: "dict_ok (nodes s)" using assms(1) by (simp add: gateway_ok_def)
  have 2: "gone s [r] ?t" using dict_del_object [OF assms(1,2)] by (simp add: gone_def)
  have 3: "gateway_ok fl ?t" using assms(1) by (auto simp: gateway_ok_def dict_ok_del dest: dict_delD)
  have 4: "dict_ok (node_mapping ?t)" using assms(4) by (simp add: dict_ok_del)
  have 5: "addresses_ok ?t"
    unfolding addresses_ok_def
  proof (clarify)
    fix u r' assume "(u, r') \<in> set (nodes ?t)"
    then have "(u, r') \<in> set (nodes s)" "u \<noteq> ?u" by (auto simp: dict_del_filter [OF ok])
    then obtain b where b: "resource_value (objects s r') ''ip'' = Inr (JStr b)" "dict_get (node_mapping s) b = Some u"
      using assms(3) by (auto simp: addresses_ok_def)
    with a(2) \<open>u \<noteq> ?u\<close> have "b \<noteq> a" by auto
    with b show "\<exists>b. resource_value (objects ?t r') ''ip'' = Inr (JStr b) \<and> dict_get (node_mapping ?t) b = Some u"
      using assms(4) by (auto simp: dict.get_del)
  qed
  have "cached ?t = (cached s)(?u := None)" by (rule cached_del [OF assms(1)]) simp_all
  then have "mirrored fl s ?t" if "broker_link s = Some Open" using that by (simp add: mirrored_def)
  with 1 2 3 4 5 show ?thesis by blast
qed

lemma drop_nodes_run:
  assumes "gateway_ok fl s" and "broker_link s \<noteq> Some Closed" and "addresses_ok s" and "dict_ok (node_mapping s)"
    and "distinct rs" and "\<forall>r \<in> set rs. current s r"
  shows "\<exists>t. for_each rs drop_node s = (Inr (), t) \<and> gone s rs t \<and> addresses_ok t
    \<and> (broker_link s = Some Open \<longrightarrow> mirrored fl s t)"
  using assms
proof (induction rs arbitrary: s)
  case Nil
  then show ?case by (auto simp: gone_def py_run mirror.refl_state)
next
  case (Cons r rs)
  then obtain s1 where s1: "drop_node r s = (Inr (), s1)" "gone s [r] s1" "gateway_ok fl s1"
    "addresses_ok s1" "dict_ok (node_mapping s1)" "broker_link s = Some Open \<longrightarrow> mirrored fl s s1"
    using drop_node_run [of fl s r] by auto
  have link: "broker_link s1 = broker_link s" using s1(2) by (simp add: gone_def)
  have "\<forall>r' \<in> set rs. current s1 r'"
  proof
    fix r' assume "r' \<in> set rs"
    then have "current s r'" "r' \<noteq> r" using Cons.prems by auto
    then have "(uid (objects s r'), r') \<in> set (nodes s1)" "objects s1 r' = objects s r'"
      using s1(2) by (auto simp: gone_def current_def dest: map_of_SomeD)
    moreover have "dict_ok (nodes s1)" using s1(3) by (simp add: gateway_ok_def)
    ultimately show "current s1 r'" by (simp add: current_def dict.get_items)
  qed
  then obtain t where t: "for_each rs drop_node s1 = (Inr (), t)" "gone s1 rs t" "addresses_ok t"
    "broker_link s = Some Open \<longrightarrow> mirrored fl s1 t"
    using Cons.IH [OF s1(3) _ s1(4,5)] Cons.prems(2,5) link by auto
  have "gone s (r # rs) t"
    using s1(2) t(2) by (auto simp: gone_def intro!: filter_cong)
  with s1(1,6) t show ?case by (auto simp: py_run intro: mirror.trans_state)
qed

text \<open>The dead nodes, in the order in which the cache lists them.\<close>

definition dead_nodes :: "coap_options \<Rightarrow> coap_gateway \<Rightarrow> (string \<times> nat) list" where
  "dead_nodes opts s = filter (\<lambda>(u, r). is_dead opts s r) (nodes s)"

lemma dead_nodes_objects:
  assumes "gateway_ok fl s"
  shows "filter (is_dead opts s) (map snd (nodes s)) = map snd (dead_nodes opts s)"
    and "distinct (map snd (dead_nodes opts s))" and "\<forall>r \<in> set (map snd (dead_nodes opts s)). current s r"
    and "map (\<lambda>r. out_node (JStr (uid (objects s r)))) (map snd (dead_nodes opts s))
      = map (\<lambda>(u, r). out_node (JStr u)) (dead_nodes opts s)"
    and "filter (\<lambda>(u, r). r \<notin> set (map snd (dead_nodes opts s))) (nodes s) = filter (\<lambda>(u, r). \<not> is_dead opts s r) (nodes s)"
proof -
  have ns: "dict_ok (nodes s)" "\<forall>(u, r) \<in> set (nodes s). uid (objects s r) = u"
    using assms by (auto simp: gateway_ok_def)
  have "inj_on snd (set (nodes s))"
  proof (rule inj_onI)
    fix p q assume "p \<in> set (nodes s)" "q \<in> set (nodes s)" "snd p = snd q"
    moreover have "uid (objects s (snd x)) = fst x" if "x \<in> set (nodes s)" for x using ns(2) that by auto
    ultimately show "p = q" by (metis prod_eqI)
  qed
  then show "distinct (map snd (dead_nodes opts s))"
    using ns(1) by (simp add: dead_nodes_def dict_ok_def distinct_map inj_on_def)
  show "filter (is_dead opts s) (map snd (nodes s)) = map snd (dead_nodes opts s)"
    by (simp add: dead_nodes_def filter_map comp_def split_def)
  show "\<forall>r \<in> set (map snd (dead_nodes opts s)). current s r"
    using ns by (auto simp: dead_nodes_def current_def dict.get_items)
  show "map (\<lambda>r. out_node (JStr (uid (objects s r)))) (map snd (dead_nodes opts s))
      = map (\<lambda>(u, r). out_node (JStr u)) (dead_nodes opts s)"
    using ns(2) by (auto simp: dead_nodes_def)
  show "filter (\<lambda>(u, r). r \<notin> set (map snd (dead_nodes opts s))) (nodes s) = filter (\<lambda>(u, r). \<not> is_dead opts s r) (nodes s)"
    by (rule filter_cong) (auto simp: dead_nodes_def image_iff)
qed

lemma cleanup_run:
  assumes "gateway_ok fl s" and "addresses_ok s" and "dict_ok (node_mapping s)"
  shows "\<exists>t. addresses_ok t \<and>
    (if broker_link s = Some Closed \<and> dead_nodes opts s \<noteq> []
     then check_dead_nodes opts s = (Inl WebSocketClosedError, t) \<and> outbox t = outbox s
       \<and> nodes t = filter (\<lambda>(u, r). r \<noteq> snd (hd (dead_nodes opts s))) (nodes s)
     else check_dead_nodes opts s = (Inr (), t)
       \<and> nodes t = filter (\<lambda>(u, r). \<not> is_dead opts s r) (nodes s)
       \<and> outbox t = outbox s @
           (if broker_link s = Some Open then map (\<lambda>(u, r). out_node (JStr u)) (dead_nodes opts s) else [])
       \<and> (broker_link s = Some Open \<longrightarrow> mirrored fl s t))"
proof -
  note dead = dead_nodes_objects [OF assms(1), of opts]
  have run: "check_dead_nodes opts s = for_each (map snd (dead_nodes opts s)) drop_node s"
    by (simp add: check_dead_nodes_def bind_gets dead(1))
  show ?thesis
  proof (cases "broker_link s = Some Closed")
    case True
    show ?thesis
    proof (cases "dead_nodes opts s")
      case Nil
      have alive: "filter (\<lambda>(u, r). \<not> is_dead opts s r) (nodes s) = nodes s"
        using Nil by (auto simp: dead_nodes_def filter_empty_conv filter_id_conv)
      show ?thesis by (rule exI [of _ s]) (simp add: run Nil ret_run assms(2) alive True)
    next
      case (Cons p ps)
      then have "current s (snd p)" using dead(3) by simp
      from drop_node_run [OF assms(1) this assms(2,3)] True obtain t where
        "drop_node (snd p) s = (Inl WebSocketClosedError, t)" "gone s [snd p] t" "addresses_ok t" by auto
      then show ?thesis using True Cons by (intro exI [of _ t]) (simp add: run seq_fails gone_def)
    qed
  next
    case False
    obtain t where "for_each (map snd (dead_nodes opts s)) drop_node s = (Inr (), t)"
        "gone s (map snd (dead_nodes opts s)) t" "addresses_ok t" "broker_link s = Some Open \<longrightarrow> mirrored fl s t"
      using drop_nodes_run [OF assms(1) False assms(2,3) dead(2,3)] by blast
    then show ?thesis
      using False dead(4,5) by (intro exI [of _ t]) (simp add: run gone_def)
  qed
qed



text \<open>
  Two nodes that announce themselves from one address block the cleanup: the address leads
  to the later one only, so once it has been taken away with one of them, a silent node at the
  head of the list that still carries it makes every cleanup raise \<open>KeyError\<close> before any node
  is removed.
\<close>

theorem shared_address_blocks_cleanup:
  assumes "filter (is_dead opts s) (map snd (nodes s)) = r # rs"
    and "resource_value (objects s r) ''ip'' = Inr (JStr a)" and "\<not> dict_has (node_mapping s) a"
  shows "coap_handle fl rep enc ks opts Cleanup s = (Inl KeyError, s)"
  using assms
  by (simp add: check_dead_nodes_def bind_gets drop_node_def node_ip_def get_object_def pop_mapping_def
      hashable_def py_run)

definition shared_run :: "coap_event list" where
  "shared_run = [AlivePost ''fd00::1'' ''alive:u1'', AlivePost ''fd00::1'' ''alive:u2'',
     Base (Tick (200 * ticks_per_second)), Cleanup]"

theorem shared_address_blocks_cleanup_witness:
  "nodes (run_events (coap_handle id (\<lambda>_. []) toy_enc \<lparr>private_key = ''k'', secret_key = ''s''\<rparr> demo_options)
      (coap_init 0) shared_run) = [(''u2'', 1)]
   \<and> coap_handle id (\<lambda>_. []) toy_enc \<lparr>private_key = ''k'', secret_key = ''s''\<rparr> demo_options Cleanup
      (run_events (coap_handle id (\<lambda>_. []) toy_enc \<lparr>private_key = ''k'', secret_key = ''s''\<rparr> demo_options)
        (coap_init 0) shared_run) =
     (Inl KeyError, run_events (coap_handle id (\<lambda>_. []) toy_enc \<lparr>private_key = ''k'', secret_key = ''s''\<rparr> demo_options)
        (coap_init 0) shared_run)"
proof -
  define s where "s = run_events (coap_handle id (\<lambda>_. []) toy_enc \<lparr>private_key = ''k'', secret_key = ''s''\<rparr> demo_options)
      (coap_init 0) shared_run"
  have s: "nodes s = [(''u2'', 1)]" "node_mapping s = []"
    "clock s = 200 * ticks_per_second" "objects s 1 = node_init 0 ''u2'' [(JStr ''ip'', JStr ''fd00::1''), (JStr ''protocol'', JStr ''CoAP'')]"
    unfolding s_def by code_simp+
  have "coap_handle id (\<lambda>_. []) toy_enc \<lparr>private_key = ''k'', secret_key = ''s''\<rparr> demo_options Cleanup s = (Inl KeyError, s)"
    by (rule shared_address_blocks_cleanup [of _ _ 1 "[]" "''fd00::1''"])
      (use s in \<open>simp_all add: is_dead_def seconds_now_def demo_options_def node_init_def resource_value_def ticks_per_second_def\<close>)
  with s(1) show ?thesis by (simp add: s_def)
qed

end
