(* ===== verification/Coap_Node.thy ===== *)
theory Coap_Node
  imports Coap_Cleanup
begin

text \<open>
  \<open>utils/coap/coap-test-node.py\<close>: the CoAP test node.

  The state holds the attributes of the resources and the texts the node has posted to the
  gateway, each with the last segment of its URL.  As in the gateway, the outcome of a request is
  an argument; the numbers that \<open>random\<close> draws are arguments too.  A payload remembers whether it
  is a byte string or a text, because the LED resource mixes them.  The IMU readings are ASCII,
  so the escaping of \<open>json.dumps\<close> does not show.
\<close>

section \<open>Posts to the gateway\<close>

datatype payload = Bytes string | Str string

record coap_node =
  led_value :: payload
  robot_action :: payload
  js_script :: payload
  posted :: "(string \<times> string) list"

text \<open>
  \<open>_coap_resource\<close>: whatever the request raises becomes a code, but not what decoding the reply
  raises; when the client context cannot be made nothing is sent.
\<close>

fun sent_out :: "coap_outcome \<Rightarrow> bool" where
  "sent_out (SetupFailed e) \<longleftrightarrow> False"
| "sent_out outcome \<longleftrightarrow> True"

definition node_coap_resource :: "string \<Rightarrow> string \<Rightarrow> coap_outcome \<Rightarrow> (coap_node, coap_code \<times> string) py" where
  "node_coap_resource path bytes outcome =
     seq (if sent_out outcome then modify (\<lambda>n. n\<lparr>posted := posted n @ [(path, bytes)]\<rparr>) else ret ())
     (lift (coap_resource outcome))"

definition node_uid :: string where
  "node_uid = ''1234''"

definition send_alive_post :: "coap_outcome \<Rightarrow> (coap_node, unit) py" where
  "send_alive_post outcome = seq (node_coap_resource ''alive'' (''Alive:'' @ node_uid) outcome) (ret ())"

definition degree_sign :: string where
  "degree_sign = [CHR 0xC2, CHR 0xB0]"

definition send_temperature :: "int \<Rightarrow> coap_outcome \<Rightarrow> (coap_node, unit) py" where
  "send_temperature n outcome =
     seq (node_coap_resource ''server'' (''temperature:'' @ int_literal n @ degree_sign @ ''C'') outcome) (ret ())"

definition send_pressure :: "int \<Rightarrow> coap_outcome \<Rightarrow> (coap_node, unit) py" where
  "send_pressure n outcome =
     seq (node_coap_resource ''server'' (''pressure:'' @ int_literal n @ ''hPa'') outcome) (ret ())"

definition imu_value :: "int list \<Rightarrow> int list \<Rightarrow> int list \<Rightarrow> string" where
  "imu_value acc mag gyro = dumps (JList (map (\<lambda>(t, vs). JObj [(''type'', JStr t), (''values'', JList (map JInt vs))])
     [(''acc'', acc), (''mag'', mag), (''gyro'', gyro)]))"

definition send_imu :: "int \<times> int \<times> int \<Rightarrow> int \<times> int \<times> int \<Rightarrow> int \<times> int \<times> int \<Rightarrow> coap_outcome \<Rightarrow> (coap_node, unit) py" where
  "send_imu acc mag gyro outcome =
     (let triple = (\<lambda>(x, y, z). [x, y, z]) in
      seq (node_coap_resource ''server'' (''imu:'' @ imu_value (triple acc) (triple mag) (triple gyro)) outcome) (ret ()))"

definition send_version :: "int \<Rightarrow> int \<Rightarrow> int \<Rightarrow> coap_outcome \<Rightarrow> (coap_node, unit) py" where
  "send_version x y z outcome =
     seq (node_coap_resource ''server''
       (''version:'' @ int_literal x @ ''.'' @ int_literal y @ ''.'' @ int_literal z) outcome) (ret ())"

text \<open>The request that a post makes at the gateway: the path of its URL selects the resource.\<close>

definition posted_event :: "string \<Rightarrow> string \<Rightarrow> string \<Rightarrow> coap_event option" where
  "posted_event addr path bytes =
     (if path = ''server'' then Some (ServerPost addr bytes)
      else if path = ''alive'' then Some (AlivePost addr bytes)
      else None)"

section \<open>Resources\<close>

definition CONTENT :: coap_code where
  "CONTENT = Code 69"

definition js_start :: string where
  "js_start = join_with [CHR 0x0A]
     ['''', ''this.ledorange = saul.get_by_name('' @ [quote_char] @ ''led'' @ [quote_char] @ '');'', '''',
      ''value = 0;'', ''count = 10;'', '''', ''this.blink = function () {'', ''    if (count > 0) {'',
      ''        value = (value + 1) % 2;'', ''        this.ledorange.write(value);'',
      ''        t = timer.setTimeout(this.blink, 1000000);'', ''        count = count -1;'', ''    }'', ''}'', '''',
      ''this.blink();'', ''        '']"

definition node_start :: coap_node where
  "node_start = \<lparr>led_value = Bytes ''0'', robot_action = Bytes ''s'', js_script = Bytes js_start, posted = []\<rparr>"

type_synonym answer = "coap_code \<times> payload"

definition board_get :: "(coap_node, answer) py" where
  "board_get = ret (CONTENT, Bytes ''test_board'')"

definition name_get :: "(coap_node, answer) py" where
  "name_get = ret (CONTENT, Bytes ''Python Test Node'')"

definition version_get :: "(coap_node, answer) py" where
  "version_get = ret (CONTENT, Bytes ''1.0.0'')"

definition led_get :: "(coap_node, answer) py" where
  "led_get = bind (gets led_value) (\<lambda>v. ret (CONTENT, v))"

definition led_put :: "string \<Rightarrow> coap_outcome \<Rightarrow> (coap_node, answer) py" where
  "led_put bytes outcome =
     bind (lift (decode_utf8 bytes)) (\<lambda>v.
     seq (modify (\<lambda>n. n\<lparr>led_value := Str v\<rparr>))
     (seq (node_coap_resource ''server'' (''led:'' @ v) outcome)
     (ret (CHANGED, Bytes ''Updated''))))"

definition pressure_get :: "(coap_node, answer) py" where
  "pressure_get = ret (CONTENT, Bytes ''1015.03hPa'')"

definition temperature_get :: "(coap_node, answer) py" where
  "temperature_get = ret (CONTENT, Bytes (''23'' @ degree_sign @ ''C''))"

definition imu_get :: "(coap_node, answer) py" where
  "imu_get = ret (CONTENT, Bytes (imu_value [304, 488, 448] [460, 122, -104] [1, 0, 0]))"

definition robot_get :: "(coap_node, answer) py" where
  "robot_get = bind (gets robot_action) (\<lambda>v. ret (CONTENT, v))"

definition robot_put :: "string \<Rightarrow> (coap_node, answer) py" where
  "robot_put bytes = seq (modify (\<lambda>n. n\<lparr>robot_action := Bytes bytes\<rparr>)) (ret (CONTENT, Bytes ''Updated''))"

definition js_get :: "(coap_node, answer) py" where
  "js_get = bind (gets js_script) (\<lambda>v. ret (CONTENT, v))"

definition js_put :: "string \<Rightarrow> (coap_node, answer) py" where
  "js_put bytes = seq (modify (\<lambda>n. n\<lparr>js_script := Bytes bytes\<rparr>)) (ret (CONTENT, Bytes ''Updated''))"

section \<open>The site and the periodic tasks\<close>

record node_args =
  gateway_host :: string
  gateway_port :: int
  imu :: bool
  led :: bool
  temperature :: bool
  pressure :: bool
  robot :: bool
  js :: bool
  version :: bool

definition coap_gateway_url :: "node_args \<Rightarrow> string" where
  "coap_gateway_url a = ''coap://'' @ gateway_host a @ '':'' @ int_literal (gateway_port a)"

text \<open>The functions run periodically, with the milliseconds between two calls.\<close>

datatype sender = SendAlive | SendTemperature | SendPressure | SendImu | SendVersion

definition node_tasks :: "node_args \<Rightarrow> (sender \<times> nat) list" where
  "node_tasks a = [(SendAlive, 30000)]
     @ (if temperature a then [(SendTemperature, 5000)] else [])
     @ (if pressure a then [(SendPressure, 5000)] else [])
     @ (if imu a then [(SendImu, 200)] else [])
     @ (if version a then [(SendVersion, 2000)] else [])"

definition node_site :: "node_args \<Rightarrow> string list list" where
  "node_site a = [[''board''], [''name'']]
     @ (if led a then [[''led'']] else [])
     @ (if temperature a then [[''temperature'']] else [])
     @ (if pressure a then [[''pressure'']] else [])
     @ (if imu a then [[''imu'']] else [])
     @ (if robot a then [[''robot'']] else [])
     @ (if js a then [[''js'']] else [])
     @ (if version a then [[''version'']] else [])
     @ [[''.well-known'', ''core'']]"


section \<open>Properties\<close>

abbreviation ascii :: "string \<Rightarrow> bool" where
  "ascii \<equiv> list_all (byte_in 0 127)"

lemma utf8_ascii: "ascii a \<Longrightarrow> utf8_valid (a @ b) = utf8_valid b"
  by (induction a) auto

lemma utf8_all_ascii: "ascii a \<Longrightarrow> utf8_valid a"
  by (induction a) auto

lemma ascii_digit: "is_digit c \<Longrightarrow> byte_in 0 127 c"
  by (auto simp: is_digit_def byte_in_def Let_def)

lemma ascii_int: "ascii (int_literal i)"
proof -
  have "ascii (nat_digits n)" for n
    using nat_digits_digits [of n] by (auto simp: list_all_iff intro: ascii_digit)
  then show ?thesis by (simp add: int_literal_def byte_in_def)
qed

lemma ascii_imu: "ascii (imu_value [a, b, c] [d, e, f] [g, h, i])"
  by (simp add: imu_value_def dumps_str_def escape_char_def ascii_int byte_in_def)

lemma degree_valid: "utf8_valid (degree_sign @ ''C'')"
  by (simp add: degree_sign_def byte_in_def)

text \<open>A reading of the node: the path and the text that it posts.\<close>

inductive reading :: "(coap_outcome \<Rightarrow> (coap_node, unit) py) \<Rightarrow> string \<Rightarrow> string \<Rightarrow> bool" where
  "reading (send_temperature n) ''temperature'' (int_literal n @ degree_sign @ ''C'')"
| "reading (send_pressure n) ''pressure'' (int_literal n @ ''hPa'')"
| "reading (send_imu (a, b, c) (d, e, f) (g, h, i)) ''imu'' (imu_value [a, b, c] [d, e, f] [g, h, i])"
| "reading (send_version x y z) ''version'' (int_literal x @ ''.'' @ int_literal y @ ''.'' @ int_literal z)"

inductive_cases readingE: "reading send path data"

lemma reading_post:
  assumes "reading send path data"
  shows "sent_out outcome \<Longrightarrow> posted (snd (send outcome n)) = posted n @ [(''server'', path @ CHR '':'' # data)]"
    and "CHR '':'' \<notin> set path" and "utf8_valid (path @ CHR '':'' # data)"
proof -
  have utf8: "utf8_valid (a @ CHR '':'' # data)" if "utf8_valid data" "ascii a" for a
    using that utf8_ascii [of a] by (simp add: byte_in_def)
  have v: "utf8_valid data"
    using assms
    by (rule readingE) (auto simp: utf8_ascii [OF ascii_int] degree_valid ascii_int ascii_imu byte_in_def intro!: utf8_all_ascii)
  show "posted (snd (send outcome n)) = posted n @ [(''server'', path @ CHR '':'' # data)]" if "sent_out outcome"
    using assms(1)
    by (rule readingE; insert that) (auto simp: send_temperature_def send_pressure_def send_imu_def send_version_def node_coap_resource_def py_run
        split: sum.split)
  show "CHR '':'' \<notin> set path" using assms by (rule readingE) simp_all
  show "utf8_valid (path @ CHR '':'' # data)"
    using assms by (intro utf8 v) (auto elim!: readingE simp: byte_in_def)
qed

text \<open>
  What the test node measures reaches the cache: the text that each of its periodic tasks posts,
  whatever the readings and whatever becomes of a request that is sent, is accepted by the gateway's server
  resource, stored for the node under the name of the sensor, and told to the readers.
\<close>

theorem readings_reach_cache:
  assumes "reading send path data" and "sent_out outcome" and "gateway_ok fl s" and "broker_link s = Some Open"
    and "dict_get (node_mapping s) addr = Some u" and "dict_get (nodes s) u = Some r"
  shows "\<exists>b t. posted (snd (send outcome n)) = posted n @ [(''server'', b)]
    \<and> server_render_post addr b s = (Inr (post_reply b), t)
    \<and> cached t = (cached s)(u \<mapsto> (resource_map (resources (objects s r)))(JStr path \<mapsto> JStr data))
    \<and> mirrored fl s t"
  using reading_post [OF assms(1)] assms(2) server_post_run [OF assms(3,4) _ _ assms(5,6), of path data] by blast

theorem readings_reach_cache_witness:
  "\<exists>t. server_render_post ''fd00::1'' (''pressure'' @ CHR '':'' # ''1000hPa'') demo_coap =
      (Inr (post_reply (''pressure'' @ CHR '':'' # ''1000hPa'')), t)
    \<and> cached t ''n1'' = Some ((resource_map (resources (objects demo_coap 0)))(JStr ''pressure'' \<mapsto> JStr ''1000hPa''))"
proof -
  have d: "int_literal 1000 @ ''hPa'' = ''1000hPa''" by (simp add: int_literal_def nat_digits.simps digit_char_def)
  have "reading (send_pressure 1000) ''pressure'' (int_literal 1000 @ ''hPa'')" by (rule reading.intros)
  from readings_reach_cache [OF this _ demo_coap_ok demo_coap_fields(4), of "RequestFailed []" "''fd00::1''" "''n1''" 0 node_start id]
  show ?thesis
    by (auto simp: d node_start_def send_pressure_def node_coap_resource_def coap_resource_def py_run)
qed

text \<open>
  Setting the LED: a PUT of valid UTF-8 is answered with \<open>CHANGED\<close>, posted to the gateway and, once
  the gateway has handled the post, cached and told; but the value the node keeps is a text and
  no byte string, and that is what it answers to the next GET.  Other bytes are an error.
\<close>

theorem led_put_reported:
  assumes "gateway_ok fl s" and "broker_link s = Some Open"
    and "dict_get (node_mapping s) addr = Some u" and "dict_get (nodes s) u = Some r"
    and "coap_resource outcome = Inr reply"
  shows "(utf8_valid v \<longrightarrow> (\<exists>b t n'. led_put v outcome n = (Inr (CHANGED, Bytes ''Updated''), n')
        \<and> posted n' = posted n @ [(''server'', b)] \<and> server_render_post addr b s = (Inr (post_reply b), t)
        \<and> cached t = (cached s)(u \<mapsto> (resource_map (resources (objects s r)))(JStr ''led'' \<mapsto> JStr v))
        \<and> mirrored fl s t \<and> led_get n' = (Inr (CONTENT, Str v), n')))
    \<and> (\<not> utf8_valid v \<longrightarrow> led_put v outcome n = (Inl UnicodeDecodeError, n))"
proof (intro conjI impI)
  assume v: "utf8_valid v"
  have "utf8_valid (''led'' @ CHR '':'' # v)" using v by (simp add: byte_in_def)
  from server_post_run [OF assms(1,2) _ this assms(3,4)]
  obtain t where "server_render_post addr (''led'' @ CHR '':'' # v) s = (Inr (post_reply (''led'' @ CHR '':'' # v)), t)"
    "cached t = (cached s)(u \<mapsto> (resource_map (resources (objects s r)))(JStr ''led'' \<mapsto> JStr v))" "mirrored fl s t"
    by auto
  moreover have "sent_out outcome" using assms(5) by (cases outcome) (simp_all add: coap_resource_def)
  ultimately show "\<exists>b t n'. led_put v outcome n = (Inr (CHANGED, Bytes ''Updated''), n')
        \<and> posted n' = posted n @ [(''server'', b)] \<and> server_render_post addr b s = (Inr (post_reply b), t)
        \<and> cached t = (cached s)(u \<mapsto> (resource_map (resources (objects s r)))(JStr ''led'' \<mapsto> JStr v))
        \<and> mirrored fl s t \<and> led_get n' = (Inr (CONTENT, Str v), n')"
    using v assms(5) by (simp add: led_put_def led_get_def decode_utf8_def node_coap_resource_def py_run)
qed (simp add: led_put_def decode_utf8_def py_run)

theorem led_put_reported_witness:
  "\<exists>n'. led_put ''1'' (Reply 68 ''ok'') node_start = (Inr (CHANGED, Bytes ''Updated''), n')
    \<and> led_get n' = (Inr (CONTENT, Str ''1''), n')"
  using led_put_reported [OF demo_coap_ok demo_coap_fields(4), of "''fd00::1''" "''n1''" 0 "Reply 68 ''ok''" "(Code 68, ''ok'')" "''1''" node_start]
  by (fastforce simp: coap_resource_def decode_utf8_def byte_in_def)

end
