(* ===== verification/Composition_Nodes.thy ===== *)
theory Composition_Nodes
  imports Composition_Updates Coap_Node
begin

text \<open>
  The way of a reading: from the test node through the CoAP gateway and the broker to every client.
\<close>

text \<open>
  C21: A reading of the test node reaches everyone.  Over an open connection from which the broker has read
  every text, when the text that a periodic task posts arrives at the gateway from the
  node's address, for a node that the gateway caches and the broker lists, it is cached there
  under the name of the sensor, and once the broker has read the gateway's text exactly one new
  text, which gives the sensor and the value, has been written to each registered client: to all
  of them while their connections are open, otherwise to those registered before the first whose connection is closed,
  at which the broker's handler raises.
\<close>

theorem reading_reaches_everyone:
  assumes "reading send path data" and "sent_out outcome" and "system_ok fl s" and "broker_link (edge s) = Some Open"
    and "read_up s = length (outbox (edge s))" and "lists_node (hub s) u"
    and "dict_get (node_mapping (edge s)) addr = Some u" and "dict_get (nodes (edge s)) u = Some r"
  shows "\<exists>p b ev. posted (snd (send outcome n)) = posted n @ [(p, b)] \<and> posted_event addr p b = Some ev
    \<and> (let h = system_handle fl rep enc ks opts; es = [Edge ev, Up]; t = run_events h s es in
        run_enabled h system_enabled s es
        \<and> cached (edge t) = (cached (edge s))(u \<mapsto> (resource_map (resources (objects (edge s) r)))(JStr path \<mapsto> JStr data))
        \<and> read_up t = length (outbox (edge t))
        \<and> texts_to link_ws (hub t) = texts_to link_ws (hub s)
        \<and> (\<forall>(w, d) \<in> set (clients (hub s)). texts_to d (hub t) = texts_to d (hub s) @
             (if d \<in> set (reached (hub s)) then [update_node (JStr u) (JStr path) (JStr data) dst_all] else []))
        \<and> (clients_up (hub s) \<longrightarrow> set (reached (hub s)) = snd ` set (clients (hub s))))"
proof (intro exI conjI)
  let ?b = "path @ CHR '':'' # data" and ?h = "system_handle fl rep enc ks opts"
  show "posted (snd (send outcome n)) = posted n @ [(''server'', ?b)]" using reading_post(1) [OF assms(1,2)] .
  show "posted_event addr ''server'' ?b = Some (ServerPost addr ?b)" by (simp add: posted_event_def)
  have ok: "broker_ok (hub s)" and gok: "gateway_ok fl (edge s)"
    using assms(3) by (auto simp: system_ok_def coap_ok_def gateway_inv_def)
  obtain uids where g: "gateways (hub s) = [(link_ws, uids)]" using assms(3) by (auto simp: system_ok_def)
  define e where "e = snd (forward_data_from_node r (JStr path) (JStr data) (edge s))"
  note post = server_post_forwards [OF gok assms(4) reading_post(2,3) [OF assms(1)] assms(7,8), folded e_def]
  obtain e' where "server_render_post addr ?b (edge s) = (Inr (post_reply ?b), e')"
      "cached e' = (cached (edge s))(u \<mapsto> (resource_map (resources (objects (edge s) r)))(JStr path \<mapsto> JStr data))"
    using server_post_run [OF gok assms(4) reading_post(2,3) [OF assms(1)] assms(7,8)] by blast
  with post(1) have cached: "cached e = (cached (edge s))(u \<mapsto> (resource_map (resources (objects (edge s) r)))(JStr path \<mapsto> JStr data))"
    by simp
  define s1 where "s1 = s\<lparr>edge := e\<rparr>"
  have run: "snd (?h (Edge (ServerPost addr ?b)) s) = s1" by (simp add: post(1) py_run s1_def)
  have s1: "broker_ok (hub s1)" "lists_node (hub s1) u" "gateways (hub s1) = [(link_ws, uids)]"
      "read_up s1 = length (outbox (edge s))" "hub s1 = hub s" "edge s1 = e"
      "outbox (edge s1) = outbox (edge s) @ (if True then [update_node (JStr u) (JStr path) (JStr data) dst_all] else [])"
    using ok assms(5,6) g by (simp_all add: s1_def post(2))
  have told: "edge t = edge s1 \<and> read_down t = read_down s1 \<and> read_up t = length (outbox (edge t))
      \<and> texts_to link_ws (hub t) = texts_to link_ws (hub s1)
      \<and> (\<forall>(w, d) \<in> set (clients (hub s1)). texts_to d (hub t) = texts_to d (hub s1) @
           (if True \<and> d \<in> set (reached (hub s1)) then [update_node (JStr u) (JStr path) (JStr data) dst_all] else []))"
    if "t = run_events ?h s1 (if True then [Up] else [])" for t
    using s1(1,2) _ _ s1(7,4,3) that by (rule hub_told) simp_all
  have "run_enabled ?h system_enabled s [Edge (ServerPost addr ?b), Up]"
    using s1(3,4,7) run by (simp add: dict_has_def del: system_handle.simps)
  then show "let h = ?h; es = [Edge (ServerPost addr ?b), Up]; t = run_events h s es in
        run_enabled h system_enabled s es
        \<and> cached (edge t) = (cached (edge s))(u \<mapsto> (resource_map (resources (objects (edge s) r)))(JStr path \<mapsto> JStr data))
        \<and> read_up t = length (outbox (edge t))
        \<and> texts_to link_ws (hub t) = texts_to link_ws (hub s)
        \<and> (\<forall>(w, d) \<in> set (clients (hub s)). texts_to d (hub t) = texts_to d (hub s) @
             (if d \<in> set (reached (hub s)) then [update_node (JStr u) (JStr path) (JStr data) dst_all] else []))
        \<and> (clients_up (hub s) \<longrightarrow> set (reached (hub s)) = snd ` set (clients (hub s)))"
    using told cached reached_up [of "hub s"] by (simp add: Let_def run s1(5,6) del: system_handle.simps)
qed

theorem reading_reaches_everyone_witness:
  "\<exists>p b ev. posted (snd (send_pressure 1000 (RequestFailed []) node_start)) = [(p, b)] \<and> posted_event ''fd00::1'' p b = Some ev
    \<and> texts_to 7 (hub (run_events (system_handle keep_literal (\<lambda>_. []) toy_enc \<lparr>private_key = ''k'', secret_key = ''s''\<rparr> demo_options)
         busy_system [Edge ev, Up])) =
       [update_node (JStr ''n1'') (JStr ''pressure'') (JStr (int_literal 1000 @ ''hPa'')) dst_all]"
proof -
  have up: "lists_node (hub busy_system) ''n1''" by (simp add: busy_system_def lists_node_def py_in_iff)
  have s: "edge busy_system = demo_coap" "read_up busy_system = 0" "texts_to w (hub busy_system) = []"
      "clients (hub busy_system) = [(JStr ''c7'', 7)]" "reached (hub busy_system) = [7]" "posted node_start = []" for w
    by (simp_all add: busy_system_def texts_to_def node_start_def reached_def)
  have "reading (send_pressure 1000) ''pressure'' (int_literal 1000 @ ''hPa'')" by (rule reading.intros)
  from reading_reaches_everyone [OF this _ busy_system_ok [of keep_literal] _ _ up, of "RequestFailed []" "''fd00::1''" 0 node_start
      "\<lambda>_. []" toy_enc "\<lparr>private_key = ''k'', secret_key = ''s''\<rparr>" demo_options]
  show ?thesis
    by (auto simp: s Let_def simp del: run_events.simps run_enabled.simps intro: exI)
qed

end
