(* ===== verification/Coap_Observer.thy ===== *)
theory Coap_Observer
  imports Coap_Correct
begin

text \<open>
  The contract for a relation between the states of the CoAP gateway that speaks of its cache, its
  connection and the texts it writes: it is kept when none of these change, by the sign of life, by
  the departure of a node, by telling the cache and by noting the time.  The locales give what all
  such relations share: every operation that is made of these keeps it too.  \<open>coap_watcher\<close> is for
  relations that may speak of the time as well and of which nodes stay, \<open>coap_observer\<close> extends it
  by the departure of nodes and the passing of time.
\<close>

locale coap_watcher = state_preorder R
  for R :: "coap_gateway \<Rightarrow> coap_gateway \<Rightarrow> bool" +
  fixes fl :: "string \<Rightarrow> string"
  assumes unchanged_step: "outbox t = outbox s \<Longrightarrow> nodes t = nodes s \<Longrightarrow> objects t = objects s \<Longrightarrow>
      fresh t = fresh s \<Longrightarrow> broker_link t = broker_link s \<Longrightarrow> clock t = clock s \<Longrightarrow> R s t"
    and alive_step: "upholds send_alive"
    and fetch_step: "json_ok fl client \<Longrightarrow> upholds (fetch_nodes_cache client)"
begin

lemma quiet_modify:
  "(\<And>s. outbox (f s) = outbox s \<and> nodes (f s) = nodes s \<and> objects (f s) = objects s \<and> fresh (f s) = fresh s
    \<and> broker_link (f s) = broker_link s \<and> clock (f s) = clock s) \<Longrightarrow> upholds (modify f)"
  by (intro upholds_modify unchanged_step) auto

lemma quiet_suspend: "upholds (suspend meth url bytes task)"
  by (rule upholdsI) (auto simp: suspend_def intro: unchanged_step)

lemma quiet_lookups:
  "upholds (get_object r)" "upholds (get_node u)" "upholds (node_named v)" "upholds (node_ip r)" "upholds (get_mapped a)"
  unfolding get_object_def get_node_def node_named_def node_ip_def get_mapped_def by (intro upholds_rules)+

lemma quiet_discover_next: "upholds (discover_next r url es)"
  by (cases es) (auto simp: discover_next_def Let_def intro!: upholds_rules quiet_suspend)

lemma quiet_discover: "upholds (discover_node rep opts r)"
  unfolding discover_node_def Let_def by (intro upholds_rules quiet_lookups quiet_suspend)

lemma quiet_core: "upholds (core_received r url outcome)"
  unfolding core_received_def by (intro upholds_rules quiet_discover_next)

lemma quiet_update: "upholds (update_node_resource rep r k v)"
  unfolding update_node_resource_def by (intro upholds_rules quiet_lookups quiet_suspend)

lemmas quiet = quiet_modify quiet_suspend quiet_lookups quiet_discover_next quiet_discover quiet_core quiet_update

lemma alive_known_step:
  assumes "\<And>r. upholds (seen_now r)"
  shows "upholds (bind (get_mapped addr) (\<lambda>v. bind (get_node v) (\<lambda>r. seq (seen_now r) (ret Done))))"
  by (intro upholds_rules quiet_lookups assms)

lemma message_step:
  assumes "canonical_floats fl"
  shows "upholds (on_broker_message fl (update_node_resource rep) m)"
proof (cases "loads fl m")
  case (Inr message)
  have named: "upholds (update_named (update_node_resource rep) data)" for data
    unfolding update_named_def by (intro upholds_rules quiet)
  have fetch: "upholds (bind (lift (py_getitem message ''src'')) (\<lambda>src. seq (fetch_nodes_cache src) (ret Done)))"
  proof (cases "py_getitem message ''src''")
    case (Inr src)
    have "json_ok fl src" by (rule coap.getitem_ok [OF loads_ok [OF assms \<open>loads fl m = Inr message\<close>] Inr])
    with Inr show ?thesis by (auto intro!: upholds_rules fetch_step)
  qed (simp add: upholds_rules)
  show ?thesis
    unfolding on_broker_message_def Inr bind_lift_Inr
    by (intro upholds_bind [OF upholds_lift] upholds_if fetch upholds_rules named)
qed (simp add: on_broker_message_def upholds_rules)

lemma loop_step:
  assumes "R s (snd (m s))"
  shows "R s (snd (in_loop m s))"
proof -
  obtain r t where m: "m s = (r, t)" by fastforce
  have "R t (t\<lparr>conn := c\<rparr>)" for c by (rule unchanged_step) simp_all
  with assms m have "R s (t\<lparr>conn := c\<rparr>)" for c using trans_state by auto
  then show ?thesis using m by (simp add: in_loop_def split: sum.split)
qed

lemma connected_step:
  assumes "canonical_floats fl" and "\<forall>x. ev \<noteq> BrokerConnection x" and "ev \<noteq> BrokerLost" and "\<forall>n. ev \<noteq> Tick n"
  shows "R s (snd (gateway_handle fl enc ks (update_node_resource rep) ev s))"
  using assms(2-4) message_step [OF assms(1)]
  by (cases ev)
    (auto simp: message_read_def intro!: upholdsD loop_step upholds_rules quiet_modify alive_step split: option.splits)

lemma outcome_step:
  assumes "\<And>task. dict_get (tasks s) i = Some task \<Longrightarrow>
      R (s\<lparr>tasks := dict_del (tasks s) i\<rparr>) (snd (resume task outcome (s\<lparr>tasks := dict_del (tasks s) i\<rparr>)))"
  shows "R s (snd (coap_handle fl rep enc ks opts (Outcome i outcome) s))"
proof (cases "dict_get (tasks s) i")
  case None
  then show ?thesis by (simp add: bind_gets ret_run refl_state)
next
  case (Some task)
  have "R s (s\<lparr>tasks := dict_del (tasks s) i\<rparr>)" by (rule unchanged_step) simp_all
  with assms [OF Some] have "R s (snd (resume task outcome (s\<lparr>tasks := dict_del (tasks s) i\<rparr>)))"
    using trans_state by blast
  with Some show ?thesis by (simp add: bind_gets seq_modify)
qed

text \<open>Given what a value of a node does, so much for the coroutines that go on.\<close>

lemma resume_step:
  assumes "\<And>k v. json_ok fl k \<Longrightarrow> json_ok fl v \<Longrightarrow> R s (snd (forward_data_from_node (task_node task) k v s))"
    and "task_ok fl task"
  shows "R s (snd (resume task outcome s))"
proof (cases task)
  case (AwaitCore r url)
  then show ?thesis by (auto simp: resume_def intro!: upholdsD upholds_rules quiet)
next
  case (AwaitResource r url path rest)
  with assms(1) show ?thesis
    by (cases "coap_resource outcome")
      (auto simp: resume_def resource_received_def ret_run refl_state
        intro!: seqI upholds_rules quiet split: prod.split)
next
  case (AwaitPut r k v)
  then have "R s (snd (put_received r k v outcome s))"
    using assms by (auto simp: put_received_def py_run refl_state task_ok_def split: sum.split)
  then show ?thesis
    unfolding AwaitPut resume_def handler_ended_def by (auto intro!: loop_step seqI upholds_rules)
qed

end

locale coap_observer = coap_watcher +
  assumes same_step: "outbox t = outbox s \<Longrightarrow> nodes t = nodes s \<Longrightarrow> objects t = objects s \<Longrightarrow>
      fresh t = fresh s \<Longrightarrow> broker_link t = broker_link s \<Longrightarrow> R s t"
    and remove_step: "upholds (remove_node r)"
    and seen_step: "upholds (seen_now r)"
begin

lemmas known_node_step = alive_known_step [OF seen_step]

lemma cleanup_step: "upholds (check_dead_nodes opts)"
proof -
  have "upholds (pop_mapping v)" for v
    by (cases v) (auto simp: pop_mapping_def hashable_def intro!: upholds_rules quiet_modify)
  then show ?thesis unfolding check_dead_nodes_def drop_node_def by (intro upholds_rules quiet_lookups remove_step)
qed

lemma base_step:
  assumes "canonical_floats fl" and "\<forall>x. ev \<noteq> BrokerConnection x"
    and "broker_link (snd (gateway_handle fl enc ks (update_node_resource rep) ev s)) = Some Open"
  shows "R s (snd (gateway_handle fl enc ks (update_node_resource rep) ev s))"
  using assms(2,3) connected_step [OF assms(1,2), where enc = enc and ks = ks and rep = rep and s = s]
  by (cases ev) (auto simp: close_client_def py_run intro: same_step split: option.splits)

end

text \<open>The contract for relations between the nodes, their objects and the time only.\<close>

locale coap_register = coap_watcher +
  assumes register_step: "clock t = clock s \<Longrightarrow> nodes t = nodes s \<Longrightarrow> objects t = objects s \<Longrightarrow> R s t"
    and forward_step: "upholds (forward_data_from_node r k v)"
begin

lemma timeless_step:
  assumes "canonical_floats fl" and "\<forall>n. b \<noteq> Tick n"
  shows "R s (snd (coap_handle fl rep enc ks opts (Base b) s))"
proof (cases "(\<exists>x. b = BrokerConnection x) \<or> b = BrokerLost")
  case False
  then show ?thesis
    using connected_step [OF assms(1), where ev = b and enc = enc and ks = ks and rep = rep and s = s] assms(2) by simp
next
  case True
  have "upholds (seq (modify (\<lambda>s. s\<lparr>broker_link := l, alive_timer := b\<rparr>)) (seq (fetch_nodes_cache dst_all) (ret Reading)))"
    for l b by (intro upholds_rules fetch_step register_step) simp_all
  then have "R s (snd (connection_made enc ks x s))" for x
    unfolding connection_made_def by - (rule loop_step, rule upholdsD, auto intro: upholds_pure split: sum.split)
  moreover have "R s (snd (close_client s))" by (rule register_step) (simp_all add: close_client_def modify_run)
  ultimately show ?thesis using True by auto
qed

lemma server_post_step: "R s (snd (coap_handle fl rep enc ks opts (ServerPost addr bytes) s))"
proof -
  have "upholds (seq (server_render_post addr bytes) (ret ()))"
    unfolding server_render_post_def handle_coap_post_def by (intro upholds_rules forward_step quiet)
  then show ?thesis by (simp add: upholdsD)
qed

lemma request_step:
  assumes "coap_ok fl s"
  shows "R s (snd (coap_handle fl rep enc ks opts (Outcome i outcome) s))"
proof (rule outcome_step)
  fix task assume "dict_get (tasks s) i = Some task"
  then have "task_ok fl task" using assms by (auto simp: coap_ok_def tasks_ok_def dest: map_of_SomeD)
  then show "R (s\<lparr>tasks := dict_del (tasks s) i\<rparr>) (snd (resume task outcome (s\<lparr>tasks := dict_del (tasks s) i\<rparr>)))"
    by (intro resume_step upholdsD forward_step)
qed

end

end
