(* ===== verification/Coap_Follow.thy ===== *)
theory Coap_Follow
  imports Coap_Cleanup Coap_Observer
begin

text \<open>
  One reader among several.  A text is \<open>heard\<close> by the client \<open>d\<close> when it is meant for everyone or
  for \<open>d\<close>; \<open>follows\<close> says of a computation of the gateway that what it writes, as far as \<open>d\<close> hears
  it, describes what it does to the cache.  Every operation but a reset and a value for a node
  object that has been replaced has this property.
\<close>

section \<open>What a client hears\<close>

definition heard :: "(string \<Rightarrow> string) \<Rightarrow> string \<Rightarrow> string \<Rightarrow> bool" where
  "heard fl d m =
     (case loads fl m of
        Inr (JObj kvs) \<Rightarrow>
          dict_get kvs ''type'' = Some (JStr ''out'') \<or> dict_get kvs ''type'' = Some (JStr ''reset'')
          \<or> dict_get kvs ''dst'' = Some dst_all \<or> dict_get kvs ''dst'' = Some (JStr d)
      | _ \<Rightarrow> False)"

lemma heard_simps [simp]:
  "json_ok fl dst \<Longrightarrow> heard fl d (new_node (JStr u) dst) \<longleftrightarrow> dst = dst_all \<or> dst = JStr d"
  "json_ok fl k \<Longrightarrow> json_ok fl v \<Longrightarrow> json_ok fl dst \<Longrightarrow>
    heard fl d (update_node (JStr u) k v dst) \<longleftrightarrow> dst = dst_all \<or> dst = JStr d"
  "heard fl d (out_node (JStr u))"
  "\<not> heard fl d gateway_alive"
  by (simp_all add: heard_def new_node_def update_node_def out_node_def gateway_alive_def serialize_read)

text \<open>The texts that a gateway writes, resets apart, with parts that can be read again.\<close>

inductive sound_text :: "(string \<Rightarrow> string) \<Rightarrow> string \<Rightarrow> bool" for fl where
  sound_new: "json_ok fl dst \<Longrightarrow> sound_text fl (new_node (JStr u) dst)"
| sound_update: "json_ok fl k \<Longrightarrow> json_ok fl v \<Longrightarrow> json_ok fl dst \<Longrightarrow> sound_text fl (update_node (JStr u) k v dst)"
| sound_out: "sound_text fl (out_node (JStr u))"
| sound_alive: "sound_text fl gateway_alive"



lemma sound_cache_texts:
  assumes "resources_ok fl (resources a)" and "json_ok fl client"
  shows "m \<in> set (cache_texts client a) \<Longrightarrow> sound_text fl m"
    and "m \<in> set (cache_texts client a) \<Longrightarrow> heard fl d m \<longleftrightarrow> client = dst_all \<or> client = JStr d"
  using assms
  by (auto simp: cache_texts_def update_texts_def intro: sound_text.intros dest: resources_okD)

section \<open>Computations that are followed\<close>

definition hears :: "(string \<Rightarrow> string) \<Rightarrow> string \<Rightarrow> string list \<Rightarrow> view \<Rightarrow> view" where
  "hears fl d ms V = told fl (filter (heard fl d) ms) V"

lemma hears_simps [simp]:
  "hears fl d [] V = V"
  "hears fl d (m # ms) V = hears fl d ms (if heard fl d m then tell fl m V else V)"
  "hears fl d (ms @ ns) V = hears fl d ns (hears fl d ms V)"
  by (simp_all add: hears_def)

definition follows :: "(string \<Rightarrow> string) \<Rightarrow> string \<Rightarrow> 'a gateway_scheme \<Rightarrow> 'a gateway_scheme \<Rightarrow> bool" where
  "follows fl d s t \<longleftrightarrow> (gateway_ok fl s \<and> broker_link s = Some Open \<longrightarrow>
     gateway_ok fl t \<and> broker_link t = Some Open
     \<and> (\<exists>ms. outbox t = outbox s @ ms \<and> (\<forall>m \<in> set ms. sound_text fl m) \<and> hears fl d ms (cached s) = cached t))"

lemma followsI:
  assumes "gateway_ok fl s \<Longrightarrow> broker_link s = Some Open \<Longrightarrow> gateway_ok fl t"
    and "gateway_ok fl s \<Longrightarrow> broker_link s = Some Open \<Longrightarrow> broker_link t = Some Open"
    and "gateway_ok fl s \<Longrightarrow> broker_link s = Some Open \<Longrightarrow> outbox t = outbox s @ ms"
    and "\<And>m. gateway_ok fl s \<Longrightarrow> m \<in> set ms \<Longrightarrow> sound_text fl m"
    and "gateway_ok fl s \<Longrightarrow> broker_link s = Some Open \<Longrightarrow> hears fl d ms (cached s) = cached t"
  shows "follows fl d s t"
  using assms by (auto simp: follows_def)

interpretation follow: state_preorder "follows fl d"
proof unfold_locales
  fix s t u :: "'a gateway_scheme"
  show "follows fl d s s" by (auto simp: follows_def intro: exI [of _ "[]"])
  assume st: "follows fl d s t" and tu: "follows fl d t u"
  show "follows fl d s u"
    unfolding follows_def
  proof (intro impI, elim conjE)
    assume "gateway_ok fl s" "broker_link s = Some Open"
    with st obtain ms where ms: "gateway_ok fl t" "broker_link t = Some Open" "outbox t = outbox s @ ms"
        "\<forall>m \<in> set ms. sound_text fl m" "hears fl d ms (cached s) = cached t"
      by (auto simp: follows_def)
    with tu obtain ns where ns: "gateway_ok fl u" "broker_link u = Some Open" "outbox u = outbox t @ ns"
        "\<forall>m \<in> set ns. sound_text fl m" "hears fl d ns (cached t) = cached u"
      by (auto simp: follows_def)
    from ms ns show "gateway_ok fl u \<and> broker_link u = Some Open
        \<and> (\<exists>ms. outbox u = outbox s @ ms \<and> (\<forall>m \<in> set ms. sound_text fl m) \<and> hears fl d ms (cached s) = cached u)"
      by (intro conjI exI [of _ "ms @ ns"]) auto
  qed
qed

named_theorems follow_keeps \<open>operations whose texts describe what they do to the cache\<close>

lemmas follow_rules = follow.upholds_rules

lemma follows_same:
  assumes "outbox t = outbox s" and "nodes t = nodes s" and "objects t = objects s"
    and "fresh t = fresh s" and "broker_link t = broker_link s"
  shows "follows fl d s t"
proof -
  have "cached t = cached s" using assms by (simp add: cached_def fun_eq_iff)
  moreover have "gateway_ok fl t = gateway_ok fl s" using assms by (simp add: gateway_ok_def)
  ultimately show ?thesis using assms by (auto simp: follows_def intro: exI [of _ "[]"])
qed

lemma follow_modify [follow_keeps]:
  assumes "\<And>s. outbox (f s) = outbox s \<and> nodes (f s) = nodes s \<and> objects (f s) = objects s
    \<and> fresh (f s) = fresh s \<and> broker_link (f s) = broker_link s"
  shows "follow.upholds fl d (modify f)"
  using assms by (intro follow.upholds_modify follows_same) auto

lemma follow_lookups [follow_keeps]:
  "follow.upholds fl d (get_object r)" "follow.upholds fl d (get_node u)" "follow.upholds fl d (node_named v)"
  unfolding get_object_def get_node_def node_named_def by (intro follow_rules)+

lemma follow_seen_now [follow_keeps]: "follow.upholds fl d (seen_now r)"
proof (rule follow.upholdsI)
  fix s :: "'a gateway_scheme"
  have "cached (snd (seen_now r s)) = cached s" "outbox (snd (seen_now r s)) = outbox s"
    by (auto simp: seen_now_def get_object_def set_object_def update_last_seen_def py_run cached_def fun_eq_iff
        intro!: option.map_cong)
  moreover have "grows fl s (snd (seen_now r s))" using cache.upholdsD [OF keeps_seen_now] .
  ultimately show "follows fl d s (snd (seen_now r s))"
    by (intro followsI [where ms = "[]"]) (auto simp: grows_def same_connection_def)
qed

lemma follow_alive [follow_keeps]: "follow.upholds fl d send_alive"
proof (rule follow.upholdsI)
  fix s :: "'a gateway_scheme"
  have "gateway_ok fl (said s [gateway_alive]) = gateway_ok fl s" by (simp add: gateway_ok_def)
  then show "follows fl d s (snd (send_alive s))"
    by (intro followsI [where ms = "[gateway_alive]"]) (simp_all add: send_alive_def sound_alive)
qed

lemma follow_remove [follow_keeps]: "follow.upholds fl d (remove_node r)"
proof (rule follow.upholdsI)
  fix s :: "'a gateway_scheme"
  let ?u = "uid (objects s r)"
  show "follows fl d s (snd (remove_node r s))"
  proof (cases "dict_has (nodes s) ?u")
    case False
    then have "remove_node r s = (Inl KeyError, s)" by (simp add: remove_node_def get_object_def bind_gets py_run)
    then show ?thesis by (simp add: follow.refl_state)
  next
    case True
    let ?t = "s\<lparr>nodes := dict_del (nodes s) ?u, outbox := outbox s @ [out_node (JStr ?u)]\<rparr>"
    have run: "remove_node r s = (Inr (), ?t)" if "broker_link s = Some Open"
      using True that by (simp add: remove_node_def get_object_def bind_gets seq_modify said_def)
    moreover have "gateway_ok fl ?t" if "gateway_ok fl s"
      using that by (auto simp: gateway_ok_def dict_ok_del dest: dict_delD)
    moreover have "cached ?t = (cached s)(?u := None)" if "gateway_ok fl s"
      by (rule cached_del [OF that]) simp_all
    ultimately show ?thesis
      by (intro followsI [where ms = "[out_node (JStr ?u)]"]) (simp_all add: sound_out)
  qed
qed

lemma follow_fetch [follow_keeps]:
  assumes "json_ok fl client"
  shows "follow.upholds fl d (fetch_nodes_cache client)"
proof (rule follow.upholdsI)
  fix s :: "'a gateway_scheme"
  let ?ms = "concat (map (\<lambda>(u, r). cache_texts client (objects s r)) (nodes s))"
  have heard: "filter (heard fl d) ?ms = (if client = dst_all \<or> client = JStr d then ?ms else [])"
    if "gateway_ok fl s"
    using sound_cache_texts(2) [OF gateway_ok_resources [OF that] assms, of _ _ d]
    by (auto simp: filter_empty_conv intro!: filter_True)
  have "cached s ++ cached s = cached s" by (auto simp: map_add_def fun_eq_iff split: option.split)
  then have "hears fl d ?ms (cached s) = cached s" if "gateway_ok fl s"
    using told_fetch [OF that assms] by (simp add: hears_def heard [OF that])
  moreover have "gateway_ok fl (said s ?ms) = gateway_ok fl s" by (simp add: gateway_ok_def)
  ultimately show "follows fl d s (snd (fetch_nodes_cache client s))"
    using sound_cache_texts(1) [OF gateway_ok_resources assms]
    by (intro followsI [where ms = ?ms]) (auto simp: fetch_run)
qed

text \<open>A value of a node that is in the cache.\<close>

lemma follows_forward:
  assumes "current s r" and "json_ok fl k" and "json_ok fl v"
  shows "follows fl d s (snd (forward_data_from_node r k v s))"
proof (cases "hashable k")
  case False
  then have "forward_data_from_node r k v s = (Inl TypeError, s)"
    by (simp add: forward_data_from_node_def set_resource_def set_resource_value_def get_object_def py_run)
  then show ?thesis by (simp add: follow.refl_state)
next
  case True
  let ?t = "snd (forward_data_from_node r k v s)" and ?m = "update_node (JStr (uid (objects s r))) k v dst_all"
  have run: "?t = said (snd (set_resource r k v s)) [?m]" if "broker_link s = Some Open"
    using forward_run [OF that True] by simp
  moreover have "gateway_ok fl ?t" if "gateway_ok fl s"
    using cache.upholdsD [OF keeps_forward [OF assms(2,3)], of s r] that by (simp add: grows_def)
  moreover have "outbox (snd (set_resource r k v s)) = outbox s" "broker_link (snd (set_resource r k v s)) = broker_link s"
    by (simp_all add: set_resource_run [OF True])
  ultimately show ?thesis
    using cached_set_resource [OF _ assms(1) True, of fl] cached_current [OF assms(1)] assms(2,3)
    by (intro followsI [where ms = "[?m]"]) (auto intro: sound_text.intros)
qed

section \<open>The CoAP gateway\<close>

interpretation following: coap_observer "follows fl d" fl
  by unfold_locales (blast intro: follows_same follow_keeps)+

text \<open>What a step must not do: reset a cached node, or go on with a node that has been replaced.\<close>

fun undisturbed :: "coap_event \<Rightarrow> coap_gateway \<Rightarrow> bool" where
  "undisturbed (AlivePost addr bytes) s \<longleftrightarrow>
     \<not> (starts_with ''reset'' bytes \<and> dict_has (node_mapping s) (last (split_on CHR '':'' bytes)))"
| "undisturbed (Outcome i _) s \<longleftrightarrow>
     (case dict_get (tasks s) i of None \<Rightarrow> True | Some task \<Rightarrow> current s (task_node task))"
| "undisturbed _ s \<longleftrightarrow> True"

lemma follows_alive_post:
  assumes "undisturbed (AlivePost addr bytes) s"
  shows "follows fl d s (snd (alive_render_post rep opts addr bytes s))"
proof -
  let ?u = "last (split_on CHR '':'' bytes)" and ?reset = "starts_with ''reset'' bytes"
  have "follows fl d s (snd (handle_coap_check rep opts ?u addr ?reset s))"
  proof (cases "dict_has (node_mapping s) ?u")
    case True
    then have "\<not> ?reset" using assms by simp
    with True have "handle_coap_check rep opts ?u addr ?reset s =
        bind (get_mapped addr) (\<lambda>v. bind (get_node v) (\<lambda>r. seq (seen_now r) (ret Done))) s"
      by (simp add: handle_coap_check_def bind_gets)
    then show ?thesis using follow.upholdsD [OF following.known_node_step] by simp
  next
    case False
    define e where "e = [(JStr ''ip'', JStr addr), (JStr ''protocol'', JStr coap_protocol)]"
    show ?thesis
    proof (rule followsI [where ms = "cache_texts dst_all (node_init (clock s) ?u e)"])
      let ?a = "node_init (clock s) ?u e"
      have ok: "resources_ok fl (resources ?a)" by (simp add: node_init_def e_def hashable_def)
      show "m \<in> set (cache_texts dst_all ?a) \<Longrightarrow> sound_text fl m" for m
        by (rule sound_cache_texts(1) [OF ok]) simp_all
      assume s: "gateway_ok fl s" "broker_link s = Some Open"
      from new_node_run [OF s False e_def] obtain t where
        t: "handle_coap_check rep opts ?u addr ?reset s = (Inr Suspended, t)"
          "outbox t = outbox s @ cache_texts dst_all ?a"
          "cached t = (cached s)(?u \<mapsto> [JStr ''ip'' \<mapsto> JStr addr, JStr ''protocol'' \<mapsto> JStr coap_protocol])"
        by blast
      have "grows fl s t" using cache.upholdsD [OF keeps_check] t(1) by (metis snd_conv)
      with s t show "gateway_ok fl (snd (handle_coap_check rep opts ?u addr ?reset s))"
        "broker_link (snd (handle_coap_check rep opts ?u addr ?reset s)) = Some Open"
        "outbox (snd (handle_coap_check rep opts ?u addr ?reset s)) = outbox s @ cache_texts dst_all ?a"
        by (simp_all add: grows_def same_connection_def)
      have "filter (heard fl d) (cache_texts dst_all ?a) = cache_texts dst_all ?a"
        using sound_cache_texts(2) [OF ok, of dst_all _ d] by (auto intro!: filter_True)
      then show "hears fl d (cache_texts dst_all ?a) (cached s) = cached (snd (handle_coap_check rep opts ?u addr ?reset s))"
        using told_new_node [OF e_def, of fl "clock s" ?u "cached s"] t by (simp add: hears_def)
    qed
  qed
  then show ?thesis
    by (auto simp: alive_render_post_def decode_utf8_def py_run follow.refl_state intro!: follow.bindI follow_rules
        split: prod.split sum.split)
qed

lemma follows_server_post:
  assumes "gateway_ok fl s"
  shows "follows fl d s (snd (server_render_post addr bytes s))"
proof -
  have "follows fl d s (snd (handle_coap_post addr k v s))" for k v
  proof (cases "dict_get (node_mapping s) addr")
    case None
    then show ?thesis by (simp add: handle_coap_post_def bind_gets dict_has_def ret_run follow.refl_state)
  next
    case (Some u)
    show ?thesis
    proof (cases "dict_get (nodes s) u")
      case None
      with Some show ?thesis
        by (simp add: handle_coap_post_def get_mapped_def get_node_def dict_has_def py_run follow.refl_state)
    next
      case (Some r)
      with \<open>dict_get (node_mapping s) addr = Some u\<close>
      have "handle_coap_post addr k v s = forward_data_from_node r (JStr k) (JStr v) s"
        by (simp add: handle_coap_post_def get_mapped_def get_node_def dict_has_def py_run)
      moreover have "current s r" using gateway_ok_node [OF assms Some] Some by (simp add: current_def)
      ultimately show ?thesis using follows_forward [of s r fl "JStr k" "JStr v"] by simp
    qed
  qed
  then show ?thesis
    by (cases "decode_utf8 bytes"; cases "split_pair CHR '':'' bytes")
      (auto simp: server_render_post_def decode_utf8_def follow.refl_state py_run
        intro!: follow.seqI follow_rules split: if_splits sum.splits)
qed

lemma follows_coap_handle:
  assumes "canonical_floats fl" and "coap_ok fl s" and "undisturbed ev s"
    and "\<forall>x. ev \<noteq> Base (BrokerConnection x)" and "broker_link (snd (coap_handle fl rep enc ks opts ev s)) = Some Open"
  shows "follows fl d s (snd (coap_handle fl rep enc ks opts ev s))"
proof (cases ev)
  case (Base b)
  with assms show ?thesis using following.base_step [OF assms(1), of b enc ks rep s] by simp
next
  case (AlivePost addr bytes)
  with assms(3) show ?thesis by (simp add: follow.seqI follows_alive_post follow_rules del: undisturbed.simps)
next
  case (ServerPost addr bytes)
  have "gateway_ok fl s" using assms(2) by (simp add: coap_ok_def gateway_inv_def)
  with ServerPost show ?thesis by (simp add: follow.seqI follows_server_post follow_rules)
next
  case (Outcome i outcome)
  have "follows fl d t (snd (resume task outcome t))"
    if "dict_get (tasks s) i = Some task" and t: "t = s\<lparr>tasks := dict_del (tasks s) i\<rparr>" for task t
  proof (rule following.resume_step)
    show "task_ok fl task" using map_of_SomeD [OF that(1)] assms(2) by (auto simp: coap_ok_def tasks_ok_def)
    have "current t (task_node task)" using assms(3) that Outcome by (simp add: current_def)
    then show "follows fl d t (snd (forward_data_from_node (task_node task) k v t))"
      if "json_ok fl k" "json_ok fl v" for k v
      using that by (intro follows_forward)
  qed
  then show ?thesis unfolding Outcome by (intro following.outcome_step) blast
next
  case Cleanup
  then show ?thesis using follow.upholdsD [OF following.cleanup_step] by simp
qed

end
