(* ===== verification/Composition_Views.thy ===== *)
theory Composition_Views
  imports Composition_Updates Coap_Follow
begin

text \<open>
  The clients' views agree with the gateway's cache.  While a client stays registered and nothing
  disturbs the gateway, what the client has learned from its texts, together with the texts that
  are still on their way, is the cache.
\<close>

section \<open>The broker\<close>

definition view_of :: "(string \<Rightarrow> string) \<Rightarrow> ws \<Rightarrow> broker \<Rightarrow> view" where
  "view_of fl c b = told fl (texts_to c b) Map.empty"

text \<open>The broker lists every node that the client knows.\<close>

definition informed :: "(string \<Rightarrow> string) \<Rightarrow> ws \<Rightarrow> broker \<Rightarrow> bool" where
  "informed fl c b \<longleftrightarrow> (\<forall>n. view_of fl c b n \<noteq> None \<longrightarrow> lists_node b n)"

lemma canon_str: "canon x = JStr d \<longleftrightarrow> x = JStr d"
  by (cases x) (auto split: if_splits option.splits)

lemma in_targets:
  assumes "dst \<noteq> dst_all"
  shows "c \<in> set (targets b dst) \<longleftrightarrow> hashable dst \<and> dict_get (clients b) (canon dst) = Some c"
proof (cases "hashable dst")
  case True
  then show ?thesis
    using assms by (cases "dict_get (clients b) (canon dst)") (simp_all add: targets_def eq_commute [of c])
qed (use assms in \<open>simp add: targets_def\<close>)

lemma texts_to_targets:
  assumes "broker_ok b" and "dict_get (clients b) (JStr d) = Some c"
    and "sent t = sent b @ map (\<lambda>w. (w, m)) (targets b dst)"
  shows "texts_to c t = texts_to c b @ (if dst = dst_all \<or> dst = JStr d then [m] else [])"
proof -
  have once: "map snd (filter (\<lambda>p. fst p = c) (map (\<lambda>w. (w, m)) ws)) = (if c \<in> set ws then [m] else [])"
    if "distinct ws" for ws
    using that by (induction ws) auto
  have key: "dict_get (clients b) k = Some c \<longleftrightarrow> k = JStr d" for k
  proof -
    have "handler_uid b c = k'" if "dict_get (clients b) k' = Some c" for k'
      using assms(1) map_of_SomeD [OF that] by (fastforce simp: broker_ok_def)
    from this [of k] this [of "JStr d"] assms(2) show ?thesis by auto
  qed
  have "c \<in> set (targets b dst) \<longleftrightarrow> dst = dst_all \<or> dst = JStr d"
  proof (cases "dst = dst_all")
    case True
    then show ?thesis using map_of_SomeD [OF assms(2)] by (force simp: targets_def)
  next
    case False
    then show ?thesis unfolding in_targets [OF False] key canon_str by (auto simp: hashable_def)
  qed
  then show ?thesis
    using once [OF distinct_targets [OF assms(1)]] by (simp add: texts_append [OF assms(3)])
qed

text \<open>What the treatment of a message leaves behind, for any destination.\<close>

lemma deliver_effect:
  assumes "broker_ok s" and "clients_up s" and "dict_get kvs ''dst'' = Some dst"
  shows "snd (deliver (JObj kvs) s) = s\<lparr>sent := sent s @ map (\<lambda>w. (w, serialize (JObj kvs))) (targets s dst)\<rparr>"
proof (cases "hashable dst")
  case True
  then show ?thesis using deliver_run [OF assms(1,2), of "JObj kvs" dst] assms(3) by (simp add: py_getitem_def)
next
  case False
  then show ?thesis
    using assms(3) by (auto simp: deliver_def py_getitem_def py_run in_keys_def targets_def hashable_def)
qed

lemma new_effect:
  assumes "broker_ok s" and "clients_up s" and "dict_get (gateways s) w = Some uids"
    and kvs: "kvs = [(''type'', JStr ''new''), (''uid'', JStr n), (''dst'', dst)]"
    and us: "us = (if py_in (JStr n) uids then uids else uids @ [JStr n])"
  shows "snd (on_gateway_message w (JObj kvs) s) =
    (if py_in (JStr n) uids then s else s\<lparr>gateways := dict_put (gateways s) w us\<rparr>)
      \<lparr>sent := sent s @ map (\<lambda>r. (r, serialize (JObj kvs))) (targets s dst)\<rparr>"
proof -
  have "broker_ok (s\<lparr>gateways := dict_put (gateways s) w (uids @ [JStr n])\<rparr>)" if "\<not> py_in (JStr n) uids"
    using broker_ok_put_nodes [OF assms(1)] broker_ok_nodes [OF assms(1,3)] that by (simp add: pairwise_distinct_snoc)
  then have put: "snd (deliver (JObj kvs) (s\<lparr>gateways := dict_put (gateways s) w (uids @ [JStr n])\<rparr>)) =
      s\<lparr>gateways := dict_put (gateways s) w (uids @ [JStr n]),
        sent := sent s @ map (\<lambda>r. (r, serialize (JObj kvs))) (targets s dst)\<rparr>" if "\<not> py_in (JStr n) uids"
    using deliver_effect [of "s\<lparr>gateways := dict_put (gateways s) w (uids @ [JStr n])\<rparr>" kvs dst] assms(2) that
    by (simp add: kvs clients_up_def targets_def)
  show ?thesis
    using deliver_effect [OF assms(1,2), of kvs dst] put assms(3)
    by (simp add: on_gateway_message_def py_getitem_def kvs us gateway_nodes_run set_gateway_nodes_def seq_modify py_run
        split: prod.split)
qed

lemma update_effect:
  assumes "broker_ok s" and "clients_up s" and "dict_get (gateways s) w = Some uids"
    and kvs: "kvs = [(''type'', JStr ''update''), (''uid'', JStr n), (''endpoint'', k), (''data'', v), (''dst'', dst)]"
  shows "snd (on_gateway_message w (JObj kvs) s) =
    (if py_in (JStr n) uids then s\<lparr>sent := sent s @ map (\<lambda>r. (r, serialize (JObj kvs))) (targets s dst)\<rparr> else s)"
  using deliver_effect [OF assms(1,2), of kvs dst] assms(3)
  by (simp add: on_gateway_message_def py_getitem_def kvs uid_behind_run in_text_def py_run split: prod.split)

lemma out_effect:
  assumes "broker_ok s" and "clients_up s" and "dict_get (gateways s) w = Some uids"
    and kvs: "kvs = [(''type'', JStr ''out''), (''uid'', JStr n)]"
  shows "snd (on_gateway_message w (JObj kvs) s) =
    (if py_in (JStr n) uids
     then s\<lparr>gateways := dict_put (gateways s) w (remove_first (JStr n) uids),
            sent := sent s @ map (\<lambda>r. (r, serialize (JObj kvs))) (targets s dst_all)\<rparr>
     else s)"
proof -
  let ?s = "s\<lparr>gateways := dict_put (gateways s) w (remove_first (JStr n) uids)\<rparr>"
  have "broker_ok ?s"
    using broker_ok_put_nodes [OF assms(1)] broker_ok_nodes [OF assms(1,3)] by (simp add: pairwise_distinct_remove)
  from broadcast_run [OF this, of "serialize (JObj kvs)"] deliveries_all [of ?s "serialize (JObj kvs)"]
  have "snd (broadcast (serialize (JObj kvs)) ?s) =
      ?s\<lparr>sent := sent s @ map (\<lambda>r. (r, serialize (JObj kvs))) (targets s dst_all)\<rparr>"
    using assms(2) by (simp add: clients_up_def targets_def case_prod_beta comp_def)
  then show ?thesis
    using assms(3)
    by (simp add: on_gateway_message_def py_getitem_def kvs uid_behind_run gateway_nodes_run py_remove_def
        set_gateway_nodes_def in_text_def py_run split: prod.split)
qed

lemma alive_effect:
  assumes "dict_get (gateways s) w = Some uids"
  shows "snd (on_gateway_message w (JObj [(''type'', JStr ''update''), (''uid'', JStr n)]) s) = s"
  using assms
  by (simp add: on_gateway_message_def py_getitem_def or_raise_def uid_behind_run in_text_def deliver_def py_run)

text \<open>One text of the gateway passes the broker.\<close>

lemma view_more: "texts_to c t = texts_to c b @ ms \<Longrightarrow> view_of fl c t = told fl ms (view_of fl c b)"
  by (simp add: view_of_def)

definition in_tune :: "(string \<Rightarrow> string) \<Rightarrow> ws \<Rightarrow> string \<Rightarrow> string \<Rightarrow> broker \<Rightarrow> bool" where
  "in_tune fl c d m b \<longleftrightarrow>
     view_of fl c (relay fl m b) = (if heard fl d m then tell fl m (view_of fl c b) else view_of fl c b)
     \<and> informed fl c (relay fl m b)"

lemma in_tune_passed:
  assumes "broker_ok b" and "dict_get (clients b) (JStr d) = Some c"
    and "sent (relay fl m b) = sent b @ map (\<lambda>w. (w, m)) (targets b dst)" and "dict_get (gateways (relay fl m b)) link_ws = Some us"
    and "heard fl d m \<longleftrightarrow> dst = dst_all \<or> dst = JStr d"
    and "\<And>n. (if heard fl d m then tell fl m (view_of fl c b) else view_of fl c b) n \<noteq> None \<Longrightarrow> py_in (JStr n) us"
  shows "in_tune fl c d m b"
proof -
  have "view_of fl c (relay fl m b) = (if heard fl d m then tell fl m (view_of fl c b) else view_of fl c b)"
    using view_more [OF texts_to_targets [OF assms(1-3)]] assms(5) by auto
  with assms(4,6) show ?thesis by (simp add: in_tune_def informed_def lists_node_def)
qed

lemma known_listed: "informed fl c b \<Longrightarrow> dict_get (gateways b) link_ws = Some uids \<Longrightarrow> view_of fl c b n \<noteq> None \<Longrightarrow> py_in (JStr n) uids"
  by (auto simp: informed_def lists_node_def)

lemma in_tune_new:
  assumes ok: "broker_ok b" "clients_up b" and c: "dict_get (clients b) (JStr d) = Some c"
    and w: "dict_get (gateways b) link_ws = Some uids" and i: "informed fl c b" and dst: "json_ok fl dst"
  shows "in_tune fl c d (new_node (JStr n) dst) b"
proof -
  let ?kvs = "[(''type'', JStr ''new''), (''uid'', JStr n), (''dst'', dst)]" and ?m = "new_node (JStr n) dst"
  define us where "us = (if py_in (JStr n) uids then uids else uids @ [JStr n])"
  have "relay fl ?m b = snd (on_gateway_message link_ws (JObj ?kvs) b)"
    unfolding new_node_def by (rule relay_text) (use dst in \<open>simp_all add: valid_message_def message_types_def\<close>)
  then have t: "sent (relay fl ?m b) = sent b @ map (\<lambda>w. (w, ?m)) (targets b dst)" "dict_get (gateways (relay fl ?m b)) link_ws = Some us"
    using new_effect [OF ok w refl us_def] w by (simp_all add: new_node_def us_def dict_get_put)
  show ?thesis
    by (rule in_tune_passed [OF ok(1) c t])
      (use dst known_listed [OF i w] in \<open>auto simp: us_def py_in_iff split: if_splits\<close>)
qed

lemma in_tune_update:
  assumes ok: "broker_ok b" "clients_up b" and c: "dict_get (clients b) (JStr d) = Some c"
    and w: "dict_get (gateways b) link_ws = Some uids" and i: "informed fl c b"
    and j: "json_ok fl k" "json_ok fl v" "json_ok fl dst"
  shows "in_tune fl c d (update_node (JStr n) k v dst) b"
proof -
  let ?kvs = "[(''type'', JStr ''update''), (''uid'', JStr n), (''endpoint'', k), (''data'', v), (''dst'', dst)]"
  let ?m = "update_node (JStr n) k v dst"
  have "relay fl ?m b = snd (on_gateway_message link_ws (JObj ?kvs) b)"
    unfolding update_node_def by (rule relay_text) (use j in \<open>simp_all add: valid_message_def message_types_def\<close>)
  then have t: "relay fl ?m b =
      (if py_in (JStr n) uids then b\<lparr>sent := sent b @ map (\<lambda>w. (w, ?m)) (targets b dst)\<rparr> else b)"
    using update_effect [OF ok w refl] by (simp add: update_node_def)
  show ?thesis
  proof (cases "py_in (JStr n) uids")
    case True
    then have s: "sent (relay fl ?m b) = sent b @ map (\<lambda>w. (w, ?m)) (targets b dst)" "dict_get (gateways (relay fl ?m b)) link_ws = Some uids"
      using t w by simp_all
    show ?thesis
      by (rule in_tune_passed [OF ok(1) c s])
        (use j True known_listed [OF i w] in \<open>auto split: if_splits option.splits\<close>)
  next
    case False
    then have "view_of fl c b n = None" using known_listed [OF i w] by blast
    with t False i j show ?thesis by (simp add: in_tune_def)
  qed
qed

lemma in_tune_out:
  assumes ok: "broker_ok b" "clients_up b" and c: "dict_get (clients b) (JStr d) = Some c"
    and w: "dict_get (gateways b) link_ws = Some uids" and i: "informed fl c b"
  shows "in_tune fl c d (out_node (JStr n)) b"
proof -
  let ?kvs = "[(''type'', JStr ''out''), (''uid'', JStr n)]" and ?m = "out_node (JStr n)"
  have "relay fl ?m b = snd (on_gateway_message link_ws (JObj ?kvs) b)"
    unfolding out_node_def by (rule relay_text) (simp_all add: valid_message_def message_types_def)
  then have t: "relay fl ?m b = (if py_in (JStr n) uids
      then b\<lparr>gateways := dict_put (gateways b) link_ws (remove_first (JStr n) uids),
             sent := sent b @ map (\<lambda>w. (w, ?m)) (targets b dst_all)\<rparr> else b)"
    using out_effect [OF ok w refl] by (simp add: out_node_def)
  show ?thesis
  proof (cases "py_in (JStr n) uids")
    case True
    then have s: "sent (relay fl ?m b) = sent b @ map (\<lambda>w. (w, ?m)) (targets b dst_all)"
        "dict_get (gateways (relay fl ?m b)) link_ws = Some (remove_first (JStr n) uids)"
      using t by (simp_all add: dict_get_put)
    show ?thesis
      by (rule in_tune_passed [OF ok(1) c s])
        (use broker_ok_nodes(1) [OF ok(1) w] known_listed [OF i w] in
          \<open>auto simp: py_in_iff canon_remove_first split: if_splits\<close>)
  next
    case False
    then have "view_of fl c b n = None" using known_listed [OF i w] by blast
    then have "(view_of fl c b)(n := None) = view_of fl c b" by (simp add: fun_upd_idem)
    with t False i show ?thesis by (simp add: in_tune_def)
  qed
qed

lemma in_tune_alive:
  assumes "dict_get (gateways b) link_ws = Some uids" and "informed fl c b"
  shows "in_tune fl c d gateway_alive b"
proof -
  have "relay fl gateway_alive b = snd (on_gateway_message link_ws (JObj [(''type'', JStr ''update''), (''uid'', JStr ''alive'')]) b)"
    unfolding gateway_alive_def by (rule relay_text) (simp_all add: valid_message_def message_types_def)
  then show ?thesis using alive_effect [OF assms(1)] assms(2) by (simp add: in_tune_def)
qed

lemma relay_heard:
  assumes "broker_ok b" "clients_up b" and "dict_get (clients b) (JStr d) = Some c"
    and "dict_get (gateways b) link_ws = Some uids" and "sound_text fl m" and "informed fl c b"
  shows "in_tune fl c d m b"
  using assms(5) by cases (simp_all add: in_tune_new [OF assms(1-4,6)] in_tune_update [OF assms(1-4,6)]
      in_tune_out [OF assms(1-4,6)] in_tune_alive [OF assms(4,6)])

section \<open>The system\<close>

definition in_step :: "(string \<Rightarrow> string) \<Rightarrow> ws \<Rightarrow> string \<Rightarrow> system \<Rightarrow> bool" where
  "in_step fl c d s \<longleftrightarrow> clients_up (hub s) \<and> dict_get (clients (hub s)) (JStr d) = Some c
     \<and> broker_link (edge s) = Some Open \<and> informed fl c (hub s)
     \<and> (\<forall>m \<in> set (drop (read_up s) (outbox (edge s))). sound_text fl m)
     \<and> hears fl d (drop (read_up s) (outbox (edge s))) (view_of fl c (hub s)) = cached (edge s)"

text \<open>
  A step that leaves the client \<open>c\<close> registered as \<open>d\<close>, the registered clients connected and the
  gateway's connection open, and does not disturb the gateway.
\<close>

definition calm :: "(system_event \<Rightarrow> (system, unit) py) \<Rightarrow> ws \<Rightarrow> string \<Rightarrow> system_event \<Rightarrow> system \<Rightarrow> bool" where
  "calm h c d e s \<longleftrightarrow>
     (let t = snd (h e s) in
       clients_up (hub t) \<and> dict_get (clients (hub t)) (JStr d) = Some c \<and> broker_link (edge t) = Some Open)
     \<and> (case e of Edge x \<Rightarrow> undisturbed x (edge s) | _ \<Rightarrow> True)"

lemma edge_in_step:
  assumes "canonical_floats fl" and "system_ok fl s" and "in_step fl c d s"
    and "undisturbed x (edge s)" and "\<forall>y. x \<noteq> Base (BrokerConnection y)"
    and "broker_link (snd (coap_handle fl rep enc ks opts x (edge s))) = Some Open"
  shows "in_step fl c d (s\<lparr>edge := snd (coap_handle fl rep enc ks opts x (edge s))\<rparr>)"
proof -
  let ?e = "snd (coap_handle fl rep enc ks opts x (edge s))"
  have "coap_ok fl (edge s)" "read_up s \<le> length (outbox (edge s))"
    using assms(2) by (simp_all add: system_ok_def in_order_def)
  moreover from this follows_coap_handle [OF assms(1) _ assms(4-6)]
  have "follows fl d (edge s) ?e" by blast
  moreover have "gateway_ok fl (edge s)" "broker_link (edge s) = Some Open"
    using assms(2,3) by (simp_all add: system_ok_def coap_ok_def gateway_inv_def in_step_def)
  ultimately obtain ms where "outbox ?e = outbox (edge s) @ ms" "\<forall>m \<in> set ms. sound_text fl m"
      "hears fl d ms (cached (edge s)) = cached ?e"
    by (auto simp: follows_def)
  with assms(3,6) \<open>read_up s \<le> length (outbox (edge s))\<close> show ?thesis by (auto simp: in_step_def)
qed

lemma hub_in_step:
  assumes "system_ok fl s" and "in_step fl c d s" and "is_client_event x"
    and b: "b = snd (broker_handle fl x (hub s))"
    and "clients_up b" and "dict_get (clients b) (JStr d) = Some c"
  shows "in_step fl c d (s\<lparr>hub := b\<rparr>)"
proof -
  have ok: "broker_ok (hub s)" and g: "map fst (gateways (hub s)) = [link_ws]"
    using assms(1) by (simp_all add: system_ok_def)
  have "dict_get (clients (hub s)) (JStr d) = Some c" using assms(2) by (simp add: in_step_def)
  then have "handler_uid (hub s) c = JStr d" using ok by (auto simp: broker_ok_def dest!: map_of_SomeD)
  moreover have "handler_uid (hub s) link_ws = JNull" using ok g by (auto simp: broker_ok_def)
  ultimately have "c \<noteq> link_ws" by auto
  obtain xs where xs: "gateways b = gateways (hub s)" "sent b = sent (hub s) @ xs" "fst ` set xs \<subseteq> {link_ws}"
    using client_event_run [OF ok assms(3), of fl] arg_cong [OF g, of set] by (auto simp: b)
  have "texts_to c b = texts_to c (hub s)"
    using xs(2,3) \<open>c \<noteq> link_ws\<close> by (force simp: texts_to_def filter_empty_conv)
  with assms(2,5,6) xs(1) show ?thesis by (simp add: in_step_def informed_def view_of_def lists_node_def)
qed

lemma up_in_step:
  assumes "system_ok fl s" and "in_step fl c d s" and "read_up s < length (outbox (edge s))"
    and b: "b = relay fl (outbox (edge s) ! read_up s) (hub s)"
    and "clients_up b" and "dict_get (clients b) (JStr d) = Some c"
  shows "in_step fl c d (s\<lparr>read_up := Suc (read_up s), hub := b\<rparr>)"
proof -
  let ?m = "outbox (edge s) ! read_up s"
  have drop: "drop (read_up s) (outbox (edge s)) = ?m # drop (Suc (read_up s)) (outbox (edge s))"
    by (rule Cons_nth_drop_Suc [symmetric]) fact
  obtain uids where "gateways (hub s) = [(link_ws, uids)]" using assms(1) by (auto simp: system_ok_def)
  then have w: "dict_get (gateways (hub s)) link_ws = Some uids" by simp
  have "broker_ok (hub s)" "clients_up (hub s)" "dict_get (clients (hub s)) (JStr d) = Some c"
      "sound_text fl ?m" "informed fl c (hub s)"
    using assms(1,2) drop by (simp_all add: system_ok_def in_step_def)
  from relay_heard [OF this(1-3) w this(4,5)] assms(2,5,6) drop show ?thesis
    by (simp add: in_step_def in_tune_def b)
qed

lemma calm_step:
  assumes "canonical_floats fl" and "system_ok fl s" and "in_step fl c d s"
    and "system_enabled e s" and calm: "calm (system_handle fl rep enc ks opts) c d e s"
  shows "in_step fl c d (snd (system_handle fl rep enc ks opts e s))"
proof (cases e)
  case (Hub x)
  with assms hub_in_step [OF assms(2,3) _ refl, of x] show ?thesis by (simp add: calm_def)
next
  case (Edge x)
  moreover have "\<forall>y. x \<noteq> Base (BrokerConnection y)" using assms(4) Edge by auto
  ultimately show ?thesis using assms edge_in_step [OF assms(1-3), of x] by (auto simp: calm_def)
next
  case Down
  let ?m = "texts_to link_ws (hub s) ! read_down s"
  have "system_ok fl (s\<lparr>read_down := Suc (read_down s)\<rparr>)" using assms(2) by (simp add: system_ok_def in_order_def)
  moreover have "in_step fl c d (s\<lparr>read_down := Suc (read_down s)\<rparr>)" using assms(3) by (simp add: in_step_def)
  ultimately show ?thesis
    using edge_in_step [OF assms(1), of "s\<lparr>read_down := Suc (read_down s)\<rparr>" c d "Base (BrokerMessage ?m)" rep enc ks opts] calm
    by (simp add: Down calm_def bind_gets seq_modify)
next
  case Up
  then show ?thesis
    using up_in_step [OF assms(2,3) _ refl] assms(4) calm
    by (simp add: calm_def bind_gets seq_modify relay_def relay_at_def del: broker_handle.simps)
qed

lemma calm_run:
  assumes "canonical_floats fl" and "h = system_handle fl rep enc ks opts"
    and "system_ok fl s" and "in_step fl c d s"
    and "run_enabled h (\<lambda>e s. system_enabled e s \<and> calm h c d e s) s es"
  shows "system_ok fl (run_events h s es) \<and> in_step fl c d (run_events h s es)"
  using assms(3-5)
proof (induction es arbitrary: s)
  case (Cons e es)
  then have "system_ok fl (snd (h e s))" "in_step fl c d (snd (h e s))"
    using system_step_ok [OF assms(1)] calm_step [OF assms(1)] by (simp_all add: assms(2))
  with Cons show ?case by simp
qed simp

text \<open>
  C1: Clients agree with the gateway: take a registered client whose view, learned from its texts, is
  the gateway's cache.  Whatever then happens (nodes that come, report and fall silent, other
  clients that come, ask and go, replies and texts in any interleaving), as long as the steps
  are calm the client's view together with the texts for it that the broker has not read yet is
  the cache; once all are read, its view is the cache.
\<close>

theorem clients_converge:
  assumes "canonical_floats fl" and "system_ok fl s"
    and "clients_up (hub s)" and "dict_get (clients (hub s)) (JStr d) = Some c"
    and "broker_link (edge s) = Some Open" and "read_up s = length (outbox (edge s))"
    and "told fl (texts_to c (hub s)) Map.empty = cached (edge s)"
    and "\<forall>n. cached (edge s) n \<noteq> None \<longrightarrow> lists_node (hub s) n"
    and h: "h = system_handle fl rep enc ks opts"
    and "run_enabled h (\<lambda>e s. system_enabled e s \<and> calm h c d e s) s es" and t: "t = run_events h s es"
  shows "told fl (texts_to c (hub t) @ filter (heard fl d) (drop (read_up t) (outbox (edge t)))) Map.empty = cached (edge t)
    \<and> (read_up t = length (outbox (edge t)) \<longrightarrow> told fl (texts_to c (hub t)) Map.empty = cached (edge t))"
proof -
  have "in_step fl c d s"
    using assms(3-8) by (simp add: in_step_def informed_def view_of_def)
  then have "in_step fl c d t" using calm_run [OF assms(1) h assms(2) _ assms(10)] by (simp add: t)
  then show ?thesis by (auto simp: in_step_def view_of_def hears_def)
qed

definition idle_system :: system where
  "idle_system = busy_system\<lparr>edge := demo_coap\<lparr>nodes := [], node_mapping := []\<rparr>\<rparr>"

lemma idle_system_fields [simp]:
  "edge idle_system = demo_coap\<lparr>nodes := [], node_mapping := []\<rparr>" "read_up idle_system = 0"
  "clients (hub idle_system) = [(JStr ''c7'', 7)]" "up (hub idle_system) = (\<lambda>_. True)"
  "texts_to w (hub idle_system) = []"
  by (simp_all add: idle_system_def busy_system_def texts_to_def)

lemma idle_system_ok: "system_ok fl idle_system"
proof -
  have "coap_ok fl (demo_coap\<lparr>nodes := [], node_mapping := []\<rparr>)"
    using busy_system_ok [of fl]
    by (auto simp: system_ok_def busy_system_def coap_ok_def gateway_inv_def gateway_ok_def loop_ok_def ips_ok_def
        tasks_ok_def puts_def simp del: demo_coap_fields(12))
  then show ?thesis
    using busy_system_ok [of fl] by (simp add: system_ok_def in_order_def idle_system_def texts_to_def busy_system_def)
qed

theorem clients_converge_witness:
  "let t = run_events (system_handle keep_literal (\<lambda>_. []) toy_enc \<lparr>private_key = ''k'', secret_key = ''s''\<rparr> demo_options)
       idle_system [Edge (AlivePost ''fd00::1'' ''alive:n1'')] in
   told keep_literal (texts_to 7 (hub t) @ filter (heard keep_literal ''c7'') (drop (read_up t) (outbox (edge t)))) Map.empty
     = cached (edge t)
   \<and> cached (edge t) ''n1'' \<noteq> None"
proof -
  let ?h = "system_handle keep_literal (\<lambda>_. []) toy_enc \<lparr>private_key = ''k'', secret_key = ''s''\<rparr> demo_options"
  let ?e = "demo_coap\<lparr>nodes := [], node_mapping := []\<rparr>" and ?es = "[Edge (AlivePost ''fd00::1'' ''alive:n1'')]"
  have ok: "gateway_ok keep_literal ?e" "broker_link ?e = Some Open"
    using idle_system_ok [of keep_literal] by (simp_all add: system_ok_def coap_ok_def gateway_inv_def)
  define e where "e = [(JStr ''ip'', JStr ''fd00::1''), (JStr ''protocol'', JStr coap_protocol)]"
  obtain w where w: "handle_coap_check (\<lambda>_. []) demo_options ''n1'' ''fd00::1'' False ?e = (Inr Suspended, w)"
      "cached w = (cached ?e)(''n1'' \<mapsto> [JStr ''ip'' \<mapsto> JStr ''fd00::1'', JStr ''protocol'' \<mapsto> JStr coap_protocol])"
    using new_node_run [OF ok _ e_def, of "''n1''" "\<lambda>_. []" demo_options False] by (auto simp: dict_has_def)
  have "grows keep_literal ?e w" using cache.upholdsD [OF keeps_check] w(1) by (metis snd_conv)
  then have "broker_link w = Some Open" using ok(2) by (simp add: grows_def same_connection_def)
  have step: "snd (?h (Edge (AlivePost ''fd00::1'' ''alive:n1'')) idle_system) = idle_system\<lparr>edge := w\<rparr>"
    using w(1) by (simp add: alive_render_post_def decode_utf8_def byte_in_def starts_with_def py_run)
  have up: "clients_up (hub idle_system)" by (simp add: clients_up_def)
  have empty: "cached ?e = Map.empty" by (simp add: cached_def fun_eq_iff)
  have "run_enabled ?h (\<lambda>e s. system_enabled e s \<and> calm ?h 7 ''c7'' e s) idle_system ?es"
    using step up \<open>broker_link w = Some Open\<close>
    by (simp add: calm_def dict_has_def starts_with_def del: system_handle.simps)
  from clients_converge [OF canonical_keep_literal idle_system_ok up _ _ _ _ _ refl this refl]
  show ?thesis using step w(2) empty by (simp add: Let_def del: system_handle.simps)
qed

end
