(* ===== verification/Coap_Roster.thy ===== *)
theory Coap_Roster
  imports Coap_Follow
begin

text \<open>
  Which nodes a reader of a gateway's texts takes to be there.  Every step of the CoAP gateway on
  an open connection, resets and late replies included, writes texts from which the set of the
  cached uids can be read off.
\<close>

section \<open>Reading the roster off the texts\<close>

definition enrol :: "(string \<Rightarrow> string) \<Rightarrow> string \<Rightarrow> string set \<Rightarrow> string set" where
  "enrol fl m S =
     (case loads fl m of
        Inr (JObj kvs) \<Rightarrow>
          (case (dict_get kvs ''type'', dict_get kvs ''uid'') of
             (Some (JStr t), Some (JStr u)) \<Rightarrow>
               if t = ''new'' then insert u S else if t = ''out'' then S - {u} else S
           | _ \<Rightarrow> S)
      | _ \<Rightarrow> S)"

definition enrolled :: "(string \<Rightarrow> string) \<Rightarrow> string list \<Rightarrow> string set \<Rightarrow> string set" where
  "enrolled fl ms S = fold (enrol fl) ms S"

definition roster :: "'a gateway_scheme \<Rightarrow> string set" where
  "roster s = fst ` set (nodes s)"

lemma enrol_simps [simp]:
  "json_ok fl dst \<Longrightarrow> enrol fl (new_node (JStr u) dst) S = insert u S"
  "json_ok fl k \<Longrightarrow> json_ok fl v \<Longrightarrow> json_ok fl dst \<Longrightarrow> enrol fl (update_node (JStr u) k v dst) S = S"
  "enrol fl (out_node (JStr u)) S = S - {u}"
  "enrol fl (reset_node_msg (JStr u)) S = S"
  "enrol fl gateway_alive S = S"
  by (simp_all add: enrol_def new_node_def update_node_def out_node_def reset_node_msg_def gateway_alive_def
      serialize_read)

lemma enrolled_simps [simp]:
  "enrolled fl [] S = S"
  "enrolled fl (m # ms) S = enrolled fl ms (enrol fl m S)"
  "enrolled fl (ms @ ns) S = enrolled fl ns (enrolled fl ms S)"
  by (simp_all add: enrolled_def)

inductive proper_text :: "(string \<Rightarrow> string) \<Rightarrow> string \<Rightarrow> bool" for fl where
  proper_sound: "sound_text fl m \<Longrightarrow> proper_text fl m"
| proper_reset: "proper_text fl (reset_node_msg (JStr u))"

lemma enrolled_updates:
  assumes "resources_ok fl d" and "json_ok fl client"
  shows "enrolled fl (update_texts client u d) S = S"
proof -
  have "\<forall>(k, v) \<in> set d. json_ok fl k \<and> json_ok fl v" using assms(1) by (auto dest: resources_okD)
  then show ?thesis using assms(2) by (induction d) (auto simp: update_texts_def)
qed

lemma enrolled_cache_texts:
  assumes "resources_ok fl (resources a)" and "json_ok fl client"
  shows "enrolled fl (cache_texts client a) S = insert (uid a) S"
  using assms by (simp add: cache_texts_def enrolled_updates)

lemma enrolled_fetch:
  assumes "gateway_ok fl s" and "json_ok fl client"
  shows "enrolled fl (concat (map (\<lambda>(u, r). cache_texts client (objects s r)) (nodes s))) S = S \<union> roster s"
proof -
  have "enrolled fl (concat (map (\<lambda>(u, r). cache_texts client (objects s r)) ns)) S = S \<union> fst ` set ns"
    if "\<forall>(u, r) \<in> set ns. uid (objects s r) = u" for ns
    using that
    by (induction ns arbitrary: S) (auto simp: enrolled_cache_texts gateway_ok_resources [OF assms(1)] assms(2))
  moreover have "\<forall>(u, r) \<in> set (nodes s). uid (objects s r) = u" using assms(1) by (auto simp: gateway_ok_def)
  ultimately show ?thesis by (simp add: roster_def)
qed

section \<open>Computations that keep the roster readable\<close>

definition rolls :: "(string \<Rightarrow> string) \<Rightarrow> 'a gateway_scheme \<Rightarrow> 'a gateway_scheme \<Rightarrow> bool" where
  "rolls fl s t \<longleftrightarrow> (gateway_ok fl s \<and> broker_link s = Some Open \<longrightarrow>
     gateway_ok fl t \<and> broker_link t = Some Open
     \<and> (\<exists>ms. outbox t = outbox s @ ms \<and> (\<forall>m \<in> set ms. proper_text fl m) \<and> enrolled fl ms (roster s) = roster t))"

interpretation roll: state_preorder "rolls fl"
proof unfold_locales
  fix s t u :: "'a gateway_scheme"
  show "rolls fl s s" by (auto simp: rolls_def intro: exI [of _ "[]"])
  assume "rolls fl s t" and tu: "rolls fl t u"
  show "rolls fl s u"
    unfolding rolls_def
  proof
    assume "gateway_ok fl s \<and> broker_link s = Some Open"
    with \<open>rolls fl s t\<close> obtain ms where t: "gateway_ok fl t" "broker_link t = Some Open"
      and ms: "outbox t = outbox s @ ms" "\<forall>m \<in> set ms. proper_text fl m" "enrolled fl ms (roster s) = roster t"
      by (auto simp: rolls_def)
    from t tu obtain ns where u: "gateway_ok fl u" "broker_link u = Some Open"
      and ns: "outbox u = outbox t @ ns" "\<forall>m \<in> set ns. proper_text fl m" "enrolled fl ns (roster t) = roster u"
      by (auto simp: rolls_def)
    from u ms ns show "gateway_ok fl u \<and> broker_link u = Some Open
      \<and> (\<exists>ms. outbox u = outbox s @ ms \<and> (\<forall>m \<in> set ms. proper_text fl m) \<and> enrolled fl ms (roster s) = roster u)"
      by (intro conjI exI [of _ "ms @ ns"]) auto
  qed
qed

named_theorems roll_keeps \<open>operations from whose texts the roster can be read off\<close>

lemmas roll_rules = roll.upholds_rules

text \<open>A computation that keeps the invariant of the cache, as far as texts and roster go.\<close>

lemma rollsI:
  assumes "grows fl s t"
    and "gateway_ok fl s \<Longrightarrow> broker_link s = Some Open \<Longrightarrow> outbox t = outbox s @ ms"
    and "\<And>m. gateway_ok fl s \<Longrightarrow> m \<in> set ms \<Longrightarrow> proper_text fl m"
    and "gateway_ok fl s \<Longrightarrow> broker_link s = Some Open \<Longrightarrow> enrolled fl ms (roster s) = roster t"
  shows "rolls fl s t"
  using assms by (auto simp: rolls_def grows_def same_connection_def)

lemma rolls_quiet:
  assumes "grows fl s t" and "outbox t = outbox s" and "nodes t = nodes s"
  shows "rolls fl s t"
  using assms by (intro rollsI [where ms = "[]"]) (simp_all add: roster_def)

lemma rolls_same:
  assumes "outbox t = outbox s" and "nodes t = nodes s" and "objects t = objects s"
    and "fresh t = fresh s" and "broker_link t = broker_link s"
  shows "rolls fl s t"
  using assms by (auto simp: rolls_def gateway_ok_def roster_def intro: exI [of _ "[]"])

lemma roll_quiet:
  assumes "cache.upholds fl m" and "\<And>s. outbox (snd (m s)) = outbox s" and "\<And>s. nodes (snd (m s)) = nodes s"
  shows "roll.upholds fl m"
  by (rule roll.upholdsI, rule rolls_quiet) (use assms in \<open>auto intro: cache.upholdsD\<close>)

lemma roll_modify [roll_keeps]:
  assumes "\<And>s. outbox (f s) = outbox s \<and> nodes (f s) = nodes s \<and> objects (f s) = objects s
    \<and> fresh (f s) = fresh s \<and> broker_link (f s) = broker_link s"
  shows "roll.upholds fl (modify f)"
  using assms by (intro roll.upholds_modify rolls_same) auto

lemma roll_send:
  assumes "proper_text fl m" and "\<And>S. enrol fl m S = S"
  shows "roll.upholds fl (send_to_broker m)"
  by (rule roll.upholdsI, rule rollsI [where ms = "[m]"])
    (use assms cache.upholdsD [OF keeps_send] in \<open>auto simp: roster_def\<close>)

lemma roll_lookups [roll_keeps]:
  "roll.upholds fl (get_object r)" "roll.upholds fl (get_node u)" "roll.upholds fl (node_named v)"
  unfolding get_object_def get_node_def node_named_def by (intro roll_rules)+

lemma roll_objects [roll_keeps]:
  "roll.upholds fl (seen_now r)"
  "json_ok fl k \<Longrightarrow> json_ok fl v \<Longrightarrow> roll.upholds fl (set_resource r k v)"
  "roll.upholds fl (bind (get_object r) (\<lambda>a. set_object r (clear_resources a)))"
proof -
  show "roll.upholds fl (seen_now r)"
    by (rule roll_quiet [OF keeps_seen_now]) (auto simp: seen_now_def get_object_def set_object_def py_run)
  show "roll.upholds fl (bind (get_object r) (\<lambda>a. set_object r (clear_resources a)))"
    by (rule roll_quiet [OF keeps_clear]) (auto simp: get_object_def set_object_def py_run)
  assume "json_ok fl k" "json_ok fl v"
  then show "roll.upholds fl (set_resource r k v)"
    by (intro roll_quiet keeps_set_resource)
      (auto simp: set_resource_def set_resource_value_def get_object_def set_object_def py_run)
qed

lemma roll_texts [roll_keeps]:
  "json_ok fl k \<Longrightarrow> json_ok fl v \<Longrightarrow> roll.upholds fl (send_to_broker (update_node (JStr u) k v dst_all))"
  "roll.upholds fl (send_to_broker (reset_node_msg (JStr u)))"
  "roll.upholds fl send_alive"
proof -
  show "roll.upholds fl (send_to_broker (reset_node_msg (JStr u)))" "roll.upholds fl send_alive"
    unfolding send_alive_def by (intro roll_send; auto intro: proper_text.intros sound_text.intros)+
  show "json_ok fl k \<Longrightarrow> json_ok fl v \<Longrightarrow> roll.upholds fl (send_to_broker (update_node (JStr u) k v dst_all))"
    by (intro roll_send proper_sound sound_update) simp_all
qed

lemma roll_forward [roll_keeps]:
  "json_ok fl k \<Longrightarrow> json_ok fl v \<Longrightarrow> roll.upholds fl (forward_data_from_node r k v)"
  unfolding forward_data_from_node_def by (intro roll_rules roll_keeps)

lemma roll_reset [roll_keeps]:
  assumes "\<And>r. roll.upholds fl (f r)" and "\<forall>(k, v) \<in> set d. json_ok fl k \<and> json_ok fl v"
  shows "roll.upholds fl (reset_node p f r d)"
  using assms(2) unfolding reset_node_def by (intro roll_rules roll_keeps assms(1)) auto

lemma roll_remove [roll_keeps]: "roll.upholds fl (remove_node r)"
proof (rule roll.upholdsI)
  fix s :: "'a gateway_scheme"
  let ?u = "uid (objects s r)"
  have g: "grows fl s (snd (remove_node r s))" by (rule cache.upholdsD [OF keeps_remove_node])
  show "rolls fl s (snd (remove_node r s))"
  proof (cases "dict_has (nodes s) ?u")
    case False
    then have "remove_node r s = (Inl KeyError, s)" by (simp add: remove_node_def get_object_def bind_gets py_run)
    then show ?thesis by (simp add: roll.refl_state)
  next
    case True
    let ?t = "s\<lparr>nodes := dict_del (nodes s) ?u, outbox := outbox s @ [out_node (JStr ?u)]\<rparr>"
    have run: "remove_node r s = (Inr (), ?t)" if "broker_link s = Some Open"
      using True that by (simp add: remove_node_def get_object_def bind_gets seq_modify said_def)
    have "roster ?t = roster s - {?u}" if "gateway_ok fl s"
      using that by (auto simp: roster_def gateway_ok_def dict_del_filter image_iff)
    with run show ?thesis
      by (intro rollsI [OF g, where ms = "[out_node (JStr ?u)]"]) (auto intro: proper_sound sound_out)
  qed
qed

lemma roll_fetch [roll_keeps]:
  assumes "json_ok fl client"
  shows "roll.upholds fl (fetch_nodes_cache client)"
proof (rule roll.upholdsI)
  fix s :: "'a gateway_scheme"
  let ?ms = "concat (map (\<lambda>(u, r). cache_texts client (objects s r)) (nodes s))"
  show "rolls fl s (snd (fetch_nodes_cache client s))"
    using sound_cache_texts(1) [OF gateway_ok_resources assms]
    by (intro rollsI [where ms = ?ms] cache.upholdsD [OF keeps_fetch])
      (auto simp: fetch_run enrolled_fetch [OF _ assms] intro: proper_sound, simp_all add: roster_def)
qed

section \<open>The CoAP gateway\<close>

interpretation rolling: coap_observer "rolls fl" fl
  by unfold_locales (blast intro: rolls_same roll_keeps)+

lemma roll_coap [roll_keeps]:
  "roll.upholds fl (handle_coap_post addr k v)"
  "roll.upholds fl (resource_received r url path rest outcome)"
  unfolding handle_coap_post_def resource_received_def
  by (intro roll_rules roll_keeps rolling.quiet; simp)
    (auto intro!: roll_rules roll_keeps rolling.quiet split: sum.split)

lemma roll_check [roll_keeps]: "roll.upholds fl (handle_coap_check rep opts u addr reset)"
proof (rule roll.upholdsI)
  fix s
  have g: "grows fl s (snd (handle_coap_check rep opts u addr reset s))" by (rule cache.upholdsD [OF keeps_check])
  show "rolls fl s (snd (handle_coap_check rep opts u addr reset s))"
  proof (cases "dict_has (node_mapping s) u")
    case True
    have "roll.upholds fl (bind (get_mapped addr) (\<lambda>v. bind (get_node v) (\<lambda>r.
         seq (reset_node coap_protocol (\<lambda>_. ret ()) r [(JStr ''ip'', JStr addr)]) (ret Done))))"
      by (intro roll_rules roll_keeps rolling.quiet) auto
    with True show ?thesis
      using rolling.known_node_step [of fl addr]
      by (cases reset) (simp_all add: handle_coap_check_def bind_gets roll.upholdsD)
  next
    case False
    define e where "e = [(JStr ''ip'', JStr addr), (JStr ''protocol'', JStr coap_protocol)]"
    let ?a = "node_init (clock s) u e"
    have ok: "resources_ok fl (resources ?a)" by (simp add: node_init_def e_def hashable_def)
    show ?thesis
    proof (rule rollsI [OF g, where ms = "cache_texts dst_all ?a"])
      show "m \<in> set (cache_texts dst_all ?a) \<Longrightarrow> proper_text fl m" for m
        by (rule proper_sound, rule sound_cache_texts(1) [OF ok]) simp_all
      assume s: "gateway_ok fl s" "broker_link s = Some Open"
      from new_node_run [OF s False e_def] obtain t where
        t: "handle_coap_check rep opts u addr reset s = (Inr Suspended, t)"
          "nodes t = dict_put (nodes s) u (fresh s)" "outbox t = outbox s @ cache_texts dst_all ?a"
        by blast
      then show "outbox (snd (handle_coap_check rep opts u addr reset s)) = outbox s @ cache_texts dst_all ?a"
        "enrolled fl (cache_texts dst_all ?a) (roster s) = roster (snd (handle_coap_check rep opts u addr reset s))"
        using enrolled_cache_texts [OF ok, of dst_all "roster s"] by (simp_all add: roster_def fst_dict_put node_init_def)
    qed
  qed
qed

lemma rolls_coap_handle:
  assumes "canonical_floats fl" and "coap_ok fl s"
    and "\<forall>x. ev \<noteq> Base (BrokerConnection x)" and "broker_link (snd (coap_handle fl rep enc ks opts ev s)) = Some Open"
  shows "rolls fl s (snd (coap_handle fl rep enc ks opts ev s))"
proof (cases ev)
  case (Base b)
  with assms show ?thesis using rolling.base_step [OF assms(1), of b enc ks rep s] by simp
next
  case (AlivePost addr bytes)
  have "roll.upholds fl (seq (alive_render_post rep opts addr bytes) (ret ()))"
    unfolding alive_render_post_def by (intro roll_rules roll_keeps)
  with AlivePost show ?thesis by (simp add: roll.upholdsD)
next
  case (ServerPost addr bytes)
  have "roll.upholds fl (seq (server_render_post addr bytes) (ret ()))"
    unfolding server_render_post_def by (intro roll_rules roll_keeps)
  with ServerPost show ?thesis by (simp add: roll.upholdsD)
next
  case (Outcome i outcome)
  have "rolls fl t (snd (resume task outcome t))"
    if "dict_get (tasks s) i = Some task" and t: "t = s\<lparr>tasks := dict_del (tasks s) i\<rparr>" for task t
  proof (rule rolling.resume_step)
    show "task_ok fl task" using map_of_SomeD [OF that(1)] assms(2) by (auto simp: coap_ok_def tasks_ok_def)
    show "rolls fl t (snd (forward_data_from_node (task_node task) k v t))"
      if "json_ok fl k" "json_ok fl v" for k v
      using roll.upholdsD [OF roll_forward [OF that]] .
  qed
  then show ?thesis unfolding Outcome by (intro rolling.outcome_step) blast
next
  case Cleanup
  then show ?thesis using roll.upholdsD [OF rolling.cleanup_step] by simp
qed

text \<open>A new connection starts with the whole roster.\<close>

lemma connected_roster:
  assumes "gateway_ok fl s" and "connect_outcome enc ks (Inr ()) = Inr ()"
    and t: "t = snd (connection_made enc ks (Inr ()) s)"
  shows "broker_link t = Some Open \<and> conn t = Reading \<and> cached t = cached s \<and> nodes t = nodes s \<and> objects t = objects s
    \<and> outbox t = outbox s @ told_to dst_all s
    \<and> (\<forall>m \<in> set (told_to dst_all s). proper_text fl m) \<and> enrolled fl (told_to dst_all s) S = S \<union> roster s"
proof -
  let ?s = "s\<lparr>broker_link := Some Open, alive_timer := True\<rparr>"
  have "fetch_nodes_cache dst_all ?s = (Inr (), said ?s (told_to dst_all s))"
    using fetch_run [of ?s dst_all] by (simp add: told_to_eq)
  then have "t = (said ?s (told_to dst_all s))\<lparr>conn := Reading\<rparr>"
    using assms(2) by (simp add: t connection_made_def in_loop_def py_run)
  moreover have "proper_text fl m" if "m \<in> set (told_to dst_all s)" for m
    using that sound_cache_texts(1) [OF gateway_ok_resources [OF assms(1)], of dst_all]
    by (auto simp: told_to_def intro: proper_sound)
  moreover have "enrolled fl (told_to dst_all s) S = S \<union> roster s"
    using enrolled_fetch [OF assms(1), of dst_all S] by (simp add: told_to_eq)
  ultimately show ?thesis by (simp add: said_def cached_def fun_eq_iff)
qed

end
