(* ===== verification/Deployment.thy ===== *)
theory Deployment
  imports Composition_Views Coap_Roster
begin

text \<open>
  The broker with any number of CoAP gateways, over connections that come and go, next to other
  gateways and clients that may say anything.  A gateway has a number.  Its newest connection is a
  \<open>wire\<close>: the handler at the broker, and how many of the texts each side wrote the other has read.
  The sides notice the loss of a connection independently of each other, and what was not read by
  then is lost.  A gateway joins when the broker admits the token that it makes of its own keys.
\<close>

section \<open>The deployment\<close>

record wire =
  port :: ws
  taken :: nat
  given :: nat

record deployment =
  centre :: broker
  site :: "nat \<Rightarrow> coap_gateway"
  wires :: "nat \<Rightarrow> wire option"

text \<open>What is given: the keys and options of each gateway, and the parameters of the parts.\<close>

record setting =
  floats :: "string \<Rightarrow> string"
  printed :: "json \<Rightarrow> string"
  encrypt :: fernet
  decrypt :: fernet
  keyring :: "nat \<Rightarrow> keys"
  options :: "nat \<Rightarrow> coap_options"

definition site_handle :: "setting \<Rightarrow> nat \<Rightarrow> coap_event \<Rightarrow> (coap_gateway, unit) py" where
  "site_handle c i e = coap_handle (floats c) (printed c) (encrypt c) (keyring c i) (options c i) e"

definition at_centre :: "(broker, unit) py \<Rightarrow> (deployment, unit) py" where
  "at_centre m s = (case m (centre s) of (r, b) \<Rightarrow> (r, s\<lparr>centre := b\<rparr>))"

definition at_site :: "nat \<Rightarrow> (coap_gateway, unit) py \<Rightarrow> (deployment, unit) py" where
  "at_site i m s = (case m (site s i) of (r, e) \<Rightarrow> (r, s\<lparr>site := (site s)(i := e)\<rparr>))"

lemma at_part_snd [simp]:
  "snd (at_centre m s) = s\<lparr>centre := snd (m (centre s))\<rparr>"
  "snd (at_site i m' s) = s\<lparr>site := (site s)(i := snd (m' (site s i)))\<rparr>"
  by (simp_all add: at_centre_def at_site_def split: prod.split)

datatype deployment_event =
    Centre broker_event
  | Site nat coap_event
  | Join nat ws
  | Descend nat
  | Ascend nat

fun deployment_handle :: "setting \<Rightarrow> deployment_event \<Rightarrow> (deployment, unit) py" where
  "deployment_handle c (Centre e) = at_centre (broker_handle (floats c) e)"
| "deployment_handle c (Site i e) = at_site i (site_handle c i e)"
| "deployment_handle c (Join i w) =
     seq (modify (\<lambda>s. s\<lparr>wires := (wires s)(i \<mapsto>
            \<lparr>port = w, taken = length (outbox (site s i)), given = length (texts_to w (centre s))\<rparr>)\<rparr>))
     (seq (at_centre (broker_handle (floats c) (GatewayOpen w)))
     (at_site i (site_handle c i (Base (BrokerConnection (Inr ()))))))"
| "deployment_handle c (Descend i) =
     bind (gets (\<lambda>s. wires s i)) (\<lambda>v. case v of None \<Rightarrow> ret () | Some x \<Rightarrow>
       bind (gets (\<lambda>s. texts_to (port x) (centre s) ! given x)) (\<lambda>m.
       seq (modify (\<lambda>s. s\<lparr>wires := (wires s)(i \<mapsto> x\<lparr>given := Suc (given x)\<rparr>)\<rparr>))
       (at_site i (site_handle c i (Base (BrokerMessage m))))))"
| "deployment_handle c (Ascend i) =
     bind (gets (\<lambda>s. wires s i)) (\<lambda>v. case v of None \<Rightarrow> ret () | Some x \<Rightarrow>
       bind (gets (\<lambda>s. outbox (site s i) ! taken x)) (\<lambda>m.
       seq (modify (\<lambda>s. s\<lparr>wires := (wires s)(i \<mapsto> x\<lparr>taken := Suc (taken x)\<rparr>)\<rparr>))
       (at_centre (broker_handle (floats c) (GatewayMessage (port x) (Text m))))))"

lemma join_run:
  "snd (deployment_handle c (Join i w) s) =
     \<lparr>centre = snd (broker_handle (floats c) (GatewayOpen w) (centre s)),
      site = (site s)(i := snd (site_handle c i (Base (BrokerConnection (Inr ()))) (site s i))),
      wires = (wires s)(i \<mapsto> \<lparr>port = w, taken = length (outbox (site s i)), given = length (texts_to w (centre s))\<rparr>)\<rparr>"
proof -
  have opened: "at_centre (broker_handle (floats c) (GatewayOpen w)) t =
      (Inr (), t\<lparr>centre := snd (broker_handle (floats c) (GatewayOpen w) (centre t))\<rparr>)" for t
    by (simp add: at_centre_def set_up_def gateway_open_def py_run)
  show ?thesis by (simp add: seq_modify seq_first [OF opened] del: broker_handle.simps)
qed

lemma ascend_run:
  assumes "wires s i = Some x"
  shows "snd (deployment_handle c (Ascend i) s) =
     s\<lparr>centre := relay_at (port x) (floats c) (outbox (site s i) ! taken x) (centre s),
       wires := (wires s)(i \<mapsto> x\<lparr>taken := Suc (taken x)\<rparr>)\<rparr>"
  using assms by (simp add: bind_gets seq_modify relay_at_def del: broker_handle.simps)

definition ports :: "deployment \<Rightarrow> ws set" where
  "ports s = {w. \<exists>i x. wires s i = Some x \<and> port x = w}"

text \<open>The token a gateway sends when it connects, and the broker's check of it.\<close>

definition admitted :: "setting \<Rightarrow> nat \<Rightarrow> broker \<Rightarrow> bool" where
  "admitted c i b \<longleftrightarrow> (\<exists>tok. auth_token (encrypt c) (keyring c i) = Inr tok
     \<and> gateway_get (decrypt c) (broker_keys b) (Some (join_with '','' [''token'', tok])) = Inr Upgraded)"

fun foreign :: "broker_event \<Rightarrow> deployment \<Rightarrow> bool" where
  "foreign (GatewayOpen w) s \<longleftrightarrow> w \<notin> ports s"
| "foreign (GatewayMessage w _) s \<longleftrightarrow> w \<notin> ports s"
| "foreign _ s \<longleftrightarrow> True"

fun own_event :: "coap_event \<Rightarrow> bool" where
  "own_event (Base (BrokerConnection (Inr _))) \<longleftrightarrow> False"
| "own_event (Base (BrokerMessage _)) \<longleftrightarrow> False"
| "own_event _ \<longleftrightarrow> True"

fun deployment_enabled :: "setting \<Rightarrow> deployment_event \<Rightarrow> deployment \<Rightarrow> bool" where
  "deployment_enabled c (Centre e) s \<longleftrightarrow> foreign e s \<and> broker_enabled e (centre s)"
| "deployment_enabled c (Site i e) s \<longleftrightarrow> own_event e \<and> coap_enabled e (site s i)"
| "deployment_enabled c (Join i w) s \<longleftrightarrow>
     conn (site s i) = Connecting \<and> admitted c i (centre s) \<and> w \<notin> ports s \<and> broker_enabled (GatewayOpen w) (centre s)"
| "deployment_enabled c (Descend i) s \<longleftrightarrow>
     (case wires s i of None \<Rightarrow> False | Some x \<Rightarrow>
        given x < length (texts_to (port x) (centre s)) \<and> conn (site s i) = Reading)"
| "deployment_enabled c (Ascend i) s \<longleftrightarrow>
     (case wires s i of None \<Rightarrow> False | Some x \<Rightarrow>
        taken x < length (outbox (site s i)) \<and> dict_has (gateways (centre s)) (port x))"

definition deployment_start :: "keys \<Rightarrow> (nat \<Rightarrow> int) \<Rightarrow> deployment" where
  "deployment_start ks now = \<lparr>centre = broker_init ks, site = (\<lambda>i. coap_init (now i)), wires = (\<lambda>_. None)\<rparr>"

section \<open>The broker's table and one event\<close>

fun concerns :: "broker_event \<Rightarrow> ws \<Rightarrow> bool" where
  "concerns (GatewayOpen w) v \<longleftrightarrow> v = w"
| "concerns (GatewayMessage w _) v \<longleftrightarrow> v = w"
| "concerns (GatewayClose w) v \<longleftrightarrow> v = w"
| "concerns _ v \<longleftrightarrow> False"

lemma gateway_gone:
  "gateways (snd (remove_ws (Gateway w) s)) = gateways s \<or> gateways (snd (remove_ws (Gateway w) s)) = dict_del (gateways s) w"
proof (cases "dict_get (gateways s) w")
  case None
  then show ?thesis by (simp add: remove_ws_def dict_has_def py_run)
next
  case (Some uids)
  let ?all = "for_each uids (\<lambda>u. broadcast (out_node u))"
  have "tables.upholds ?all" by (intro tables.upholds_rules tables_rules)
  then have all: "gateways (snd (?all s)) = gateways s" using tables.upholdsD [of ?all s] by (simp add: same_tables_def)
  obtain r t where rt: "?all s = (r, t)" by fastforce
  have "remove_ws (Gateway w) s = seq ?all (modify (\<lambda>s. s\<lparr>gateways := dict_del (gateways s) w\<rparr>)) s"
    using Some by (simp add: remove_ws_def dict_has_def gateway_nodes_run py_run)
  with rt all show ?thesis by (cases r) (simp_all add: seq_run modify_def)
qed

lemma broker_step_table:
  assumes "broker_ok b" and "\<not> concerns e w"
  shows "dict_get (gateways (snd (broker_handle fl e b))) w = dict_get (gateways b) w"
proof (cases e)
  case (GatewayMessage v raw)
  have "dict_get (gateways (snd (on_gateway_message v m b))) w = dict_get (gateways b) w" for m
    using confined.upholdsD [OF confined_gateway_message, of v m b] assms(2) GatewayMessage by (simp add: confined_def)
  with GatewayMessage show ?thesis
    by (auto simp: gateway_on_message_def close_ws_def py_run split: sum.split option.split)
next
  case (GatewayClose v)
  have "dict_ok (gateways b)" using assms(1) by (simp add: broker_ok_def)
  then show ?thesis
    using gateway_gone [of v "b\<lparr>up := (up b)(v := False)\<rparr>"] assms(2) GatewayClose
    by (auto simp: gateway_on_close_def set_up_def py_run dict.get_del)
qed (use assms client_event_run [OF assms(1), of e fl] in
  \<open>auto simp: set_up_def gateway_open_def py_run dict_get_put\<close>)

lemma closed_table:
  assumes "broker_ok b" and "dict_get (gateways (snd (broker_handle fl (GatewayClose w) b))) w = Some uids"
  shows "dict_get (gateways b) w = Some uids"
proof -
  have "dict_ok (gateways b)" using assms(1) by (simp add: broker_ok_def)
  then show ?thesis
    using assms(2) gateway_gone [of w "b\<lparr>up := (up b)(w := False)\<rparr>"]
    by (auto simp: gateway_on_close_def set_up_def py_run dict.get_del)
qed

section \<open>The broker's table and one text\<close>

lemma delivered_table: "gateways (snd (deliver m b)) = gateways b" "gateways (snd (broadcast x b)) = gateways b"
  using tables.upholdsD [OF tables_deliver] tables.upholdsD [OF tables_broadcast] by (simp_all add: same_tables_def)

lemma new_table:
  assumes "dict_get (gateways b) w = Some uids" and "dict_get kvs ''type'' = Some (JStr ''new'')"
    and "dict_get kvs ''uid'' = Some (JStr n)"
  shows "dict_get (gateways (snd (on_gateway_message w (JObj kvs) b))) w =
    Some (if py_in (JStr n) uids then uids else uids @ [JStr n])"
  using assms
  by (simp add: on_gateway_message_def py_getitem_def gateway_nodes_run set_gateway_nodes_def bind_gets
      bind_run seq_run modify_def ret_run delivered_table dict_get_put)

lemma out_table:
  assumes "dict_get (gateways b) w = Some uids" and "dict_get kvs ''type'' = Some (JStr ''out'')"
    and "dict_get kvs ''uid'' = Some (JStr n)"
  shows "dict_get (gateways (snd (on_gateway_message w (JObj kvs) b))) w =
    Some (if py_in (JStr n) uids then remove_first (JStr n) uids else uids)"
  using assms
  by (simp add: on_gateway_message_def py_getitem_def gateway_nodes_run uid_behind_run py_remove_def set_gateway_nodes_def
      in_text_def bind_run seq_run modify_def ret_run delivered_table dict_get_put)

lemma other_table:
  assumes "dict_get (gateways b) w = Some uids" and "dict_get kvs ''type'' = Some (JStr t)"
    and "t = ''update'' \<or> t = ''reset''" and "dict_get kvs ''uid'' = Some u"
  shows "dict_get (gateways (snd (on_gateway_message w (JObj kvs) b))) w = Some uids"
  using assms
  by (auto simp: on_gateway_message_def py_getitem_def uid_behind_run in_text_def bind_run seq_run ret_run delivered_table)

text \<open>The uids that the broker keeps for a gateway, as a set of strings.\<close>

definition strings :: "string set \<Rightarrow> json set" where "strings S = JStr ` S"

lemma strings_simps [simp]:
  "JStr n \<in> strings S \<longleftrightarrow> n \<in> S" "strings {} = {}" "strings (insert n S) = insert (JStr n) (strings S)"
  "strings S = strings T \<longleftrightarrow> S = T"
  by (auto simp: strings_def inj_image_eq_iff inj_on_def)

lemma canon_strings: "canon ` strings S = strings S"
  by (simp add: strings_def image_image)

lemma py_in_strings: "set uids = strings S \<Longrightarrow> py_in (JStr n) uids \<longleftrightarrow> n \<in> S"
  by (simp add: py_in_iff canon_strings)

lemma remove_first_strings:
  assumes "pairwise_distinct uids" and "set uids = strings S"
  shows "set (remove_first (JStr n) uids) = strings (S - {n})"
proof -
  have sub: "set (remove_first (JStr n) uids) \<subseteq> strings S" using set_remove_first assms(2) by metis
  then have "canon ` set (remove_first (JStr n) uids) = set (remove_first (JStr n) uids)"
    by (force simp: strings_def)
  then have "set (remove_first (JStr n) uids) = strings S - {JStr n}"
    using canon_remove_first [OF assms(1), of "JStr n"] by (simp add: assms(2) canon_strings)
  then show ?thesis by (auto simp: strings_def)
qed

lemma relay_table:
  assumes ok: "broker_ok b" and w: "dict_get (gateways b) w = Some uids" and S: "set uids = strings S"
    and m: "proper_text fl m"
  shows "\<exists>us. dict_get (gateways (relay_at w fl m b)) w = Some us \<and> set us = strings (enrol fl m S)"
proof -
  note relayed = relay_at_text [where w = w and b = b]
  have valid: "valid_message (JObj ((''type'', JStr t) # (''uid'', u) # kvs))" if "t \<in> set message_types" for t u kvs
    using that by (simp add: valid_message_def message_types_def)
  show ?thesis
    using m
  proof cases
    case proper_sound
    then show ?thesis
    proof cases
      case (sound_new dst n)
      then show ?thesis
        using new_table [OF w, of "[(''type'', JStr ''new''), (''uid'', JStr n), (''dst'', dst)]" n] S py_in_strings [OF S, of n]
        by (auto simp: new_node_def relayed valid message_types_def enrol_simps(1) [unfolded new_node_def] insert_absorb)
    next
      case (sound_update k v dst n)
      then show ?thesis
        using other_table [OF w, of "[(''type'', JStr ''update''), (''uid'', JStr n), (''endpoint'', k), (''data'', v), (''dst'', dst)]"] S
        by (simp add: update_node_def relayed valid message_types_def enrol_simps(2) [unfolded update_node_def])
    next
      case (sound_out n)
      then show ?thesis
        using out_table [OF w, of "[(''type'', JStr ''out''), (''uid'', JStr n)]" n] S py_in_strings [OF S, of n]
          remove_first_strings [OF broker_ok_nodes(1) [OF ok w] S, of n]
        by (auto simp: out_node_def relayed valid message_types_def enrol_simps(3) [unfolded out_node_def])
    next
      case sound_alive
      then show ?thesis
        using other_table [OF w, of "[(''type'', JStr ''update''), (''uid'', JStr ''alive'')]"] S
        by (simp add: gateway_alive_def relayed valid message_types_def enrol_simps(5) [unfolded gateway_alive_def])
    qed
  next
    case (proper_reset n)
    then show ?thesis
      using other_table [OF w, of "[(''type'', JStr ''reset''), (''uid'', JStr n)]"] S
      by (simp add: reset_node_msg_def relayed valid message_types_def enrol_simps(4) [unfolded reset_node_msg_def])
  qed
qed

section \<open>The invariant\<close>

definition unread :: "coap_gateway \<Rightarrow> wire \<Rightarrow> string list" where
  "unread e x = drop (taken x) (outbox e)"

text \<open>
  What the broker has read from a connection and what is still on its way are together what the
  gateway has written; as long as the connection is open on both sides, the broker's list of the
  gateway's nodes, brought up to date by the texts on their way, is the gateway's cache.
\<close>

definition wire_ok :: "(string \<Rightarrow> string) \<Rightarrow> broker \<Rightarrow> coap_gateway \<Rightarrow> wire \<Rightarrow> bool" where
  "wire_ok fl b e x \<longleftrightarrow> taken x \<le> length (outbox e)
     \<and> (\<forall>uids. broker_link e = Some Open \<longrightarrow> dict_get (gateways b) (port x) = Some uids \<longrightarrow>
          (\<forall>m \<in> set (unread e x). proper_text fl m)
          \<and> (\<exists>S. set uids = strings S \<and> enrolled fl (unread e x) S = roster e))"

definition apart :: "(nat \<Rightarrow> wire option) \<Rightarrow> bool" where
  "apart ws \<longleftrightarrow> (\<forall>i j x y. ws i = Some x \<longrightarrow> ws j = Some y \<longrightarrow> port x = port y \<longrightarrow> i = j)"

definition deployment_ok :: "(string \<Rightarrow> string) \<Rightarrow> deployment \<Rightarrow> bool" where
  "deployment_ok fl s \<longleftrightarrow> broker_ok (centre s) \<and> (\<forall>i. coap_ok fl (site s i))
     \<and> apart (wires s) \<and> (\<forall>i x. wires s i = Some x \<longrightarrow> wire_ok fl (centre s) (site s i) x)"

text \<open>Only the making of a connection opens the link.\<close>

lemma link_keeps:
  "cache.upholds fl m \<Longrightarrow> state_preorder.upholds (\<lambda>s t. broker_link t = broker_link s) m"
  by (auto simp: state_preorder.upholds_def state_preorder_def cache.upholds_def grows_def same_connection_def)

interpretation linked: coap_observer "\<lambda>s t. broker_link t = broker_link s" fl
  by unfold_locales (auto intro!: link_keeps cache_keeps simp: send_alive_def)

lemma link_was_open:
  assumes "canonical_floats fl" and "coap_ok fl s" and "\<forall>u. ev \<noteq> Base (BrokerConnection (Inr u))"
    and "broker_link (snd (coap_handle fl rep enc ks opts ev s)) = Some Open"
  shows "broker_link s = Some Open"
proof -
  have quiet: "broker_link (snd (m s)) = broker_link s" if "cache.upholds fl m" for m :: "(coap_gateway, 'a) py"
    using linked.upholdsD [OF link_keeps [OF that]] by simp
  have "broker_link (snd (coap_handle fl rep enc ks opts ev s)) = broker_link s"
  proof (cases ev)
    case (Base b)
    show ?thesis
    proof (cases "\<exists>x. b = BrokerConnection x")
      case True
      then obtain e where "b = BrokerConnection (Inl e)" using assms(3) Base by (metis sum.exhaust)
      then show ?thesis
        by (auto simp: Base connection_made_def connect_outcome_def in_loop_def py_run split: sum.split)
    next
      case False
      then show ?thesis using linked.base_step [OF assms(1), of b enc ks rep s] assms(4) Base by simp
    qed
  next
    case (AlivePost addr bytes)
    have "cache.upholds fl (seq (alive_render_post rep opts addr bytes) (ret ()))"
      unfolding alive_render_post_def by (intro cache_rules cache_keeps)
    with AlivePost show ?thesis by (simp add: quiet)
  next
    case (ServerPost addr bytes)
    have "cache.upholds fl (seq (server_render_post addr bytes) (ret ()))"
      unfolding server_render_post_def by (intro cache_rules cache_keeps)
    with ServerPost show ?thesis by (simp add: quiet)
  next
    case (Outcome i outcome)
    have "broker_link (snd (resume task outcome t)) = broker_link t" if "dict_get (tasks s) i = Some task" for task t
    proof (rule linked.resume_step)
      show "task_ok fl task" using map_of_SomeD [OF that] assms(2) by (auto simp: coap_ok_def tasks_ok_def)
      show "broker_link (snd (forward_data_from_node (task_node task) k v t)) = broker_link t"
        if "json_ok fl k" "json_ok fl v" for k v
        by (rule linked.upholdsD [OF link_keeps [OF keeps_forward [OF that]]])
    qed
    then show ?thesis unfolding Outcome by (intro linked.outcome_step) blast
  next
    case Cleanup
    then show ?thesis using linked.upholdsD [OF linked.cleanup_step] by simp
  qed
  with assms(4) show ?thesis by simp
qed

section \<open>Every step keeps it\<close>

lemma wire_site:
  assumes "canonical_floats fl" and "coap_ok fl e" and "wire_ok fl b e x"
    and "\<forall>u. ev \<noteq> Base (BrokerConnection (Inr u))" and t: "t = snd (coap_handle fl rep enc ks opts ev e)"
  shows "wire_ok fl b t x"
proof -
  obtain ms where ms: "outbox t = outbox e @ ms" using talks_coap [OF assms(1,2)] t by blast
  then have long: "taken x \<le> length (outbox t)" using assms(3) by (simp add: wire_ok_def)
  have "(\<forall>m \<in> set (unread t x). proper_text fl m) \<and> (\<exists>S. set uids = strings S \<and> enrolled fl (unread t x) S = roster t)"
    if link: "broker_link t = Some Open" and uids: "dict_get (gateways b) (port x) = Some uids" for uids
  proof -
    have open_e: "broker_link e = Some Open" using link_was_open [OF assms(1,2,4)] link t by blast
    have "coap_ok fl e" by fact
    then have "gateway_ok fl e" and inv: "loop_ok e" by (simp_all add: coap_ok_def gateway_inv_def)
    have "rolls fl e t"
    proof (cases "\<exists>y. ev = Base (BrokerConnection y)")
      case True
      then obtain exc where "ev = Base (BrokerConnection (Inl exc))" using assms(4) by (metis sum.exhaust)
      then have "outbox t = outbox e" "nodes t = nodes e" "objects t = objects e" "fresh t = fresh e" "broker_link t = broker_link e"
        by (auto simp: t connection_made_def connect_outcome_def in_loop_def py_run split: sum.split)
      then show ?thesis by (rule rolls_same)
    next
      case False
      then show ?thesis using rolls_coap_handle [OF assms(1,2)] link t by blast
    qed
    with \<open>gateway_ok fl e\<close> open_e obtain ns where ns: "outbox t = outbox e @ ns" "\<forall>m \<in> set ns. proper_text fl m"
        "enrolled fl ns (roster e) = roster t"
      by (auto simp: rolls_def)
    have "unread t x = unread e x @ ns" using ns(1) assms(3) by (simp add: unread_def wire_ok_def)
    with assms(3) open_e uids ns(2,3) show ?thesis by (auto simp: wire_ok_def)
  qed
  with long show ?thesis by (simp add: wire_ok_def)
qed

lemma wire_given [simp]: "wire_ok fl b e (x\<lparr>given := n\<rparr>) = wire_ok fl b e x"
  by (simp add: wire_ok_def unread_def)

lemma wire_table:
  assumes "wire_ok fl b e x" and "dict_get (gateways b') (port x) \<in> {None, dict_get (gateways b) (port x)}"
  shows "wire_ok fl b' e x"
  using assms by (auto simp: wire_ok_def)

lemma wire_foreign:
  assumes "broker_ok b" and "wire_ok fl b e x" and "concerns ev (port x) \<Longrightarrow> ev = GatewayClose (port x)"
  shows "wire_ok fl (snd (broker_handle fl ev b)) e x"
proof (rule wire_table [OF assms(2)], cases "concerns ev (port x)")
  case True
  then have "ev = GatewayClose (port x)" by (rule assms(3))
  then show "dict_get (gateways (snd (broker_handle fl ev b))) (port x) \<in> {None, dict_get (gateways b) (port x)}"
    using closed_table [OF assms(1), of fl "port x"] by (metis insert_iff not_None_eq)
next
  case False
  then show "dict_get (gateways (snd (broker_handle fl ev b))) (port x) \<in> {None, dict_get (gateways b) (port x)}"
    using broker_step_table [OF assms(1)] by simp
qed

lemma wire_ascend:
  assumes "broker_ok b" and "wire_ok fl b e x" and "taken x < length (outbox e)"
    and "dict_has (gateways b) (port x)"
  shows "wire_ok fl (relay_at (port x) fl (outbox e ! taken x) b) e (x\<lparr>taken := Suc (taken x)\<rparr>)"
proof -
  let ?m = "outbox e ! taken x"
  have next_text: "unread e x = ?m # unread e (x\<lparr>taken := Suc (taken x)\<rparr>)"
    using assms(3) by (simp add: unread_def Cons_nth_drop_Suc)
  obtain uids where w: "dict_get (gateways b) (port x) = Some uids" using assms(4) by (auto simp: dict_has_def)
  show ?thesis
  proof (cases "broker_link e = Some Open")
    case True
    with assms(2) w obtain S where S: "set uids = strings S" "enrolled fl (unread e x) S = roster e"
      and m: "\<forall>m \<in> set (unread e x). proper_text fl m" by (auto simp: wire_ok_def)
    have "proper_text fl ?m" using m next_text by simp
    from relay_table [OF assms(1) w S(1) this]
    obtain us where "dict_get (gateways (relay_at (port x) fl ?m b)) (port x) = Some us" "set us = strings (enrol fl ?m S)"
      by blast
    with S(2) m next_text assms(3) show ?thesis by (auto simp: wire_ok_def)
  qed (use assms(3) in \<open>simp add: wire_ok_def\<close>)
qed

text \<open>Another gateway's text leaves the wire alone; a new connection starts it afresh.\<close>

lemma wire_other:
  assumes "broker_ok b" and "wire_ok fl b e x" and "port x \<noteq> w"
  shows "wire_ok fl (snd (broker_handle fl (GatewayMessage w raw) b)) e x"
    and "wire_ok fl (snd (broker_handle fl (GatewayOpen w) b)) e x"
  using assms by (intro wire_foreign; simp)+

lemma wire_join:
  assumes "coap_ok fl e" and "connect_outcome enc ks (Inr ()) = Inr ()"
    and e': "e' = snd (coap_handle fl rep enc ks opts (Base (BrokerConnection (Inr ()))) e)"
    and b': "b' = snd (broker_handle fl (GatewayOpen w) b)"
  shows "wire_ok fl b' e' \<lparr>port = w, taken = length (outbox e), given = n\<rparr>"
proof -
  have "gateway_ok fl e" using assms(1) by (simp add: coap_ok_def gateway_inv_def)
  from connected_roster [OF this assms(2), of e' "{}"] e'
  have "nodes e' = nodes e" "outbox e' = outbox e @ told_to dst_all e"
    "\<forall>m \<in> set (told_to dst_all e). proper_text fl m" "enrolled fl (told_to dst_all e) {} = roster e"
    by simp_all
  moreover have "dict_get (gateways b') w = Some []"
    by (simp add: b' set_up_def gateway_open_def py_run dict_get_put)
  ultimately show ?thesis by (auto simp: wire_ok_def unread_def roster_def intro: exI [of _ "{}"])
qed

lemma apart_same: "apart ws \<Longrightarrow> ws i = Some x \<Longrightarrow> port y = port x \<Longrightarrow> apart (ws(i \<mapsto> y))"
  unfolding apart_def by (metis fun_upd_apply option.inject)

lemma apart_new: "apart ws \<Longrightarrow> (\<forall>j x. ws j = Some x \<longrightarrow> port x \<noteq> port y) \<Longrightarrow> apart (ws(i \<mapsto> y))"
  unfolding apart_def by (metis fun_upd_apply option.inject)

lemma deployment_okD:
  assumes "deployment_ok fl s"
  shows "broker_ok (centre s)" "coap_ok fl (site s i)" "apart (wires s)"
    "wires s i = Some x \<Longrightarrow> wire_ok fl (centre s) (site s i) x"
    "wires s i = Some x \<Longrightarrow> wires s j = Some y \<Longrightarrow> i \<noteq> j \<Longrightarrow> port x \<noteq> port y"
  using assms unfolding deployment_ok_def apart_def by blast+

lemma deployment_okI:
  assumes "broker_ok (centre s)" and "\<And>i. coap_ok fl (site s i)" and "apart (wires s)"
    and "\<And>i x. wires s i = Some x \<Longrightarrow> wire_ok fl (centre s) (site s i) x"
  shows "deployment_ok fl s"
  using assms unfolding deployment_ok_def by blast

lemma admitted_outcome: "admitted c i b \<Longrightarrow> connect_outcome (encrypt c) (keyring c i) (Inr ()) = Inr ()"
  by (auto simp: admitted_def connect_outcome_def)

lemma site_step:
  assumes "canonical_floats (floats c)" and ok: "deployment_ok (floats c) s"
    and "\<forall>u. e \<noteq> Base (BrokerConnection (Inr u))" and "coap_enabled e (site s i)"
  shows "deployment_ok (floats c) (s\<lparr>site := (site s)(i := snd (site_handle c i e (site s i)))\<rparr>)"
proof -
  have site: "coap_ok (floats c) (snd (site_handle c i e (site s i)))"
    unfolding site_handle_def by (rule coap_ok_handle [OF assms(1) deployment_okD(2) [OF ok] assms(4)])
  have wire: "wire_ok (floats c) (centre s) (snd (site_handle c i e (site s i))) x" if "wires s i = Some x" for x
    unfolding site_handle_def
    by (rule wire_site [OF assms(1) deployment_okD(2) [OF ok] deployment_okD(4) [OF ok that] assms(3) refl])
  show ?thesis
    by (rule deployment_okI) (use deployment_okD(1-4) [OF ok] site wire in auto)
qed

lemma wires_given:
  assumes ok: "deployment_ok fl s" and "wires s i = Some x"
  shows "deployment_ok fl (s\<lparr>wires := (wires s)(i \<mapsto> x\<lparr>given := n\<rparr>)\<rparr>)"
proof (rule deployment_okI)
  show "wire_ok fl (centre (s\<lparr>wires := (wires s)(i \<mapsto> x\<lparr>given := n\<rparr>)\<rparr>)) (site (s\<lparr>wires := (wires s)(i \<mapsto> x\<lparr>given := n\<rparr>)\<rparr>) j) y"
    if "wires (s\<lparr>wires := (wires s)(i \<mapsto> x\<lparr>given := n\<rparr>)\<rparr>) j = Some y" for j y
    using that deployment_okD(4) [OF ok] assms(2) by (auto split: if_splits)
qed (use deployment_okD(1-3) [OF ok] apart_same [of "wires s" i x] assms(2) in simp_all)

lemma join_step:
  assumes ok: "deployment_ok (floats c) s" and fl: "canonical_floats (floats c)" and en: "deployment_enabled c (Join i w) s"
  shows "deployment_ok (floats c) (snd (deployment_handle c (Join i w) s))"
proof -
  define e where "e = snd (site_handle c i (Base (BrokerConnection (Inr ()))) (site s i))"
  define b where "b = snd (broker_handle (floats c) (GatewayOpen w) (centre s))"
  define y where "y = \<lparr>port = w, taken = length (outbox (site s i)), given = length (texts_to w (centre s))\<rparr>"
  have step: "snd (deployment_handle c (Join i w) s) = \<lparr>centre = b, site = (site s)(i := e), wires = (wires s)(i \<mapsto> y)\<rparr>"
    unfolding b_def e_def y_def by (rule join_run)
  have free: "port x \<noteq> w" if "wires s j = Some x" for j x using en that by (auto simp: ports_def)
  have b: "broker_ok b"
    using broker_handle_keeps [OF deployment_okD(1) [OF ok], of "GatewayOpen w"] en by (simp add: b_def)
  have e: "coap_ok (floats c) e"
    unfolding e_def site_handle_def by (rule coap_ok_handle [OF fl deployment_okD(2) [OF ok]]) (use en in simp)
  have new: "wire_ok (floats c) b e y"
    unfolding y_def
    by (rule wire_join [OF deployment_okD(2) [OF ok]])
      (use en in \<open>auto simp: admitted_outcome e_def b_def site_handle_def simp del: broker_handle.simps coap_handle.simps\<close>)
  have old: "wire_ok (floats c) b (site s j) x" if "wires s j = Some x" for j x
    unfolding b_def by (rule wire_foreign [OF deployment_okD(1) [OF ok] deployment_okD(4) [OF ok that]]) (use free [OF that] in simp)
  show ?thesis
    unfolding step
    by (rule deployment_okI) (use b e new old free deployment_okD(2,3) [OF ok] apart_new [of "wires s" y i] in
        \<open>auto simp: y_def split: if_splits\<close>)
qed

lemma ascend_step:
  assumes ok: "deployment_ok (floats c) s" and en: "deployment_enabled c (Ascend i) s"
  shows "deployment_ok (floats c) (snd (deployment_handle c (Ascend i) s))"
proof -
  obtain x where x: "wires s i = Some x" "taken x < length (outbox (site s i))" "dict_has (gateways (centre s)) (port x)"
    using en by (auto split: option.splits)
  define b where "b = relay_at (port x) (floats c) (outbox (site s i) ! taken x) (centre s)"
  have step: "snd (deployment_handle c (Ascend i) s) = s\<lparr>centre := b, wires := (wires s)(i \<mapsto> x\<lparr>taken := Suc (taken x)\<rparr>)\<rparr>"
    unfolding b_def by (rule ascend_run [OF x(1)])
  have b: "broker_ok b"
    unfolding b_def relay_at_def by (rule broker_handle_keeps [OF deployment_okD(1) [OF ok]]) (use x(3) in simp)
  have mine: "wire_ok (floats c) b (site s i) (x\<lparr>taken := Suc (taken x)\<rparr>)"
    unfolding b_def by (rule wire_ascend [OF deployment_okD(1) [OF ok] deployment_okD(4) [OF ok x(1)] x(2,3)])
  have other: "wire_ok (floats c) b (site s j) y" if "wires s j = Some y" "j \<noteq> i" for j y
    unfolding b_def relay_at_def
    by (rule wire_foreign [OF deployment_okD(1) [OF ok] deployment_okD(4) [OF ok that(1)]])
      (use deployment_okD(5) [OF ok that(1) x(1) that(2)] in simp)
  show ?thesis
    unfolding step
    by (rule deployment_okI) (use b mine other deployment_okD(2,3) [OF ok] apart_same [of "wires s" i x] x(1) in
        \<open>auto split: if_splits\<close>)
qed

lemma deployment_step_ok:
  assumes fl: "canonical_floats (floats c)" and ok: "deployment_ok (floats c) s" and en: "deployment_enabled c e s"
  shows "deployment_ok (floats c) (snd (deployment_handle c e s))"
proof (cases e)
  case (Centre x)
  have "wire_ok (floats c) (snd (broker_handle (floats c) x (centre s))) (site s i) y" if "wires s i = Some y" for i y
  proof (rule wire_foreign [OF deployment_okD(1) [OF ok] deployment_okD(4) [OF ok that]])
    assume "concerns x (port y)"
    with en that Centre show "x = GatewayClose (port y)" by (cases x) (auto simp: ports_def)
  qed
  moreover have "broker_ok (snd (broker_handle (floats c) x (centre s)))"
    using broker_handle_keeps [OF deployment_okD(1) [OF ok]] en Centre by simp
  ultimately show ?thesis
    unfolding Centre by (intro deployment_okI) (use deployment_okD(2,3) [OF ok] in simp_all)
next
  case (Site i x)
  with en have "\<forall>u. x \<noteq> Base (BrokerConnection (Inr u))" by auto
  with Site site_step [OF fl ok, of x i] en show ?thesis by simp
next
  case (Join i w)
  with join_step [OF ok fl] en show ?thesis by simp
next
  case (Descend i)
  with en obtain x where x: "wires s i = Some x" "conn (site s i) = Reading" by (auto split: option.splits)
  from site_step [OF fl wires_given [OF ok x(1)], of "Base (BrokerMessage (texts_to (port x) (centre s) ! given x))" "Suc (given x)" i] x
  show ?thesis by (simp add: Descend bind_gets seq_modify)
next
  case (Ascend i)
  with ascend_step [OF ok] en show ?thesis by simp
qed

interpretation deployed: service "deployment_handle c" "deployment_enabled c" "deployment_start ks now"
  "\<lambda>s. canonical_floats (floats c) \<longrightarrow> deployment_ok (floats c) s"
proof unfold_locales
  have "coap_ok fl (coap_init n)" for fl n by (rule coap_ok_init)
  then show "canonical_floats (floats c) \<longrightarrow> deployment_ok (floats c) (deployment_start ks now)"
    using broker_service.start_good [of ks] by (auto simp: deployment_start_def deployment_ok_def apart_def)
qed (auto simp: deployment_step_ok)

section \<open>The broker's table follows the caches\<close>

lemma pairwise_distinct_distinct: "pairwise_distinct vs \<Longrightarrow> distinct vs"
  by (induction vs) (auto simp: py_in_iff)

lemma wire_tables:
  assumes "wire_ok fl b e x" and "broker_ok b" and "broker_link e = Some Open" and "dict_get (gateways b) (port x) = Some uids"
  shows "distinct uids \<and> (\<exists>S. set uids = JStr ` S \<and> enrolled fl (drop (taken x) (outbox e)) S = {u. dict_has (nodes e) u})
    \<and> (taken x = length (outbox e) \<longrightarrow> set uids = JStr ` {u. dict_has (nodes e) u})"
proof -
  have "roster e = {u. dict_has (nodes e) u}" by (auto simp: roster_def dict_has_iff)
  moreover obtain S where "set uids = strings S" "enrolled fl (unread e x) S = roster e"
    using assms(1,3,4) by (auto simp: wire_ok_def)
  moreover have "distinct uids" using broker_ok_nodes(1) [OF assms(2,4)] by (rule pairwise_distinct_distinct)
  ultimately show ?thesis by (auto simp: unread_def strings_def)
qed

text \<open>
  C2: The broker's table follows the caches: in every state that a broker and any number of CoAP
  gateways can reach, whatever nodes, clients and other gateways do and however often connections
  are lost and made again, as long as a gateway's newest connection is open on both sides the
  broker lists each of its nodes once, and its list, brought up to date by the gateway's texts that
  it has not read yet, is the gateway's cache; once it has read all, the list is the cache.
\<close>

theorem tables_follow_caches:
  assumes "canonical_floats (floats c)"
    and "reachable (deployment_handle c) (deployment_enabled c) (deployment_start ks now) s"
    and "wires s i = Some x" and "broker_link (site s i) = Some Open"
    and "dict_get (gateways (centre s)) (port x) = Some uids"
  shows "distinct uids
    \<and> (\<exists>S. set uids = JStr ` S
         \<and> enrolled (floats c) (drop (taken x) (outbox (site s i))) S = {u. dict_has (nodes (site s i)) u})
    \<and> (taken x = length (outbox (site s i)) \<longrightarrow> set uids = JStr ` {u. dict_has (nodes (site s i)) u})"
proof -
  have ok: "deployment_ok (floats c) s" using deployed.reachable_good [OF assms(2)] assms(1) by blast
  show ?thesis by (rule wire_tables [OF deployment_okD(4) [OF ok assms(3)] deployment_okD(1) [OF ok] assms(4,5)])
qed

definition demo_setting :: setting where
  "demo_setting = \<lparr>floats = keep_literal, printed = (\<lambda>_. []), encrypt = toy_enc, decrypt = toy_dec,
     keyring = (\<lambda>_. \<lparr>private_key = ''k'', secret_key = ''s''\<rparr>), options = (\<lambda>_. demo_options)\<rparr>"

definition demo_deployment :: deployment where
  "demo_deployment = deployment_start \<lparr>private_key = ''k'', secret_key = ''s''\<rparr> (\<lambda>_. 0)"

lemma demo_admitted: "broker_keys b = \<lparr>private_key = ''k'', secret_key = ''s''\<rparr> \<Longrightarrow> admitted demo_setting i b"
  by (simp add: admitted_def demo_setting_def auth_token_def toy_enc_def toy_dec_def gateway_get_def check_subprotocols_def
      verify_auth_token_def strip_def is_space_def token_char_def)

lemma first_connection:
  assumes "connect_outcome enc ks (Inr ()) = Inr ()"
  shows "connection_made enc ks (Inr ()) (coap_init n) =
    (Inr (), (coap_init n)\<lparr>broker_link := Some Open, alive_timer := True, conn := Reading\<rparr>)"
  using assms by (simp add: connection_made_def fetch_nodes_cache_def in_loop_def py_run coap_init_def gateway_init_def gateway.defs)

theorem tables_follow_caches_witness:
  "let s = run_events (deployment_handle demo_setting) demo_deployment [Join 0 1, Site 0 (AlivePost ''fd00::1'' ''alive:n1'')] in
     dict_get (gateways (centre s)) 1 = Some []
     \<and> enrolled keep_literal (outbox (site s 0)) {} = {u. dict_has (nodes (site s 0)) u} \<and> dict_has (nodes (site s 0)) ''n1''"
proof -
  let ?h = "deployment_handle demo_setting" and ?es = "[Join 0 1, Site 0 (AlivePost ''fd00::1'' ''alive:n1'')]"
  let ?ks = "\<lparr>private_key = ''k'', secret_key = ''s''\<rparr>"
  define e where "e = (coap_init 0)\<lparr>broker_link := Some Open, alive_timer := True, conn := Reading\<rparr>"
  define b where "b = snd (broker_handle keep_literal (GatewayOpen 1) (broker_init ?ks))"
  define d where "d = [(JStr ''ip'', JStr ''fd00::1''), (JStr ''protocol'', JStr coap_protocol)]"
  have conf: "floats demo_setting = keep_literal" "printed demo_setting = (\<lambda>_. [])" "options demo_setting 0 = demo_options"
    by (simp_all add: demo_setting_def)
  have adm: "admitted demo_setting 0 (broker_init ?ks)" by (rule demo_admitted) (simp add: broker_init_def)
  have joined: "snd (?h (Join 0 1) demo_deployment) =
      \<lparr>centre = b, site = (\<lambda>_. coap_init 0)(0 := e), wires = (\<lambda>_. None)(0 \<mapsto> \<lparr>port = 1, taken = 0, given = 0\<rparr>)\<rparr>"
    using first_connection [OF admitted_outcome [OF adm], of 0]
    unfolding join_run
    by (simp add: demo_deployment_def deployment_start_def site_handle_def conf b_def e_def texts_to_def broker_init_def
        coap_init_def gateway_init_def gateway.defs del: broker_handle.simps)
  have ok: "gateway_ok keep_literal e" "broker_link e = Some Open" "\<not> dict_has (node_mapping e) ''n1''"
    by (simp_all add: e_def gateway_ok_def coap_init_def gateway_init_def gateway.defs dict_has_def node_init_def)
  obtain w where w: "handle_coap_check (\<lambda>_. []) demo_options ''n1'' ''fd00::1'' False e = (Inr Suspended, w)"
      "nodes w = dict_put (nodes e) ''n1'' (fresh e)"
    using new_node_run [OF ok d_def, of "\<lambda>_. []" demo_options False] by blast
  have "grows keep_literal e w" using cache.upholdsD [OF keeps_check] w(1) by (metis snd_conv)
  then have link: "broker_link w = Some Open" using ok(2) by (simp add: grows_def same_connection_def)
  define s where "s = \<lparr>centre = b, site = (\<lambda>_. coap_init 0)(0 := w), wires = (\<lambda>_. None)(0 \<mapsto> \<lparr>port = 1, taken = 0, given = 0\<rparr>)\<rparr>"
  have run: "run_events ?h demo_deployment ?es = s"
    using w(1) joined
    by (simp add: alive_render_post_def decode_utf8_def byte_in_def starts_with_def site_handle_def conf py_run s_def
        del: deployment_handle.simps(3))
  have "run_enabled ?h (deployment_enabled demo_setting) demo_deployment ?es"
    using adm by (simp add: demo_deployment_def deployment_start_def ports_def coap_init_def gateway_init_def gateway.defs
        broker_init_def dict_has_def del: deployment_handle.simps)
  then have "reachable ?h (deployment_enabled demo_setting) demo_deployment s"
    using reachable_run [OF reach_start] run by metis
  moreover have g: "dict_get (gateways b) 1 = Some []"
    by (simp add: b_def set_up_def gateway_open_def py_run dict_get_put)
  ultimately have "distinct ([] :: json list) \<and> (\<exists>S. set [] = JStr ` S \<and> enrolled keep_literal (outbox w) S = {u. dict_has (nodes w) u})"
    using tables_follow_caches [of demo_setting ?ks "\<lambda>_. 0" s 0 "\<lparr>port = 1, taken = 0, given = 0\<rparr>" "[]"] link
    by (simp add: conf canonical_keep_literal demo_deployment_def s_def)
  then have "enrolled keep_literal (outbox w) {} = {u. dict_has (nodes w) u}" by auto
  then show ?thesis using g w(2) run by (simp add: Let_def s_def dict_has_def dict_get_put)
qed

end
