(* ===== verification/Deployment_Admission.thy ===== *)
theory Deployment_Admission
  imports Deployment
begin

text \<open>Who gets a connection to the broker: exactly the gateways whose token verifies under its keys.\<close>

definition holds_key :: "setting \<Rightarrow> nat \<Rightarrow> keys \<Rightarrow> bool" where
  "holds_key c i ks \<longleftrightarrow> (\<exists>tok. auth_token (encrypt c) (keyring c i) = Inr tok \<and> verify_auth_token (decrypt c) tok ks = Inr True)"

lemma admitted_iff:
  assumes "fernet_ok (encrypt c) (decrypt c)"
  shows "admitted c i b \<longleftrightarrow> holds_key c i (broker_keys b)"
proof -
  have "gateway_get (decrypt c) (broker_keys b) (Some (join_with '','' [''token'', tok])) = Inr Upgraded
      \<longleftrightarrow> verify_auth_token (decrypt c) tok (broker_keys b) = Inr True"
    if "auth_token (encrypt c) (keyring c i) = Inr tok" for tok
    using token_header [OF auth_token_verified(2) [OF assms that]] by (auto split: sum.splits if_splits)
  then show ?thesis by (auto simp: admitted_def holds_key_def)
qed

definition shut_out :: "keys \<Rightarrow> nat \<Rightarrow> deployment \<Rightarrow> bool" where
  "shut_out ks i s \<longleftrightarrow> broker_keys (centre s) = ks \<and> wires s i = None \<and> broker_link (site s i) \<noteq> Some Open"

lemma centre_keys: "broker_keys (centre (snd (deployment_handle c e s))) = broker_keys (centre s)"
proof (cases e)
  case (Join i w)
  then show ?thesis using broker_keys_fixed [of "floats c" "GatewayOpen w" "centre s"] unfolding Join join_run by simp
next
  case (Ascend i)
  then show ?thesis
    using broker_keys_fixed by (cases "wires s i") (simp_all add: bind_gets seq_modify ret_run del: broker_handle.simps)
next
  case (Descend i)
  then show ?thesis by (cases "wires s i") (simp_all add: bind_gets seq_modify ret_run)
qed (simp_all add: broker_keys_fixed)

lemma shut_out_step:
  assumes "canonical_floats (floats c)" and "fernet_ok (encrypt c) (decrypt c)" and "\<not> holds_key c i ks"
    and "deployment_ok (floats c) s" and "shut_out ks i s" and en: "deployment_enabled c e s"
  shows "shut_out ks i (snd (deployment_handle c e s))"
proof -
  let ?t = "snd (deployment_handle c e s)"
  have keys: "broker_keys (centre ?t) = ks" using assms(5) by (simp add: centre_keys shut_out_def del: deployment_handle.simps)
  have "wires ?t i = None \<and> broker_link (site ?t i) \<noteq> Some Open"
  proof (cases e)
    case (Site j x)
    have "\<forall>u. x \<noteq> Base (BrokerConnection (Inr u))" using en Site by auto
    from link_was_open [OF assms(1) deployment_okD(2) [OF assms(4), of j] this] Site assms(5) show ?thesis
      by (auto simp: shut_out_def site_handle_def)
  next
    case (Join j w)
    then have "j \<noteq> i" using en assms(3,5) admitted_iff [OF assms(2)] by (auto simp: shut_out_def)
    with assms(5) show ?thesis unfolding Join join_run by (simp add: shut_out_def)
  next
    case (Descend j)
    then have "j \<noteq> i" using en assms(5) by (auto simp: shut_out_def)
    with Descend assms(5) show ?thesis
      by (cases "wires s j") (simp_all add: shut_out_def bind_gets seq_modify ret_run)
  next
    case (Ascend j)
    then have "j \<noteq> i" using en assms(5) by (auto simp: shut_out_def)
    with Ascend assms(5) show ?thesis
      by (cases "wires s j") (simp_all add: shut_out_def bind_gets seq_modify ret_run del: broker_handle.simps)
  qed (use assms(5) in \<open>simp add: shut_out_def\<close>)
  with keys show ?thesis by (simp add: shut_out_def)
qed

text \<open>
  C35: Who does not hold the broker's keys never gets in: in every state that the deployment can reach
  a gateway whose token does not verify under the broker's keys has no connection and never had one,
  cannot be connected by any step, and neither side can read a text of the other.
\<close>

theorem only_key_holders_connect:
  assumes "canonical_floats (floats c)" and "fernet_ok (encrypt c) (decrypt c)"
    and "reachable (deployment_handle c) (deployment_enabled c) (deployment_start ks now) s"
    and "\<not> holds_key c i ks"
  shows "wires s i = None \<and> broker_link (site s i) \<noteq> Some Open
    \<and> \<not> deployment_enabled c (Join i w) s \<and> \<not> deployment_enabled c (Ascend i) s \<and> \<not> deployment_enabled c (Descend i) s"
proof -
  have "deployment_ok (floats c) s \<and> shut_out ks i s"
    using assms(3)
  proof (induction rule: reachable.induct)
    case reach_start
    then show ?case
      using deployed.start_good [of c ks now] assms(1)
      by (simp add: shut_out_def deployment_start_def broker_init_def coap_init_def gateway_init_def gateway.defs)
  next
    case (reach_step s e)
    then show ?case
      using deployment_step_ok [OF assms(1)] shut_out_step [OF assms(1,2,4)] by blast
  qed
  then show ?thesis using admitted_iff [OF assms(2), of i "centre s"] assms(4) by (simp add: shut_out_def)
qed

text \<open>A gateway with the broker's keys, and one with another secret.\<close>

definition intruder_setting :: setting where
  "intruder_setting = demo_setting\<lparr>keyring := (\<lambda>i. \<lparr>private_key = ''k'', secret_key = if i = 0 then ''s'' else ''x''\<rparr>)\<rparr>"

theorem only_key_holders_connect_witness:
  "let s = run_events (deployment_handle intruder_setting) demo_deployment [Join 0 1] in
     wires s 0 \<noteq> None \<and> wires s 1 = None \<and> \<not> deployment_enabled intruder_setting (Join 1 2) s"
proof -
  let ?h = "deployment_handle intruder_setting" and ?ks = "\<lparr>private_key = ''k'', secret_key = ''s''\<rparr>"
  define s where "s = run_events ?h demo_deployment [Join 0 1]"
  have c: "floats intruder_setting = keep_literal" "fernet_ok (encrypt intruder_setting) (decrypt intruder_setting)"
    using fernet_ok_toy by (simp_all add: intruder_setting_def demo_setting_def)
  have out: "\<not> holds_key intruder_setting 1 ?ks" and inside: "holds_key intruder_setting 0 ?ks"
    by (auto simp: holds_key_def intruder_setting_def demo_setting_def auth_token_def toy_enc_def toy_dec_def verify_auth_token_def
        token_char_def is_space_def)
  have "run_enabled ?h (deployment_enabled intruder_setting) demo_deployment [Join 0 1]"
    using inside by (simp add: admitted_iff [OF c(2)] demo_deployment_def deployment_start_def ports_def coap_init_def
        gateway_init_def gateway.defs broker_init_def dict_has_def)
  then have "reachable ?h (deployment_enabled intruder_setting) (deployment_start ?ks (\<lambda>_. 0)) s"
    unfolding s_def demo_deployment_def by (rule reachable_run [OF reach_start])
  from only_key_holders_connect [OF _ c(2) this out, of 2] c(1)
  have "wires s 1 = None" "\<not> deployment_enabled intruder_setting (Join 1 2) s" by (simp_all add: canonical_keep_literal)
  moreover have "wires s 0 \<noteq> None" by (simp add: s_def join_run del: deployment_handle.simps)
  ultimately show ?thesis by (simp add: s_def Let_def del: deployment_enabled.simps deployment_handle.simps)
qed

end
