(* ===== verification/Deployment_Recovery.thy ===== *)
theory Deployment_Recovery
  imports Deployment
begin

text \<open>
  A connection that is lost is made again: what the broker and the clients know afterwards, and
  what goes wrong when the broker notices the loss after the gateway has come back.
\<close>

section \<open>A whole cache through the broker\<close>

definition attends :: "ws \<Rightarrow> string \<Rightarrow> ws \<Rightarrow> broker \<Rightarrow> bool" where
  "attends c d w b \<longleftrightarrow> broker_ok b \<and> clients_up b \<and> dict_get (clients b) (JStr d) = Some c
     \<and> dict_get (gateways b) w \<noteq> None"

definition listed :: "ws \<Rightarrow> string \<Rightarrow> broker \<Rightarrow> bool" where
  "listed w n b \<longleftrightarrow> (\<exists>uids. dict_get (gateways b) w = Some uids \<and> py_in (JStr n) uids)"

lemma relay_at_keeps:
  assumes "broker_ok b" and "dict_has (gateways b) w"
  shows "broker_ok (relay_at w fl m b) \<and> dict_has (gateways (relay_at w fl m b)) w"
proof -
  have "broker_ok (relay_at w fl m b)"
    unfolding relay_at_def by (rule broker_handle_keeps [OF assms(1)]) (use assms(2) in simp)
  moreover have "map fst (gateways (relay_at w fl m b)) = map fst (gateways b)"
    using gateway_text_relayed [OF assms(1) relay_at_def] by blast
  then have "fst ` set (gateways (relay_at w fl m b)) = fst ` set (gateways b)" by (metis set_map)
  ultimately show ?thesis using assms(2) by (simp add: dict_has_iff)
qed

lemma relay_new_all:
  assumes "attends c d w b"
  shows "attends c d w (relay_at w fl (new_node (JStr n) dst_all) b) \<and> listed w n (relay_at w fl (new_node (JStr n) dst_all) b)
    \<and> clients (relay_at w fl (new_node (JStr n) dst_all) b) = clients b
    \<and> texts_to c (relay_at w fl (new_node (JStr n) dst_all) b) = texts_to c b @ [new_node (JStr n) dst_all]"
proof -
  let ?kvs = "[(''type'', JStr ''new''), (''uid'', JStr n), (''dst'', dst_all)]"
  let ?b = "relay_at w fl (new_node (JStr n) dst_all) b"
  obtain uids where w: "dict_get (gateways b) w = Some uids"
    and ok: "broker_ok b" "clients_up b" "dict_get (clients b) (JStr d) = Some c"
    using assms by (auto simp: attends_def)
  define us where "us = (if py_in (JStr n) uids then uids else uids @ [JStr n])"
  have "?b = snd (on_gateway_message w (JObj ?kvs) b)"
    unfolding new_node_def by (rule relay_at_text) (simp_all add: valid_message_def message_types_def)
  with new_effect [OF ok(1,2) w refl us_def] have t: "?b =
      (if py_in (JStr n) uids then b else b\<lparr>gateways := dict_put (gateways b) w us\<rparr>)
        \<lparr>sent := sent b @ map (\<lambda>r. (r, new_node (JStr n) dst_all)) (targets b dst_all)\<rparr>"
    by (simp add: new_node_def)
  have "broker_ok ?b" using relay_at_keeps [OF ok(1)] w by (simp add: dict_has_def)
  moreover have "sent ?b = sent b @ map (\<lambda>r. (r, new_node (JStr n) dst_all)) (targets b dst_all)" unfolding t by simp
  from texts_to_targets [OF ok(1,3) this] have "texts_to c ?b = texts_to c b @ [new_node (JStr n) dst_all]" by simp
  moreover have "dict_get (gateways ?b) w = Some us" "clients ?b = clients b" "up ?b = up b"
    unfolding t using w by (simp_all add: us_def dict_get_put)
  moreover have "py_in (JStr n) us" by (simp add: us_def py_in_iff)
  ultimately show ?thesis using ok by (auto simp: attends_def listed_def clients_up_def)
qed

lemma relay_update_all:
  assumes "attends c d w b" and "listed w n b" and "json_ok fl k" and "json_ok fl v"
  shows "attends c d w (relay_at w fl (update_node (JStr n) k v dst_all) b) \<and> listed w n (relay_at w fl (update_node (JStr n) k v dst_all) b)
    \<and> clients (relay_at w fl (update_node (JStr n) k v dst_all) b) = clients b
    \<and> texts_to c (relay_at w fl (update_node (JStr n) k v dst_all) b) = texts_to c b @ [update_node (JStr n) k v dst_all]"
proof -
  let ?kvs = "[(''type'', JStr ''update''), (''uid'', JStr n), (''endpoint'', k), (''data'', v), (''dst'', dst_all)]"
  let ?b = "relay_at w fl (update_node (JStr n) k v dst_all) b"
  obtain uids where w: "dict_get (gateways b) w = Some uids" "py_in (JStr n) uids"
    and ok: "broker_ok b" "clients_up b" "dict_get (clients b) (JStr d) = Some c"
    using assms(1,2) by (auto simp: attends_def listed_def)
  have "?b = snd (on_gateway_message w (JObj ?kvs) b)"
    unfolding update_node_def by (rule relay_at_text) (use assms(3,4) in \<open>simp_all add: valid_message_def message_types_def\<close>)
  with update_effect [OF ok(1,2) w(1) refl] w(2) have t: "?b =
      b\<lparr>sent := sent b @ map (\<lambda>r. (r, update_node (JStr n) k v dst_all)) (targets b dst_all)\<rparr>"
    by (simp add: update_node_def)
  have "broker_ok ?b" using relay_at_keeps [OF ok(1)] w by (simp add: dict_has_def)
  moreover have "sent ?b = sent b @ map (\<lambda>r. (r, update_node (JStr n) k v dst_all)) (targets b dst_all)" unfolding t by simp
  from texts_to_targets [OF ok(1,3) this] have "texts_to c ?b = texts_to c b @ [update_node (JStr n) k v dst_all]" by simp
  moreover have "gateways ?b = gateways b" "clients ?b = clients b" "up ?b = up b" unfolding t by simp_all
  ultimately show ?thesis using ok w by (auto simp: attends_def listed_def clients_up_def)
qed

lemma relay_cached_all:
  assumes "attends c d w b" and "resources_ok fl (resources a)"
  shows "attends c d w (fold (relay_at w fl) (cache_texts dst_all a) b)
    \<and> clients (fold (relay_at w fl) (cache_texts dst_all a) b) = clients b
    \<and> texts_to c (fold (relay_at w fl) (cache_texts dst_all a) b) = texts_to c b @ cache_texts dst_all a"
proof -
  have updates: "attends c d w (fold (relay_at w fl) (update_texts dst_all (uid a) ps) b)
      \<and> clients (fold (relay_at w fl) (update_texts dst_all (uid a) ps) b) = clients b
      \<and> texts_to c (fold (relay_at w fl) (update_texts dst_all (uid a) ps) b) = texts_to c b @ update_texts dst_all (uid a) ps"
    if "attends c d w b" "listed w (uid a) b" "resources_ok fl ps" for ps b
    using that
  proof (induction ps arbitrary: b)
    case (Cons p ps)
    obtain k v where p: "p = (k, v)" by fastforce
    let ?b = "relay_at w fl (update_node (JStr (uid a)) k v dst_all) b"
    have "json_ok fl k" "json_ok fl v" "resources_ok fl ps" using Cons.prems(3) by (simp_all add: p)
    with relay_update_all [OF Cons.prems(1,2)] Cons.IH [of ?b] show ?case by (simp add: update_texts_def p)
  qed (simp add: update_texts_def)
  show ?thesis
    using relay_new_all [OF assms(1), of fl "uid a"] updates [OF _ _ assms(2)] by (simp add: cache_texts_def)
qed

lemma relay_told_all:
  assumes "attends c d w b" and "\<And>a. a \<in> set as \<Longrightarrow> resources_ok fl (resources a)"
  shows "attends c d w (fold (relay_at w fl) (concat (map (cache_texts dst_all) as)) b)
    \<and> clients (fold (relay_at w fl) (concat (map (cache_texts dst_all) as)) b) = clients b
    \<and> texts_to c (fold (relay_at w fl) (concat (map (cache_texts dst_all) as)) b) = texts_to c b @ concat (map (cache_texts dst_all) as)"
  using assms
proof (induction as arbitrary: b)
  case (Cons a as)
  then show ?case using relay_cached_all [OF Cons.prems(1), of fl a] by simp
qed simp

section \<open>The schedule\<close>

lemma ascends_run:
  assumes "wires s i = Some x" and "outbox (site s i) = pre @ ms" and "taken x = length pre"
    and "broker_ok (centre s)" and "dict_has (gateways (centre s)) (port x)"
  shows "run_events (deployment_handle c) s (replicate (length ms) (Ascend i)) =
      s\<lparr>centre := fold (relay_at (port x) (floats c)) ms (centre s), wires := (wires s)(i \<mapsto> x\<lparr>taken := taken x + length ms\<rparr>)\<rparr>
    \<and> run_enabled (deployment_handle c) (deployment_enabled c) s (replicate (length ms) (Ascend i))"
  using assms
proof (induction ms arbitrary: s x pre)
  case Nil
  then show ?case by (simp add: fun_upd_idem)
next
  case (Cons m ms)
  let ?x = "x\<lparr>taken := Suc (taken x)\<rparr>" and ?b = "relay_at (port x) (floats c) m (centre s)"
  let ?s = "s\<lparr>centre := ?b, wires := (wires s)(i \<mapsto> ?x)\<rparr>"
  have step: "snd (deployment_handle c (Ascend i) s) = ?s"
    using ascend_run [where s = s, OF Cons.prems(1)] Cons.prems(2,3) by (simp del: deployment_handle.simps)
  have "run_events (deployment_handle c) ?s (replicate (length ms) (Ascend i)) =
      ?s\<lparr>centre := fold (relay_at (port ?x) (floats c)) ms (centre ?s), wires := (wires ?s)(i \<mapsto> ?x\<lparr>taken := taken ?x + length ms\<rparr>)\<rparr>
    \<and> run_enabled (deployment_handle c) (deployment_enabled c) ?s (replicate (length ms) (Ascend i))"
    by (rule Cons.IH [of ?s ?x "pre @ [m]"])
      (use Cons.prems relay_at_keeps [OF Cons.prems(4,5), of "floats c" m] in simp_all)
  then have rest: "run_events (deployment_handle c) ?s (replicate (length ms) (Ascend i)) =
      s\<lparr>centre := fold (relay_at (port x) (floats c)) (m # ms) (centre s), wires := (wires s)(i \<mapsto> x\<lparr>taken := taken x + length (m # ms)\<rparr>)\<rparr>"
    "run_enabled (deployment_handle c) (deployment_enabled c) ?s (replicate (length ms) (Ascend i))"
    by simp_all
  have "deployment_enabled c (Ascend i) s" using Cons.prems(1,2,3,5) by simp
  with rest(2) show ?case
    by (simp only: length_Cons replicate_Suc run_events.simps run_enabled.simps step rest(1) simp_thms)
qed

lemma deployment_run_ok:
  assumes "canonical_floats (floats c)" and "deployment_ok (floats c) s"
    and "run_enabled (deployment_handle c) (deployment_enabled c) s es"
  shows "deployment_ok (floats c) (run_events (deployment_handle c) s es)"
  using assms(2,3) by (induction es arbitrary: s) (auto intro: deployment_step_ok [OF assms(1)])

text \<open>The gateway joins and the broker reads all it has to say.\<close>

definition rejoin :: "deployment \<Rightarrow> nat \<Rightarrow> ws \<Rightarrow> deployment_event list" where
  "rejoin s i w = Join i w # replicate (length (told_to dst_all (site s i))) (Ascend i)"

lemma rejoin_run:
  assumes fl: "canonical_floats (floats c)" and ok: "deployment_ok (floats c) s" and en: "deployment_enabled c (Join i w) s"
    and t: "t = run_events (deployment_handle c) s (rejoin s i w)"
  shows "run_enabled (deployment_handle c) (deployment_enabled c) s (rejoin s i w)
    \<and> site t = (site s)(i := site t i) \<and> cached (site t i) = cached (site s i) \<and> nodes (site t i) = nodes (site s i)
    \<and> conn (site t i) = Reading \<and> broker_link (site t i) = Some Open
    \<and> (\<exists>x. wires t = (wires s)(i \<mapsto> x) \<and> port x = w \<and> taken x = length (outbox (site t i)))
    \<and> centre t = fold (relay_at w (floats c)) (told_to dst_all (site s i)) (snd (broker_handle (floats c) (GatewayOpen w) (centre s)))"
proof -
  let ?h = "deployment_handle c" and ?e = "site s i" and ?ms = "told_to dst_all (site s i)"
  define e where "e = snd (site_handle c i (Base (BrokerConnection (Inr ()))) ?e)"
  define b where "b = snd (broker_handle (floats c) (GatewayOpen w) (centre s))"
  define x where "x = \<lparr>port = w, taken = length (outbox ?e), given = length (texts_to w (centre s))\<rparr>"
  define s1 where "s1 = \<lparr>centre = b, site = (site s)(i := e), wires = (wires s)(i \<mapsto> x)\<rparr>"
  have step: "snd (?h (Join i w) s) = s1" unfolding s1_def b_def e_def x_def by (rule join_run)
  have "gateway_ok (floats c) ?e" using deployment_okD(2) [OF ok] by (simp add: coap_ok_def gateway_inv_def)
  from connected_roster [OF this admitted_outcome, of c i "centre s" e] en
  have e: "broker_link e = Some Open" "conn e = Reading" "cached e = cached ?e" "nodes e = nodes ?e" "outbox e = outbox ?e @ ?ms"
    by (simp_all add: e_def site_handle_def)
  have s1: "deployment_ok (floats c) s1" using join_step [OF ok fl en] step by simp
  have "dict_has (gateways b) w" by (simp add: b_def set_up_def gateway_open_def py_run dict_has_def dict_get_put)
  with ascends_run [of s1 i x "outbox ?e" ?ms c] deployment_okD(1) [OF s1] e(5)
  have run: "run_events ?h s1 (replicate (length ?ms) (Ascend i)) =
      s1\<lparr>centre := fold (relay_at w (floats c)) ?ms b, wires := (wires s1)(i \<mapsto> x\<lparr>taken := taken x + length ?ms\<rparr>)\<rparr>"
    "run_enabled ?h (deployment_enabled c) s1 (replicate (length ?ms) (Ascend i))"
    by (simp_all add: s1_def x_def)
  have t': "t = s1\<lparr>centre := fold (relay_at w (floats c)) ?ms b, wires := (wires s1)(i \<mapsto> x\<lparr>taken := taken x + length ?ms\<rparr>)\<rparr>"
    by (simp add: t rejoin_def step run(1) del: deployment_handle.simps)
  show ?thesis
    using en run(2) e unfolding t'
    by (auto simp: rejoin_def step s1_def b_def x_def simp del: deployment_handle.simps deployment_enabled.simps broker_handle.simps)
qed

section \<open>A connection that is made again\<close>

lemma gateway_opened:
  assumes "attends c d v b" and "\<not> dict_has (gateways b) w" and "broker_ok (snd (broker_handle fl (GatewayOpen w) b))"
  shows "attends c d w (snd (broker_handle fl (GatewayOpen w) b))"
  using assms by (auto simp: attends_def set_up_def gateway_open_def py_run dict_get_put clients_up_def)

lemma all_told:
  assumes "\<And>a. a \<in> set as \<Longrightarrow> resources_ok fl (resources a)" and "broker_ok b" and "clients_up b"
    and "dict_get (clients b) (JStr d) = Some c" and "dict_get (gateways b) w \<noteq> None"
    and "t = fold (relay_at w fl) (concat (map (cache_texts dst_all) as)) b"
  shows "texts_to c t = texts_to c b @ concat (map (cache_texts dst_all) as)"
  using relay_told_all [of c d w b as fl] assms by (simp add: attends_def)

lemma reconnected:
  assumes "canonical_floats (floats c)" and "deployment_ok (floats c) s"
    and "deployment_enabled c (Join i w) s" and "clients_up (centre s)"
    and t_def: "t = run_events (deployment_handle c) s (rejoin s i w)"
  shows "(\<exists>uids. dict_get (gateways (centre t)) w = Some uids \<and> distinct uids
         \<and> set uids = JStr ` {u. cached (site s i) u \<noteq> None})
    \<and> (\<forall>(u, d) \<in> set (clients (centre s)). texts_to d (centre t) = texts_to d (centre s) @ told_to dst_all (site s i))"
proof -
  define b where "b = snd (broker_handle (floats c) (GatewayOpen w) (centre s))"
  note run = rejoin_run [OF assms(1-3) t_def, folded b_def]
  have ok: "deployment_ok (floats c) t" unfolding t_def by (rule deployment_run_ok [OF assms(1,2)]) (use run in blast)
  have g: "gateway_ok (floats c) (site s i)" using deployment_okD(2) [OF assms(2)] by (simp add: coap_ok_def gateway_inv_def)
  obtain x where x: "wires t i = Some x" "port x = w" "taken x = length (outbox (site t i))" using run by auto
  have b: "broker_ok b" "clients_up b" "dict_has (gateways b) w" "clients b = clients (centre s)" "texts_to d b = texts_to d (centre s)" for d
    using broker_handle_keeps [OF deployment_okD(1) [OF assms(2)], of "GatewayOpen w"] assms(3,4)
    by (auto simp: b_def set_up_def gateway_open_def py_run clients_up_def texts_to_def dict_has_def dict_get_put)
  have "dict_has (gateways (fold (relay_at w (floats c)) ms b')) w" if "broker_ok b'" "dict_has (gateways b') w" for ms b'
    using that relay_at_keeps by (induction ms arbitrary: b') simp_all
  with run b obtain uids where uids: "dict_get (gateways (centre t)) w = Some uids" by (force simp: dict_has_def)
  have "distinct uids \<and> set uids = JStr ` {u. dict_has (nodes (site t i)) u}"
    using wire_tables [OF deployment_okD(4) [OF ok x(1)] deployment_okD(1) [OF ok]] run uids x by auto
  moreover have "{u. dict_has (nodes (site t i)) u} = {u. cached (site s i) u \<noteq> None}"
    using run by (auto simp: cached_def dict_has_def)
  moreover have "texts_to d (centre t) = texts_to d (centre s) @ told_to dst_all (site s i)" if "(u, d) \<in> set (clients (centre s))" for u d
  proof -
    have u: "dict_get (clients b) u = Some d" "\<exists>v. u = JStr v"
      using client_key(3) [OF b(1), of u d] that b(1,4) by (auto simp: broker_ok_def)
    then obtain v where "dict_get (clients b) (JStr v) = Some d" by blast
    from all_told [OF _ b(1,2) this, of "map (objects (site s i)) (map snd (nodes (site s i)))" "floats c" w "centre t"]
    show ?thesis using run b(3,5) gateway_ok_resources [OF g] by (auto simp: told_to_def dict_has_def)
  qed
  ultimately show ?thesis using uids by fastforce
qed

text \<open>
  C3: A gateway that lost its connection and comes back restores what everyone knows: take any
  consistent state of the broker and the gateways in which the connections of all registered clients
  are open (a closed one would end each broadcast half-way).  When a waiting gateway is admitted on a new
  connection and the broker reads what it then writes, with no other event in between, every step
  of this can happen, the broker lists exactly the nodes of the gateway's cache behind the new
  connection, and each registered client has been sent, and nothing else, texts that teach it this
  gateway's cache on top of what it knew.
\<close>

theorem reconnection_restores:
  assumes "canonical_floats (floats c)" and "deployment_ok (floats c) s"
    and "conn (site s i) = Connecting" and "admitted c i (centre s)"
    and "w \<notin> ports s" and "broker_enabled (GatewayOpen w) (centre s)" and "clients_up (centre s)"
  shows "let h = deployment_handle c; t = run_events h s (rejoin s i w) in
    run_enabled h (deployment_enabled c) s (rejoin s i w)
    \<and> conn (site t i) = Reading \<and> cached (site t i) = cached (site s i)
    \<and> (\<exists>uids. dict_get (gateways (centre t)) w = Some uids \<and> distinct uids
         \<and> set uids = JStr ` {u. cached (site s i) u \<noteq> None})
    \<and> (\<forall>(u, d) \<in> set (clients (centre s)). \<exists>ms. texts_to d (centre t) = texts_to d (centre s) @ ms
         \<and> (\<forall>V. told (floats c) ms V = V ++ cached (site s i)))"
proof -
  define t where "t = run_events (deployment_handle c) s (rejoin s i w)"
  have en: "deployment_enabled c (Join i w) s" using assms(3-6) by simp
  have "gateway_ok (floats c) (site s i)" using deployment_okD(2) [OF assms(2)] by (simp add: coap_ok_def gateway_inv_def)
  then have "told (floats c) (told_to dst_all (site s i)) V = V ++ cached (site s i)" for V
    using told_fetch [of "floats c" "site s i" dst_all V] by (simp add: told_to_eq)
  with reconnected [OF assms(1,2) en assms(7) t_def] rejoin_run [OF assms(1,2) en t_def] show ?thesis
    unfolding Let_def t_def [symmetric] by fastforce
qed

text \<open>A gateway with one cached node that waits for the broker, and a client.\<close>

definition lost_deployment :: deployment where
  "lost_deployment =
     \<lparr>centre = (broker_init \<lparr>private_key = ''k'', secret_key = ''s''\<rparr>)
        \<lparr>clients := [(JStr ''c7'', 7)], handler_uid := (\<lambda>_. JNull)(7 := JStr ''c7''), up := (\<lambda>w. w = 7)\<rparr>,
      site = (\<lambda>_. coap_init 0)(0 := demo_coap\<lparr>conn := Connecting, broker_link := None, alive_timer := False\<rparr>),
      wires = (\<lambda>_. None)\<rparr>"

lemma lost_deployment_fields [simp]:
  "site lost_deployment 0 = demo_coap\<lparr>conn := Connecting, broker_link := None, alive_timer := False\<rparr>"
  "wires lost_deployment = (\<lambda>_. None)" "clients (centre lost_deployment) = [(JStr ''c7'', 7)]"
  "up (centre lost_deployment) = (\<lambda>w. w = 7)" "handler_uid (centre lost_deployment) = (\<lambda>_. JNull)(7 := JStr ''c7'')"
  "gateways (centre lost_deployment) = []" "sent (centre lost_deployment) = []"
  "broker_keys (centre lost_deployment) = \<lparr>private_key = ''k'', secret_key = ''s''\<rparr>"
  by (simp_all add: lost_deployment_def broker_init_def)

lemma lost_deployment_ok: "deployment_ok fl lost_deployment"
proof (rule deployment_okI)
  show "broker_ok (centre lost_deployment)" by (auto simp: broker_ok_def)
  have "coap_ok fl (site lost_deployment 0)"
    using demo_system_ok [of fl] by (simp add: system_ok_def coap_ok_def gateway_inv_def loop_ok_def gateway_ok_def
        ips_ok_def tasks_ok_def puts_def)
  then show "coap_ok fl (site lost_deployment i)" for i
    using coap_ok_init [of fl 0] by (cases "i = 0") (simp_all add: lost_deployment_def)
qed (simp_all add: apart_def)

theorem reconnection_restores_witness:
  "\<exists>ms. texts_to 7 (centre (run_events (deployment_handle demo_setting) lost_deployment (rejoin lost_deployment 0 1))) = ms
     \<and> told keep_literal ms Map.empty = cached demo_coap \<and> cached demo_coap ''n1'' \<noteq> None"
proof -
  have c: "floats demo_setting = keep_literal" by (simp add: demo_setting_def)
  have same: "cached (demo_coap\<lparr>conn := Connecting, broker_link := None, alive_timer := False\<rparr>) = cached demo_coap" by (simp add: cached_def fun_eq_iff)
  have "clients_up (centre lost_deployment)" "1 \<notin> ports lost_deployment" "texts_to 7 (centre lost_deployment) = []"
      "broker_enabled (GatewayOpen 1) (centre lost_deployment)" "conn (site lost_deployment 0) = Connecting"
    by (simp_all add: clients_up_def ports_def texts_to_def dict_has_def)
  with reconnection_restores [of demo_setting lost_deployment 0 1] demo_admitted [of "centre lost_deployment" 0]
  show ?thesis by (simp add: c canonical_keep_literal lost_deployment_ok same Let_def cached_def del: deployment_handle.simps)
qed

section \<open>A loss noticed late\<close>

lemma told_outs: "u \<in> U \<Longrightarrow> set us = JStr ` U \<Longrightarrow> told fl (map out_node us) V u = None"
proof -
  have "told fl (map out_node (map JStr ns)) V u = (if u \<in> set ns then None else V u)" for ns
    by (induction ns arbitrary: V) auto
  moreover assume "u \<in> U" "set us = JStr ` U"
  moreover from this obtain ns where "us = map JStr ns" by (metis ex_map_conv image_iff)
  ultimately show ?thesis by auto
qed

lemma departures_read:
  assumes "broker_ok b" and "clients_up b" and "dict_get (clients b) (JStr d) = Some k"
    and "sent t = sent b @ concat (map (\<lambda>u. deliveries b (out_node u)) us)"
  shows "texts_to k t = texts_to k b @ map out_node us"
proof -
  have "map snd (filter (\<lambda>p. fst p = k) (map (\<lambda>(u, w). (w, m)) cs)) = [m]"
    if "distinct (map snd cs)" "(u, k) \<in> set cs" for m u cs
    using that by (induction cs) (force simp: filter_empty_conv)+
  then have "map snd (filter (\<lambda>p. fst p = k) (deliveries b m)) = [m]" for m
    using clients_distinct [OF assms(1)] map_of_SomeD [OF assms(3)] by (simp add: deliveries_all [OF assms(2)])
  then have "map snd (filter (\<lambda>p. fst p = k) (concat (map (\<lambda>u. deliveries b (out_node u)) vs))) = map out_node vs" for vs
    by (induction vs) simp_all
  then show ?thesis by (simp add: texts_append [OF assms(4)])
qed

lemma gateway_left:
  assumes "broker_ok b" and "clients_up b" and "dict_get (clients b) (JStr d) = Some k" and "dict_get (gateways b) v = Some us"
    and "w \<noteq> v" and t: "t = snd (broker_handle fl (GatewayClose v) b)"
  shows "texts_to k t = texts_to k b @ map out_node us \<and> dict_get (gateways t) w = dict_get (gateways b) w"
proof -
  let ?b = "b\<lparr>up := (up b)(v := False)\<rparr>"
  have "handler_uid b v = JNull" by (rule broker_ok_nodes(2) [OF assms(1,4)])
  then have up: "clients_up ?b" using assms(1,2) by (force simp: clients_up_def broker_ok_def)
  have ok: "broker_ok ?b" using assms(1) by (simp add: broker_ok_def)
  have "sent t = sent ?b @ concat (map (\<lambda>u. deliveries ?b (out_node u)) us)"
    using remove_gateway_run [OF ok, of v us] assms(4) up by (simp add: t set_up_def gateway_on_close_def seq_modify)
  from departures_read [OF ok up _ this] assms(3) have "texts_to k t = texts_to k b @ map out_node us"
    by (simp add: texts_to_def)
  moreover have "dict_get (gateways t) w = dict_get (gateways b) w"
    unfolding t by (rule broker_step_table [OF assms(1)]) (use assms(5) in simp)
  ultimately show ?thesis by blast
qed

lemma relays_table:
  assumes "broker_ok b" and "dict_has (gateways b) w" and "v \<noteq> w"
  shows "broker_ok (fold (relay_at w fl) ms b) \<and> dict_get (gateways (fold (relay_at w fl) ms b)) v = dict_get (gateways b) v"
  using assms(1,2)
proof (induction ms arbitrary: b)
  case (Cons m ms)
  have "dict_get (gateways (relay_at w fl m b)) v = dict_get (gateways b) v"
    unfolding relay_at_def by (rule broker_step_table [OF Cons.prems(1)]) (use assms(3) in simp)
  with Cons relay_at_keeps [OF Cons.prems] show ?case by simp
qed simp

text \<open>The gateway notices the loss and waits until it may connect again.\<close>

definition loses :: "nat \<Rightarrow> deployment_event list" where
  "loses i = [Site i (Base BrokerLost), Site i (Base BrokerGone), Site i (Base SleepOver)]"

lemma loses_run:
  assumes "broker_link (site s i) = Some Open" and "conn (site s i) = Reading"
  shows "run_enabled (deployment_handle c) (deployment_enabled c) s (loses i)
    \<and> run_events (deployment_handle c) s (loses i) =
        s\<lparr>site := (site s)(i := (site s i)\<lparr>broker_link := Some Closed, alive_timer := False, conn := Connecting\<rparr>)\<rparr>"
  using assms
  by (simp add: loses_def site_handle_def close_client_def message_read_def in_loop_def py_run)

text \<open>
  C36: A loss noticed late hides nodes that are there: a gateway loses its connection, connects anew
  and announces its cache, all of which the broker has read, before the broker notices that the
  old connection is gone, the connections of all registered clients being open.  Then the broker tells every client that each of the gateway's nodes is
  out, although the node is in the gateway's cache and in the broker's list for the new connection;
  all these steps can happen.
\<close>

theorem late_close_hides_nodes:
  assumes "canonical_floats (floats c)" and "deployment_ok (floats c) s"
    and "wires s i = Some x" and "broker_link (site s i) = Some Open" and "conn (site s i) = Reading"
    and "taken x = length (outbox (site s i))" and "dict_has (gateways (centre s)) (port x)"
    and "clients_up (centre s)" and "dict_get (clients (centre s)) (JStr d) = Some k"
    and "admitted c i (centre s)" and "w \<notin> ports s" and "broker_enabled (GatewayOpen w) (centre s)"
    and "cached (site s i) u \<noteq> None"
  shows "let h = deployment_handle c; es = loses i @ rejoin s i w @ [Centre (GatewayClose (port x))]; t = run_events h s es in
    run_enabled h (deployment_enabled c) s es
    \<and> cached (site t i) u \<noteq> None
    \<and> (\<exists>uids. dict_get (gateways (centre t)) w = Some uids \<and> JStr u \<in> set uids)
    \<and> told (floats c) (texts_to k (centre t)) V u = None"
proof -
  let ?h = "deployment_handle c" and ?en = "deployment_enabled c" and ?v = "port x"
  define s1 where "s1 = s\<lparr>site := (site s)(i := (site s i)\<lparr>broker_link := Some Closed, alive_timer := False, conn := Connecting\<rparr>)\<rparr>"
  define s2 where "s2 = run_events ?h s1 (rejoin s i w)"
  define b where "b = snd (broker_handle (floats c) (GatewayOpen w) (centre s))"
  define t where "t = snd (?h (Centre (GatewayClose ?v)) s2)"
  note lost = loses_run [OF assms(4,5), of c, folded s1_def]
  have ok1: "deployment_ok (floats c) s1" using deployment_run_ok [OF assms(1,2), of "loses i"] lost by simp
  have same: "rejoin s1 i w = rejoin s i w" "cached (site s1 i) = cached (site s i)"
    by (simp_all add: rejoin_def told_to_def s1_def cached_def fun_eq_iff)
  have en: "?en (Join i w) s1" using assms(10-12) by (simp add: s1_def ports_def)
  have up1: "clients_up (centre s1)" using assms(8) by (simp add: s1_def)
  note joined = rejoin_run [OF assms(1) ok1 en, unfolded same, OF s2_def]
  note news = reconnected [OF assms(1) ok1 en up1, unfolded same, OF s2_def]
  obtain us where us: "dict_get (gateways (centre s)) ?v = Some us" using assms(7) by (auto simp: dict_has_def)
  have old: "set us = JStr ` {n. dict_has (nodes (site s i)) n}"
    using wire_tables [OF deployment_okD(4) [OF assms(2,3)] deployment_okD(1) [OF assms(2)] assms(4) us] assms(6) by blast
  have v: "w \<noteq> ?v" using assms(3,11) by (auto simp: ports_def)
  have b: "broker_ok b" "dict_has (gateways b) w" "dict_get (gateways b) ?v = Some us"
    using broker_handle_keeps [OF deployment_okD(1) [OF assms(2)] assms(12)] us v
    by (simp_all add: b_def set_up_def gateway_open_def py_run dict_has_def dict_get_put)
  have c2: "centre s2 = fold (relay_at w (floats c)) (told_to dst_all (site s1 i)) b"
    using joined by (simp add: b_def s1_def)
  have kept: "broker_ok (centre s2)" "dict_get (gateways (centre s2)) ?v = Some us"
    unfolding c2 using relays_table [OF b(1,2) v [symmetric]] b(3) by simp_all
  have "attends k d w b"
    using b assms(8,9) by (auto simp: attends_def b_def set_up_def gateway_open_def py_run clients_up_def dict_has_def)
  moreover have "gateway_ok (floats c) (site s1 i)"
    using deployment_okD(2) [OF ok1] by (simp add: coap_ok_def gateway_inv_def)
  ultimately have "attends k d w (centre s2)"
    unfolding c2 told_to_def using gateway_ok_resources by (intro relay_told_all [THEN conjunct1]) auto
  then have "clients_up (centre s2)" "dict_get (clients (centre s2)) (JStr d) = Some k" by (simp_all add: attends_def)
  from gateway_left [OF kept(1) this kept(2) v] have left: "texts_to k (centre t) = texts_to k (centre s2) @ map out_node us"
    "dict_get (gateways (centre t)) w = dict_get (gateways (centre s2)) w"
    by (simp_all add: t_def del: broker_handle.simps)
  have "?en (Centre (GatewayClose ?v)) s2" using kept(2) by (simp add: dict_has_def)
  then have "run_enabled ?h ?en s (loses i @ rejoin s i w @ [Centre (GatewayClose ?v)])"
    and t: "run_events ?h s (loses i @ rejoin s i w @ [Centre (GatewayClose ?v)]) = t"
    using lost joined by (simp_all add: run_enabled_append run_events_append s2_def [symmetric] t_def del: deployment_enabled.simps deployment_handle.simps)
  moreover have "site t i = site s2 i" by (simp add: t_def)
  moreover have "u \<in> {n. dict_has (nodes (site s i)) n}" using assms(13) by (auto simp: cached_def dict_has_def)
  then have "told (floats c) (texts_to k (centre t)) V u = None" using told_outs [OF _ old] by (simp add: left(1))
  moreover have "cached (site s2 i) u \<noteq> None" using joined assms(13) by simp
  moreover have "\<exists>uids. dict_get (gateways (centre t)) w = Some uids \<and> JStr u \<in> set uids"
    using news assms(13) by (auto simp: left(2))
  ultimately show ?thesis unfolding Let_def t by metis
qed

text \<open>The same gateway while it is connected, with all its texts read.\<close>

definition linked_deployment :: deployment where
  "linked_deployment = lost_deployment
     \<lparr>centre := (centre lost_deployment)\<lparr>gateways := [(1, [JStr ''n1''])], up := (\<lambda>w. w = 7 \<or> w = 1)\<rparr>,
      site := (\<lambda>_. coap_init 0)(0 := demo_coap), wires := (\<lambda>_. None)(0 \<mapsto> \<lparr>port = 1, taken = 0, given = 0\<rparr>)\<rparr>"

lemma linked_deployment_fields [simp]:
  "site linked_deployment 0 = demo_coap" "wires linked_deployment = (\<lambda>_. None)(0 \<mapsto> \<lparr>port = 1, taken = 0, given = 0\<rparr>)"
  "clients (centre linked_deployment) = [(JStr ''c7'', 7)]" "gateways (centre linked_deployment) = [(1, [JStr ''n1''])]"
  "up (centre linked_deployment) = (\<lambda>w. w = 7 \<or> w = 1)" "handler_uid (centre linked_deployment) = (\<lambda>_. JNull)(7 := JStr ''c7'')"
  "broker_keys (centre linked_deployment) = \<lparr>private_key = ''k'', secret_key = ''s''\<rparr>"
  by (simp_all add: linked_deployment_def)

lemma linked_deployment_ok: "deployment_ok fl linked_deployment"
proof (rule deployment_okI)
  show "broker_ok (centre linked_deployment)" by (auto simp: broker_ok_def)
  show "coap_ok fl (site linked_deployment i)" for i
    using coap_ok_init [of fl 0] demo_system_ok [of fl]
    by (cases "i = 0") (simp_all add: linked_deployment_def system_ok_def)
  show "wire_ok fl (centre linked_deployment) (site linked_deployment i) x" if "wires linked_deployment i = Some x" for i x
    using that by (auto simp: wire_ok_def unread_def roster_def intro: exI [of _ "{''n1''}"] split: if_splits)
qed (simp add: apart_def)

theorem late_close_hides_nodes_witness:
  "let t = run_events (deployment_handle demo_setting) linked_deployment
      (loses 0 @ rejoin linked_deployment 0 2 @ [Centre (GatewayClose 1)]) in
    cached (site t 0) ''n1'' \<noteq> None
    \<and> (\<exists>uids. dict_get (gateways (centre t)) 2 = Some uids \<and> JStr ''n1'' \<in> set uids)
    \<and> told keep_literal (texts_to 7 (centre t)) Map.empty ''n1'' = None"
proof -
  have c: "floats demo_setting = keep_literal" by (simp add: demo_setting_def)
  have "clients_up (centre linked_deployment)" "2 \<notin> ports linked_deployment"
      "broker_enabled (GatewayOpen 2) (centre linked_deployment)" "cached (site linked_deployment 0) ''n1'' \<noteq> None"
    by (simp_all add: clients_up_def ports_def dict_has_def cached_def)
  with late_close_hides_nodes [of demo_setting linked_deployment 0 "\<lparr>port = 1, taken = 0, given = 0\<rparr>" "''c7''" 7 2 "''n1''" Map.empty]
    demo_admitted [of "centre linked_deployment" 0]
  show ?thesis by (simp add: c canonical_keep_literal linked_deployment_ok Let_def dict_has_def del: deployment_handle.simps)
qed

end
