(* ===== verification/Deployment_Order.thy ===== *)
theory Deployment_Order
  imports Deployment_Recovery
begin

text \<open>
  What a client reads, and in which order: the texts of several gateways, of gateways of other
  kinds and of the broker itself in one list.  Each text is labelled with its origin.
\<close>

section \<open>What the broker gets to pass on\<close>

text \<open>
  A text of a gateway of the deployment, of another one, or the broker's own text that a node is
  out because the connection of its gateway was closed.
\<close>

datatype origin = FromSite nat | FromOther ws | OfClosed ws

fun passed :: "setting \<Rightarrow> deployment_event \<Rightarrow> deployment \<Rightarrow> (origin \<times> string) list" where
  "passed c (Ascend i) s =
     (case wires s i of None \<Rightarrow> []
      | Some x \<Rightarrow> [(FromSite i, rewritten (floats c) (outbox (site s i) ! taken x))])"
| "passed c (Centre (GatewayMessage w (Text m))) s = [(FromOther w, rewritten (floats c) m)]"
| "passed c (Centre (GatewayClose w)) s =
     (case dict_get (gateways (centre s)) w of None \<Rightarrow> [] | Some uids \<Rightarrow> map (\<lambda>u. (OfClosed w, out_node u)) uids)"
| "passed c _ s = []"

fun heard :: "setting \<Rightarrow> deployment \<Rightarrow> deployment_event list \<Rightarrow> (origin \<times> string) list" where
  "heard c s [] = []"
| "heard c s (e # es) = passed c e s @ heard c (snd (deployment_handle c e s)) es"

definition heard_of :: "nat \<Rightarrow> (origin \<times> string) list \<Rightarrow> string list" where
  "heard_of i ts = map snd (filter (\<lambda>p. fst p = FromSite i) ts)"

lemma heard_of_simps [simp]:
  "heard_of i [] = []" "heard_of i (p # ts) = (if fst p = FromSite i then [snd p] else []) @ heard_of i ts"
  "heard_of i (ts @ us) = heard_of i ts @ heard_of i us"
  by (simp_all add: heard_of_def)

section \<open>One event\<close>

lemma delivered_to: "broker_ok b \<Longrightarrow> map snd (filter (\<lambda>p. fst p = k) (deliveries b m)) \<in> {[], [m]}"
  using writes_once_texts [OF broadcast_once, of b k m] by (auto simp: broadcast_run texts_to_def)

lemma outs_heard:
  assumes "broker_ok b"
  shows "subseq (map snd (filter (\<lambda>p. fst p = k) (concat (map (\<lambda>u. deliveries b (out_node u)) uids)))) (map out_node uids)"
proof (induction uids)
  case (Cons u uids)
  then show ?case using delivered_to [OF assms, of k "out_node u"] by auto
qed simp

definition hears :: "ws \<Rightarrow> string list \<Rightarrow> broker \<Rightarrow> broker \<Rightarrow> bool" where
  "hears k ts b b' \<longleftrightarrow> handler_uid b' k = handler_uid b k
     \<and> (\<exists>ms. texts_to k b' = texts_to k b @ ms \<and> subseq ms ts)"

lemma hears_text:
  assumes "broker_ok b"
  shows "hears k [rewritten fl m] b (snd (broker_handle fl (GatewayMessage w (Text m)) b))"
proof -
  have "handler_uid (snd (on_gateway_message w v b)) = handler_uid b" for v
    using confined.upholdsD [OF confined_gateway_message, of w v b] by (simp add: confined_def)
  then have "handler_uid (snd (broker_handle fl (GatewayMessage w (Text m)) b)) = handler_uid b"
    by (auto simp: gateway_on_message_def close_ws_def py_run split: sum.split option.split)
  moreover have "\<exists>ms. texts_to k (snd (broker_handle fl (GatewayMessage w (Text m)) b)) = texts_to k b @ ms
      \<and> subseq ms [rewritten fl m]"
    using gateway_text_relayed [OF assms refl, of fl w m] by (metis append_Nil2 list_emb_Nil subseq_order.order_refl)
  ultimately show ?thesis by (simp add: hears_def del: broker_handle.simps)
qed

lemma hears_close:
  assumes ok: "broker_ok b" and w: "dict_get (gateways b) w = Some uids"
  shows "hears k (map out_node uids) b (snd (broker_handle fl (GatewayClose w) b))"
proof -
  let ?b = "b\<lparr>up := (up b)(w := False)\<rparr>"
  have ok': "broker_ok ?b" using ok by (simp add: broker_ok_def)
  have "subseq (map snd (filter (\<lambda>p. fst p = k) (deliveries ?b (out_node (hd uids))))) (map out_node uids)" if "uids \<noteq> []"
    using delivered_to [OF ok', of k "out_node (hd uids)"] that by (cases uids) auto
  then show ?thesis
    using remove_gateway_run [OF ok', of w uids] w outs_heard [OF ok', of k uids]
    by (auto simp: hears_def texts_to_def set_up_def gateway_on_close_def py_run)
qed

lemma hears_client:
  assumes "broker_ok b" and "is_client_event e" and "broker_enabled e b" and "handler_uid b k \<noteq> JNull"
  shows "hears k [] b (snd (broker_handle fl e b))"
proof -
  have "k \<notin> fst ` set (gateways b)" using assms(1,4) by (force simp: broker_ok_def)
  moreover obtain xs where "sent (snd (broker_handle fl e b)) = sent b @ xs" "fst ` set xs \<subseteq> fst ` set (gateways b)"
    using client_event_run [OF assms(1,2)] by blast
  ultimately have "texts_to k (snd (broker_handle fl e b)) = texts_to k b"
    by (force simp: texts_append filter_empty_conv)
  moreover have "handler_uid (snd (on_client_message w m b)) = handler_uid b" for w m
    by (auto simp: on_client_message_def py_run write_each_run split: sum.split)
  then have "handler_uid (snd (broker_handle fl e b)) k = handler_uid b k"
    using assms(2-4)
    by (cases e) (auto simp: client_open_def client_on_message_def client_on_close_def remove_ws_def close_ws_def set_up_def
        py_run split: sum.split option.split)
  ultimately show ?thesis by (simp add: hears_def del: broker_handle.simps)
qed

lemma centre_step:
  assumes ok: "deployment_ok (floats c) s" and en: "deployment_enabled c e s" and k: "handler_uid (centre s) k \<noteq> JNull"
  shows "hears k (map snd (passed c e s)) (centre s) (centre (snd (deployment_handle c e s)))"
proof -
  have none: "hears k ts (centre s) (centre s)" for ts by (auto simp: hears_def)
  note b = deployment_okD(1) [OF ok]
  have opened: "hears k [] (centre s) (snd (broker_handle (floats c) (GatewayOpen w) (centre s)))" for w
    by (simp add: hears_def texts_to_def set_up_def gateway_open_def py_run)
  show ?thesis
  proof (cases e)
    case (Centre x)
    show ?thesis
    proof (cases x)
      case (GatewayMessage w raw)
      show ?thesis
      proof (cases raw)
        case (Text m)
        with hears_text [OF b, of k "floats c" m w] Centre GatewayMessage show ?thesis by (simp del: broker_handle.simps)
      next
        case NotText
        then show ?thesis
          by (simp add: Centre GatewayMessage hears_def texts_to_def gateway_on_message_def check_message_def parse_raw_def close_ws_def py_run)
      qed
    next
      case (GatewayClose w)
      then obtain uids where "dict_get (gateways (centre s)) w = Some uids" using en Centre by (auto simp: dict_has_def)
      with hears_close [OF b this, of k "floats c"] Centre GatewayClose show ?thesis by (simp add: comp_def del: broker_handle.simps)
    qed (use hears_client [OF b _ _ k, of x "floats c"] opened en Centre in \<open>auto simp del: broker_handle.simps\<close>)
  next
    case (Join i w)
    then show ?thesis using opened [of w] unfolding Join join_run by simp
  next
    case (Ascend i)
    with en obtain x where x: "wires s i = Some x" by (auto split: option.splits)
    have "hears k [rewritten (floats c) (outbox (site s i) ! taken x)] (centre s) (centre (snd (deployment_handle c (Ascend i) s)))"
      unfolding ascend_run [OF x] relay_at_def using hears_text [OF b] by simp
    with Ascend x show ?thesis by (simp del: deployment_handle.simps)
  qed (auto simp: none bind_gets seq_modify ret_run split: option.split)
qed

section \<open>Whole runs\<close>

lemma client_hears:
  assumes "canonical_floats (floats c)" and "deployment_ok (floats c) s" and "handler_uid (centre s) k \<noteq> JNull"
    and "run_enabled (deployment_handle c) (deployment_enabled c) s es"
  shows "hears k (map snd (heard c s es)) (centre s) (centre (run_events (deployment_handle c) s es))"
  using assms(2-4)
proof (induction es arbitrary: s)
  case (Cons e es)
  let ?s = "snd (deployment_handle c e s)"
  have e: "deployment_enabled c e s" and es: "run_enabled (deployment_handle c) (deployment_enabled c) ?s es"
    using Cons.prems(3) by simp_all
  note first = centre_step [OF Cons.prems(1) e Cons.prems(2)]
  then have "handler_uid (centre ?s) k \<noteq> JNull" using Cons.prems(2) by (simp add: hears_def del: deployment_handle.simps)
  from Cons.IH [OF deployment_step_ok [OF assms(1) Cons.prems(1) e] this es] first show ?case
    by (auto simp: hears_def simp del: deployment_handle.simps intro: list_emb_append_mono)
qed (simp add: hears_def)

text \<open>A gateway's texts that its newest connection has not handed over yet start here.\<close>

definition read_from :: "deployment \<Rightarrow> nat \<Rightarrow> nat" where
  "read_from s i = (case wires s i of None \<Rightarrow> 0 | Some x \<Rightarrow> taken x)"

lemma outbox_grows:
  assumes "canonical_floats (floats c)" and "deployment_ok (floats c) s"
  shows "\<exists>ms. outbox (site (snd (deployment_handle c e s)) i) = outbox (site s i) @ ms"
proof -
  have "\<exists>ms. outbox (snd (site_handle c j x (site s j))) = outbox (site s j) @ ms" for j x
    unfolding site_handle_def by (rule talks_coap [OF assms(1) deployment_okD(2) [OF assms(2)]])
  then show ?thesis
    by (cases e) (auto simp: join_run ascend_run bind_gets seq_modify ret_run simp del: deployment_handle.simps(3) coap_handle.simps
        split: option.split)
qed

lemma run_outbox_grows:
  assumes "canonical_floats (floats c)" and "deployment_ok (floats c) s"
    and "run_enabled (deployment_handle c) (deployment_enabled c) s es"
  shows "\<exists>ms. outbox (site (run_events (deployment_handle c) s es) i) = outbox (site s i) @ ms"
  using assms(2,3)
proof (induction es arbitrary: s)
  case (Cons e es)
  then have "deployment_ok (floats c) (snd (deployment_handle c e s))" by (auto intro: deployment_step_ok [OF assms(1)])
  from Cons.IH [OF this] Cons.prems outbox_grows [OF assms(1) Cons.prems(1), of e i] show ?case
    by (auto simp del: deployment_handle.simps)
qed simp

lemma read_step:
  assumes ok: "deployment_ok (floats c) s" and en: "deployment_enabled c e s" and long: "outbox (site s i) = take n out" "n \<le> length out"
    and f: "f = rewritten (floats c)"
  shows "subseq (heard_of i (passed c e s) @ map f (drop (read_from (snd (deployment_handle c e s)) i) out)) (map f (drop (read_from s i) out))"
proof (cases "e = Ascend i")
  case True
  with en obtain x where x: "wires s i = Some x" "taken x < length (outbox (site s i))" by (auto split: option.splits)
  then have "drop (taken x) out = outbox (site s i) ! taken x # drop (Suc (taken x)) out"
    using long by (simp add: Cons_nth_drop_Suc)
  with True x show ?thesis by (simp add: f read_from_def ascend_run [OF x(1)] del: deployment_handle.simps)
next
  case False
  then have none: "heard_of i (passed c e s) = []"
    by (cases "(c, e, s)" rule: passed.cases) (auto simp: heard_of_def split: option.split)
  have "read_from s i \<le> read_from (snd (deployment_handle c e s)) i"
    using False deployment_okD(4) [OF ok, of i]
    by (cases e) (auto simp: read_from_def join_run wire_ok_def bind_gets seq_modify ret_run simp del: deployment_handle.simps(3)
        coap_handle.simps broker_handle.simps split: option.split)
  then have "subseq (drop (read_from (snd (deployment_handle c e s)) i) out) (drop (read_from s i) out)"
    by (metis add.commute drop_drop le_add_diff_inverse subseq_order.order_refl suffix_drop suffix_imp_subseq)
  with none show ?thesis by (simp add: subseq_map)
qed

lemma site_in_order:
  assumes "canonical_floats (floats c)" and "deployment_ok (floats c) s"
    and "run_enabled (deployment_handle c) (deployment_enabled c) s es"
  shows "subseq (heard_of i (heard c s es))
    (map (rewritten (floats c)) (drop (read_from s i) (outbox (site (run_events (deployment_handle c) s es) i))))"
  using assms(2,3)
proof (induction es arbitrary: s)
  case (Cons e es)
  let ?s = "snd (deployment_handle c e s)" and ?out = "outbox (site (run_events (deployment_handle c) s (e # es)) i)"
  have e: "deployment_enabled c e s" and es: "run_enabled (deployment_handle c) (deployment_enabled c) ?s es"
    using Cons.prems(2) by simp_all
  obtain ms where "?out = outbox (site s i) @ ms"
    using run_outbox_grows [OF assms(1) Cons.prems] by blast
  then have "outbox (site s i) = take (length (outbox (site s i))) ?out" "length (outbox (site s i)) \<le> length ?out"
    by simp_all
  note step = read_step [OF Cons.prems(1) e this refl]
  from Cons.IH [OF deployment_step_ok [OF assms(1) Cons.prems(1) e] es] have
    "subseq (heard_of i (passed c e s) @ heard_of i (heard c ?s es))
       (heard_of i (passed c e s) @ map (rewritten (floats c)) (drop (read_from ?s i) ?out))"
    by (intro list_emb_append_mono) (simp_all del: deployment_handle.simps)
  from subseq_order.order_trans [OF this step] show ?case by (simp del: deployment_handle.simps)
qed simp

section \<open>Order\<close>

text \<open>
  C8: A client reads in order: take a client's connection in any consistent state of the deployment and
  any run from there, with any number of gateways, lost and remade connections, other gateways and
  clients.  What the broker writes to the client is, in order and each at most once, part of what
  it gets to pass on in the run: the texts it reads from gateways, each written again, and its own
  texts that the nodes of a gateway whose connection was closed are out.  Of each gateway it passes on, in the
  order in which the gateway wrote them and each at most once, only texts that it had not read yet.
\<close>

theorem clients_hear_in_order:
  assumes "canonical_floats (floats c)" and "deployment_ok (floats c) s" and "handler_uid (centre s) k \<noteq> JNull"
    and "run_enabled (deployment_handle c) (deployment_enabled c) s es"
  shows "let t = run_events (deployment_handle c) s es; ts = heard c s es in
    (\<exists>ms. texts_to k (centre t) = texts_to k (centre s) @ ms \<and> subseq ms (map snd ts))
    \<and> (\<forall>i. subseq (map snd (filter (\<lambda>p. fst p = FromSite i) ts))
             (map (rewritten (floats c)) (drop (read_from s i) (outbox (site t i)))))"
  using client_hears [OF assms] site_in_order [OF assms(1,2,4)] by (simp add: Let_def hears_def heard_of_def)

text \<open>
  A client of a connected gateway; the gateway says that it is alive, the broker reads it and then
  closes the gateway's connection.
\<close>

theorem clients_hear_in_order_witness:
  "let es = [Site 0 (Base AliveTimer), Ascend 0, Centre (GatewayClose 1)];
       t = run_events (deployment_handle demo_setting) linked_deployment es in
     heard demo_setting linked_deployment es
       = [(FromSite 0, rewritten keep_literal gateway_alive), (OfClosed 1, out_node (JStr ''n1''))]
     \<and> subseq (texts_to 7 (centre t)) [rewritten keep_literal gateway_alive, out_node (JStr ''n1'')]"
proof -
  let ?h = "deployment_handle demo_setting" and ?d = linked_deployment
  let ?es = "[Site 0 (Base AliveTimer), Ascend 0, Centre (GatewayClose 1)]"
  define e where "e = demo_coap\<lparr>outbox := [gateway_alive]\<rparr>"
  define x where "x = \<lparr>port = 1, taken = 0, given = 0\<rparr>"
  have c: "floats demo_setting = keep_literal" by (simp add: demo_setting_def)
  have alive: "relay_at 1 keep_literal gateway_alive (centre ?d) = centre ?d"
    unfolding gateway_alive_def
    by (subst relay_at_text) (simp_all add: valid_message_def message_types_def on_gateway_message_def py_getitem_def
        in_text_def uid_behind_run bind_run ret_run)
  have "snd (site_handle demo_setting 0 (Base AliveTimer) demo_coap) = e"
    by (simp add: site_handle_def send_alive_def send_to_broker_def e_def py_run)
  then have one: "snd (?h (Site 0 (Base AliveTimer)) ?d) = ?d\<lparr>site := (site ?d)(0 := e)\<rparr>" by simp
  have two: "snd (?h (Ascend 0) (?d\<lparr>site := (site ?d)(0 := e)\<rparr>))
      = ?d\<lparr>site := (site ?d)(0 := e), wires := (wires ?d)(0 \<mapsto> x\<lparr>taken := 1\<rparr>)\<rparr>"
    using ascend_run [of "?d\<lparr>site := (site ?d)(0 := e)\<rparr>" 0 x demo_setting] alive
    by (simp add: x_def e_def c del: deployment_handle.simps)
  have "heard demo_setting ?d ?es
      = [(FromSite 0, rewritten keep_literal gateway_alive), (OfClosed 1, out_node (JStr ''n1''))]"
    by (simp only: heard.simps one two) (simp add: c e_def)
  moreover have en: "run_enabled ?h (deployment_enabled demo_setting) ?d ?es"
    by (simp only: run_enabled.simps one two) (simp add: e_def dict_has_def)
  moreover have "texts_to 7 (centre ?d) = []"
    by (simp add: texts_to_def linked_deployment_def lost_deployment_def broker_init_def)
  moreover have "canonical_floats (floats demo_setting)" "deployment_ok (floats demo_setting) ?d"
      "handler_uid (centre ?d) 7 \<noteq> JNull"
    by (simp_all add: c canonical_keep_literal linked_deployment_ok)
  from clients_hear_in_order [OF this en] obtain ms where
    "texts_to 7 (centre (run_events ?h ?d ?es)) = texts_to 7 (centre ?d) @ ms"
    "subseq ms (map snd (heard demo_setting ?d ?es))"
    unfolding Let_def by blast
  ultimately show ?thesis by (simp only: Let_def append_Nil list.map snd_conv simp_thms)
qed

end
