(* ===== verification/Deployment_Updates.thy ===== *)
theory Deployment_Updates
  imports Deployment_Recovery Composition_Updates
begin

text \<open>An update of a client among many gateways: all read it, those that cache the node act on it.\<close>

section \<open>A gateway reads an update\<close>

definition put_request :: "(json \<Rightarrow> string) \<Rightarrow> node \<Rightarrow> json \<Rightarrow> string \<Rightarrow> coap_method \<times> string \<times> string" where
  "put_request rep a k bytes =
     (PUT, ''coap://['' @ (case resource_value a ''ip'' of Inr (JStr ip) \<Rightarrow> ip | _ \<Rightarrow> []) @ '']/'' @ py_format rep k, bytes)"

lemma update_ignored:
  assumes "gateway_ok fl e" and "conn e = Reading" and "dict_get (nodes e) n = None"
    and m: "update_message fl y (JStr n) k v"
  shows "coap_handle fl rep enc ks opts (Base (BrokerMessage y)) e = (Inr (), e)"
proof -
  obtain kvs data where m: "loads fl y = Inr (JObj kvs)" "dict_get kvs ''type'' = Some (JStr ''update'')"
    "dict_get kvs ''data'' = Some (JObj data)" "check_broker_data (JObj data) = Inr True"
    "dict_get data ''uid'' = Some (JStr n)" "dict_get data ''endpoint'' = Some k" "dict_get data ''payload'' = Some v"
    using m by (auto simp: update_message_def)
  have ne: "uid (objects e r) \<noteq> n" if "(u, r) \<in> set (nodes e)" for u r
  proof -
    have "uid (objects e r) = u" using that assms(1) by (auto simp: gateway_ok_def)
    moreover have "n \<noteq> u" using that assms(3) by (force simp: map_of_eq_None_iff)
    ultimately show ?thesis by simp
  qed
  then have "find (\<lambda>r. py_eq (JStr (uid (objects e r))) (JStr n)) (map snd (nodes e)) = None"
    by (auto simp: find_None_iff dest: ne)
  with m have "on_broker_message fl (update_node_resource rep) y e = (Inr Done, e)"
    by (simp add: on_broker_message_def update_named_def py_getitem_def node_named_def bind_gets ret_run)
  with assms(2) show ?thesis by (simp add: message_read_def in_loop_def py_run)
qed

lemma update_read:
  assumes ok: "coap_ok fl e" and "conn e = Reading" and m: "update_message fl y (JStr n) k v"
    and t: "t = snd (coap_handle fl rep enc ks opts (Base (BrokerMessage y)) e)"
  shows "cached t = cached e \<and> outbox t = outbox e
    \<and> (case dict_get (nodes e) n of
         None \<Rightarrow> requests t = requests e \<and> conn t = Reading
       | Some r \<Rightarrow>
           (case encode_ascii v of
              Inl x \<Rightarrow> requests t = requests e \<and> conn t = Dead x
            | Inr bytes \<Rightarrow> requests t = requests e @ [put_request rep (objects e r) k bytes] \<and> conn t = Handling))"
proof (cases "dict_get (nodes e) n")
  case None
  with update_ignored [OF _ assms(2) None m] ok assms(2) show ?thesis
    by (simp add: t coap_ok_def gateway_inv_def del: coap_handle.simps)
next
  case (Some r)
  have g: "gateway_ok fl e" and ips: "ips_ok e" using ok by (simp_all add: coap_ok_def gateway_inv_def)
  have r: "r < fresh e" "uid (objects e r) = n" using gateway_ok_node [OF g Some] by simp_all
  then have cur: "current e r" using Some by (simp add: current_def)
  obtain a where a: "resource_value (objects e r) ''ip'' = Inr (JStr a)"
    using ips r(1) by (auto simp: ips_ok_def resource_value_def)
  have m': "update_message fl y (JStr (uid (objects e r))) k v" using m r(2) by simp
  show ?thesis
  proof (cases "encode_ascii v")
    case (Inl x)
    from edge_refuses [OF g cur m' Inl a] Some Inl show ?thesis
      by (simp add: t cached_def fun_eq_iff del: coap_handle.simps)
  next
    case (Inr bytes)
    then have "update_node_resource rep r k v e =
        suspend PUT (''coap://['' @ a @ '']/'' @ py_format rep k) bytes (AwaitPut r k v) e"
      using a by (simp add: update_node_resource_def node_ip_def get_object_def py_format_def py_run)
    then show ?thesis
      using update_message_run [OF m' g cur, of "update_node_resource rep"] Some Inr a
      by (simp add: t message_read_def in_loop_def suspend_def put_request_def cached_def fun_eq_iff py_run)
  qed
qed

section \<open>The way to the gateways\<close>

lemma text_to_each:
  assumes "distinct ws" and "sent b' = sent b @ map (\<lambda>g. (g, y)) ws"
  shows "texts_to w b' = texts_to w b @ (if w \<in> set ws then [y] else [])"
proof -
  have "map snd (filter (\<lambda>p. fst p = w) (map (\<lambda>g. (g, y)) ws)) = (if w \<in> set ws then [y] else [])"
    using assms(1) by (induction ws) auto
  then show ?thesis by (simp add: texts_append [OF assms(2)])
qed

text \<open>
  C5: An update finds the gateways that know its node.  When a client sends a well-formed update that
  names a node by its uid, with any endpoint and payload, the broker writes exactly one text to
  every connected gateway (to those before the first whose connection is closed, if there is one), and nothing to anyone else.  A gateway that
  has read all before and reads this text sends exactly one PUT request, to the address of its
  node object and to the endpoint, with the payload's bytes, if it caches a node of that uid and the payload is an
  ASCII text; otherwise it sends nothing, and a payload without an ASCII form ends the coroutine
  with which a gateway that caches the node reads from the broker.  In all cases the gateway tells
  the broker nothing and its cache stays as it was until the node answers, and no other gateway
  is touched.
\<close>

theorem update_finds_its_gateways:
  assumes "canonical_floats (floats c)" and "deployment_ok (floats c) s"
    and "handler_uid (centre s) d = JStr u" and "update_message (floats c) txt (JStr n) k v"
    and "wires s i = Some x" and "port x \<in> set (in_reach (centre s))"
    and "given x = length (texts_to (port x) (centre s))" and "conn (site s i) = Reading"
  shows "let h = deployment_handle c; es = [Centre (ClientMessage d (Text txt)), Descend i]; t = run_events h s es in
    run_enabled h (deployment_enabled c) s es
    \<and> (\<exists>y. \<forall>w. texts_to w (centre t) = texts_to w (centre s) @ (if w \<in> set (in_reach (centre s)) then [y] else []))
    \<and> (gateways_up (centre s) \<longrightarrow> in_reach (centre s) = map fst (gateways (centre s)))
    \<and> (case dict_get (nodes (site s i)) n of
         None \<Rightarrow> requests (site t i) = requests (site s i) \<and> conn (site t i) = Reading
       | Some r \<Rightarrow>
           (case encode_ascii v of
              Inl e \<Rightarrow> requests (site t i) = requests (site s i) \<and> conn (site t i) = Dead e
            | Inr bytes \<Rightarrow>
                requests (site t i) = requests (site s i) @ [put_request (printed c) (objects (site s i) r) k bytes]
                \<and> conn (site t i) = Handling))
    \<and> cached (site t i) = cached (site s i) \<and> outbox (site t i) = outbox (site s i)
    \<and> (\<forall>j. j \<noteq> i \<longrightarrow> site t j = site s j)"
proof -
  let ?h = "deployment_handle c" and ?b = "centre s"
  obtain kvs data where m: "loads (floats c) txt = Inr (JObj kvs)" "dict_get kvs ''type'' = Some (JStr ''update'')"
    "dict_get kvs ''data'' = Some (JObj data)" "check_broker_data (JObj data) = Inr True"
    "dict_get data ''uid'' = Some (JStr n)" "dict_get data ''endpoint'' = Some k" "dict_get data ''payload'' = Some v"
    using assms(4) by (auto simp: update_message_def)
  define y where "y = serialize (JObj (dict_put kvs ''src'' (JStr u)))"
  define b where "b = snd (broker_handle (floats c) (ClientMessage d (Text txt)) ?b)"
  have ok: "broker_ok ?b" by (rule deployment_okD(1) [OF assms(2)])
  have "''update'' \<in> set message_types" by (simp add: message_types_def)
  from client_text_spread [OF assms(1) ok assms(3) m(1,2) this refl] have b: "b = ?b\<lparr>sent := sent ?b @ map (\<lambda>g. (g, y)) (in_reach ?b)\<rparr>"
    and y: "loads (floats c) y = Inr (JObj (dict_put kvs ''src'' (JStr u)))"
    by (simp_all add: b_def y_def del: map_map broker_handle.simps)
  have upd: "update_message (floats c) y (JStr n) k v" by (rule stamped_update [OF m(2-7) y])
  have "distinct (in_reach ?b)" using ok by (simp add: in_reach_def broker_ok_def dict_ok_def)
  from text_to_each [OF this, of b ?b y] have texts: "texts_to w b = texts_to w ?b @ (if w \<in> set (in_reach ?b) then [y] else [])" for w
    by (simp add: b)
  define e where "e = snd (site_handle c i (Base (BrokerMessage y)) (site s i))"
  note reads = update_read [OF deployment_okD(2) [OF assms(2)] assms(8) upd, of e "printed c" "encrypt c" "keyring c i" "options c i"]
  have step1: "snd (?h (Centre (ClientMessage d (Text txt))) s) = s\<lparr>centre := b\<rparr>" by (simp add: b_def)
  have "texts_to (port x) b ! given x = y" using texts [of "port x"] assms(6,7) by simp
  then have step2: "snd (?h (Descend i) (s\<lparr>centre := b\<rparr>)) =
      s\<lparr>centre := b, wires := (wires s)(i \<mapsto> x\<lparr>given := Suc (given x)\<rparr>), site := (site s)(i := e)\<rparr>"
    using assms(5) by (simp add: bind_gets seq_modify e_def)
  have "deployment_enabled c (Centre (ClientMessage d (Text txt))) s" using assms(3) by simp
  moreover have "deployment_enabled c (Descend i) (s\<lparr>centre := b\<rparr>)" using assms(5-8) texts [of "port x"] by simp
  ultimately show ?thesis
    using reads texts in_reach_up [of ?b]
    unfolding Let_def run_events.simps run_enabled.simps step1 step2
    by (auto simp: e_def site_handle_def split: option.splits sum.splits simp del: coap_handle.simps)
qed

theorem update_finds_its_gateways_witness:
  "let m = dumps (JObj [(''type'', JStr ''update''), (''data'', JObj [(''uid'', JStr ''n1''), (''endpoint'', JStr ''led''), (''payload'', JStr ''1'')])]);
     t = run_events (deployment_handle demo_setting) linked_deployment [Centre (ClientMessage 7 (Text m)), Descend 0] in
   requests (site t 0) = [(PUT, ''coap://[fd00::1]/led'', ''1'')] \<and> length (texts_to 1 (centre t)) = 1 \<and> texts_to 2 (centre t) = []"
proof -
  let ?data = "[(''uid'', JStr ''n1''), (''endpoint'', JStr ''led''), (''payload'', JStr ''1'')]"
  let ?m = "[(''type'', JStr ''update''), (''data'', JObj ?data)]"
  have c: "floats demo_setting = keep_literal" by (simp add: demo_setting_def)
  have "loads keep_literal (dumps (JObj ?m)) = Inr (JObj ?m)" by (rule loads_dumps) simp
  then have m: "update_message keep_literal (dumps (JObj ?m)) (JStr ''n1'') (JStr ''led'') (JStr ''1'')"
    by (auto simp: update_message_def check_broker_data_def py_contains_def)
  have up: "set (in_reach (centre linked_deployment)) = {1}" "handler_uid (centre linked_deployment) 7 = JStr ''c7''"
      "texts_to w (centre linked_deployment) = []" "encode_ascii (JStr ''1'') = Inr ''1''" for w
    by (simp_all add: in_reach_def linked_deployment_def texts_to_def encode_ascii_def byte_in_def)
  have r: "put_request rep (objects demo_coap 0) (JStr ''led'') ''1'' = (PUT, ''coap://[fd00::1]/led'', ''1'')" for rep
    by (simp add: put_request_def resource_value_def node_init_def py_format_def)
  from update_finds_its_gateways [of demo_setting linked_deployment 7 "''c7''" "dumps (JObj ?m)" "''n1''" "JStr ''led''" "JStr ''1''" 0
      "\<lparr>port = 1, taken = 0, given = 0\<rparr>"] m up r
  show ?thesis
    by (auto simp: c canonical_keep_literal linked_deployment_ok Let_def
        simp del: run_events.simps run_enabled.simps dumps.simps demo_coap_fields(12))
qed

end
