(* ===== verification/Coap_Presence.thy ===== *)
theory Coap_Presence
  imports Coap_Observer Coap_Node
begin

text \<open>
  Nodes that report in time stay in the cache of the CoAP gateway, whatever else happens there:
  other nodes, clients, discoveries, a connection with the broker that is lost and made again.
\<close>

section \<open>What leaves the time stamps alone\<close>

definition frozen :: "coap_gateway \<Rightarrow> coap_gateway \<Rightarrow> bool" where
  "frozen s t \<longleftrightarrow> clock t = clock s \<and> nodes t = nodes s \<and> (\<forall>r. last_seen (objects t r) = last_seen (objects s r))"

text \<open>No node comes or goes, the time stands still, and no time stamp is set back.\<close>

definition ages :: "coap_gateway \<Rightarrow> coap_gateway \<Rightarrow> bool" where
  "ages s t \<longleftrightarrow> clock t = clock s \<and> nodes t = nodes s
     \<and> (\<forall>r. min (clock s) (last_seen (objects s r)) \<le> last_seen (objects t r))"

interpretation freeze: state_preorder frozen
  by unfold_locales (simp_all add: frozen_def)

interpretation age: state_preorder ages
proof unfold_locales
  fix s t u
  show "ages s s" by (simp add: ages_def)
  assume st: "ages s t" and tu: "ages t u"
  have "min (clock s) (last_seen (objects s r)) \<le> last_seen (objects u r)" for r
  proof -
    have "min (clock s) (last_seen (objects s r)) \<le> last_seen (objects t r)"
      "min (clock s) (last_seen (objects t r)) \<le> last_seen (objects u r)"
      using st tu by (simp_all add: ages_def)
    then show ?thesis by linarith
  qed
  then show "ages s u" using st tu by (simp add: ages_def)
qed

named_theorems freeze_keeps \<open>operations that are no sign of life\<close>
named_theorems age_keeps \<open>operations that bring and remove no node\<close>

lemmas freeze_rules = freeze.upholds_rules
lemmas age_rules = age.upholds_rules

lemma frozen_ages: "frozen s t \<Longrightarrow> ages s t"
  by (simp add: frozen_def ages_def)

lemma frozen_same: "clock t = clock s \<Longrightarrow> nodes t = nodes s \<Longrightarrow> objects t = objects s \<Longrightarrow> frozen s t"
  by (simp add: frozen_def)

lemma age_frozen: "freeze.upholds m \<Longrightarrow> age.upholds m"
  by (simp add: age.upholds_def freeze.upholds_def frozen_ages)

lemma freeze_objects [freeze_keeps]:
  "freeze.upholds (get_object r)"
  "freeze.upholds (set_resource r k v)"
  "freeze.upholds (bind (get_object r) (\<lambda>a. set_object r (clear_resources a)))"
  by (rule freeze.upholdsI; auto simp: set_resource_def set_resource_value_def clear_resources_def get_object_def set_object_def
      py_run frozen_def)+

lemma freeze_send [freeze_keeps]: "freeze.upholds (send_to_broker m)"
  by (rule freeze.upholdsI) (auto simp: send_to_broker_def frozen_def split: option.split link.split)

lemma freeze_messages [freeze_keeps]:
  "freeze.upholds send_alive"
  "freeze.upholds (send_cached client a)"
  "freeze.upholds (fetch_nodes_cache client)"
  "freeze.upholds (forward_data_from_node r k v)"
proof -
  show cached: "freeze.upholds (send_cached client a)" for a
    unfolding send_cached_def by (intro freeze_rules freeze_keeps)
  show "freeze.upholds (fetch_nodes_cache client)"
    unfolding fetch_nodes_cache_def by (intro freeze_rules freeze_keeps cached)
  show "freeze.upholds send_alive" "freeze.upholds (forward_data_from_node r k v)"
    unfolding send_alive_def forward_data_from_node_def by (intro freeze_rules freeze_keeps)+
qed

lemma freeze_reset [freeze_keeps]:
  assumes "\<And>r. freeze.upholds (f r)"
  shows "freeze.upholds (reset_node p f r d)"
  unfolding reset_node_def by (intro freeze_rules freeze_keeps assms)

lemma age_seen_now [age_keeps]: "age.upholds (seen_now r)"
  by (rule age.upholdsI) (simp add: seen_now_def get_object_def set_object_def update_last_seen_def py_run ages_def)

lemma age_reset [age_keeps]:
  assumes "\<And>r. freeze.upholds (f r)"
  shows "age.upholds (reset_node p f r d)"
  by (rule age_frozen, rule freeze_reset [OF assms])

lemma age_others [age_keeps]:
  "age.upholds (get_object r)"
  "age.upholds (send_to_broker m)"
  "age.upholds send_alive"
  "age.upholds (fetch_nodes_cache client)"
  "age.upholds (forward_data_from_node r k v)"
  by (intro age_frozen freeze_keeps)+

interpretation freezing: coap_register frozen fl
  by unfold_locales (blast intro: frozen_same freeze_keeps)+

interpretation aging: coap_register ages fl
  by unfold_locales (blast intro: frozen_ages frozen_same age_keeps)+

section \<open>Recent nodes\<close>

text \<open>The node is cached and was heard of at \<open>since\<close> or later.\<close>

definition recent :: "int \<Rightarrow> string \<Rightarrow> coap_gateway \<Rightarrow> bool" where
  "recent since u s \<longleftrightarrow> (\<exists>r. dict_get (nodes s) u = Some r \<and> since \<le> last_seen (objects s r))"

lemma recent_ages: "ages s t \<Longrightarrow> since \<le> clock s \<Longrightarrow> recent since u s \<Longrightarrow> recent since u t"
  unfolding recent_def ages_def by (metis min.boundedI order_trans)

text \<open>A first message: a new object takes the place of the uid, and nothing else changes what is of interest here.\<close>

lemma first_message:
  assumes "\<not> dict_has (node_mapping s) w" and run: "handle_coap_check rep opts w addr reset s = (x, t)"
  shows "\<exists>s2. frozen s2 t \<and> clock s2 = clock s \<and> nodes s2 = dict_put (nodes s) w (fresh s)
    \<and> (\<forall>r. last_seen (objects s2 r) = (if r = fresh s then clock s else last_seen (objects s r)))"
proof -
  let ?r = "fresh s"
  define a where "a = node_init (clock s) w [(JStr ''ip'', JStr addr)]"
  define b where "b = a\<lparr>resources := resources a @ [(JStr ''protocol'', JStr coap_protocol)]\<rparr>"
  define s1 where "s1 = s\<lparr>objects := (objects s)(?r := a), fresh := Suc ?r, node_mapping := dict_put (node_mapping s) addr w\<rparr>"
  define s2 where "s2 = s1\<lparr>objects := (objects s1)(?r := b), nodes := dict_put (nodes s) w ?r\<rparr>"
  have "set_resource ?r (JStr ''protocol'') (JStr coap_protocol) s1 = (Inr (), s1\<lparr>objects := (objects s1)(?r := b)\<rparr>)"
    by (simp add: set_resource_run hashable_def s1_def a_def b_def node_init_def held_key_def)
  moreover have b: "uid b = w" by (simp add: a_def b_def node_init_def)
  moreover define m where "m = seq (send_to_broker (new_node (JStr w) dst_all))
    (seq (for_each (resources b) (\<lambda>(res, v). send_to_broker (update_node (JStr w) res v dst_all))) (discover_node rep opts ?r))"
  ultimately have add: "add_node coap_protocol (discover_node rep opts) ?r s1 = m s2"
    by (simp add: add_node_def get_object_def py_step s2_def s1_def)
  have m: "freeze.upholds m" unfolding m_def by (intro freeze_rules freeze_keeps freezing.quiet)
  have "handle_coap_check rep opts w addr reset s = m s2"
    using assms(1) add by (simp add: handle_coap_check_def bind_gets bind_first [OF new_object_eq] seq_modify s1_def a_def)
  then have "frozen s2 t" using freeze.upholdsD [OF m, of s2] run by (metis snd_conv)
  then show ?thesis
    by (intro exI [of _ s2]) (simp add: s2_def s1_def a_def b_def node_init_def)
qed

text \<open>The node of a first message is recent, and takes no other node's place.\<close>

lemma new_node_recent:
  assumes "since \<le> clock s" and "recent since u s \<or> u = w" and "gateway_ok fl s" and "\<not> dict_has (node_mapping s) w"
    and run: "handle_coap_check rep opts w addr reset s = (x, t)"
  shows "recent since u t \<and> clock t = clock s"
proof -
  obtain s2 where s2: "frozen s2 t" "clock s2 = clock s" "nodes s2 = dict_put (nodes s) w (fresh s)"
    "\<And>r. last_seen (objects s2 r) = (if r = fresh s then clock s else last_seen (objects s r))"
    using first_message [OF assms(4) run] by blast
  have "recent since u s2"
    using assms(1,2) by (auto simp: recent_def s2(3,4) dict_get_put)
  then show ?thesis using assms(1) s2 recent_ages [OF frozen_ages [OF s2(1)]] by (simp add: frozen_def)
qed

lemma checked_recent:
  assumes "since \<le> clock s" and "recent since u s" and "gateway_ok fl s"
  shows "recent since u (snd (handle_coap_check rep opts w addr reset s)) \<and> clock (snd (handle_coap_check rep opts w addr reset s)) = clock s"
proof (cases "dict_has (node_mapping s) w")
  case False
  then show ?thesis using new_node_recent [OF assms(1) _ assms(3), of u w] assms(2) by (metis prod.collapse)
next
  case True
  have "age.upholds (bind (get_mapped addr) (\<lambda>v. bind (get_node v) (\<lambda>r.
         seq (reset_node coap_protocol (\<lambda>_. ret ()) r [(JStr ''ip'', JStr addr)]) (ret Done))))"
    by (intro age_rules age_keeps aging.quiet freeze.upholds_ret)
  with True have "ages s (snd (handle_coap_check rep opts w addr reset s))"
    using aging.alive_known_step [OF age_seen_now, of addr] by (cases reset) (simp_all add: handle_coap_check_def bind_gets age.upholdsD)
  then show ?thesis using recent_ages assms(1,2) by (simp add: ages_def)
qed

section \<open>The cleanup\<close>

definition spares :: "string \<Rightarrow> coap_gateway \<Rightarrow> coap_gateway \<Rightarrow> bool" where
  "spares u s t \<longleftrightarrow> objects t = objects s \<and> clock t = clock s \<and> dict_get (nodes t) u = dict_get (nodes s) u"

interpretation spare: state_preorder "spares u"
  by unfold_locales (auto simp: spares_def)

lemma drop_spares:
  assumes "dict_ok (nodes s)" and "uid (objects s r) \<noteq> u"
  shows "spares u s (snd (drop_node r s)) \<and> dict_ok (nodes (snd (drop_node r s)))"
  using assms
  by (auto simp: drop_node_def node_ip_def get_object_def pop_mapping_def remove_node_def send_to_broker_def spares_def py_run
      dict.get_del dict_ok_del split: sum.split json.split option.split link.split)

lemma drops_spare:
  assumes "dict_ok (nodes s)" and "\<forall>r \<in> set rs. uid (objects s r) \<noteq> u"
  shows "spares u s (snd (for_each rs drop_node s))"
  using assms
proof (induction rs arbitrary: s)
  case (Cons r rs)
  obtain x s1 where d: "drop_node r s = (x, s1)" by fastforce
  with drop_spares [OF Cons.prems(1), of r u] Cons.prems(2) have s1: "spares u s s1" "dict_ok (nodes s1)" by simp_all
  then have "spares u s1 (snd (for_each rs drop_node s1))" using Cons by (simp add: spares_def)
  with s1(1) d show ?case by (auto simp: py_run intro: spare.trans_state split: sum.split)
qed (simp add: ret_run spare.refl_state)

lemma cleanup_spares:
  assumes "gateway_ok fl s" and "dict_get (nodes s) u = Some r" and "\<not> is_dead opts s r"
  shows "spares u s (snd (check_dead_nodes opts s))"
proof -
  have "uid (objects s r') \<noteq> u" if "r' \<in> set (filter (is_dead opts s) (map snd (nodes s)))" for r'
  proof
    assume "uid (objects s r') = u"
    moreover from that have "\<exists>v. (v, r') \<in> set (nodes s) \<and> is_dead opts s r'" by auto
    then obtain v where v: "(v, r') \<in> set (nodes s)" and dead: "is_dead opts s r'" by blast
    moreover have ok: "dict_ok (nodes s)" "uid (objects s r') = v" using v assms(1) by (auto simp: gateway_ok_def)
    ultimately have "dict_get (nodes s) u = Some r'" by (auto simp: dict.get_items)
    with assms(2,3) dead show False by simp
  qed
  moreover have "dict_ok (nodes s)" using assms(1) by (simp add: gateway_ok_def)
  ultimately show ?thesis by (simp add: check_dead_nodes_def bind_gets drops_spare)
qed

text \<open>A node that was heard of within \<open>max_time\<close> seconds is not dead.\<close>

lemma recent_not_dead:
  assumes "since \<le> last_seen (objects s r)" and "clock s \<le> since + max_time opts * ticks_per_second"
  shows "\<not> is_dead opts s r"
proof -
  have "clock s div ticks_per_second * ticks_per_second \<le> clock s"
    using minus_mod_eq_div_mult [of "clock s" ticks_per_second] by (simp add: ticks_per_second_def)
  with assms show ?thesis by (simp add: is_dead_def seconds_now_def)
qed

section \<open>Every step\<close>

lemma recent_step:
  assumes "canonical_floats fl" and "coap_ok fl s" and "coap_enabled ev s" and "recent since u s" and "since \<le> clock s"
    and "ev = Cleanup \<longrightarrow> clock s \<le> since + max_time opts * ticks_per_second"
  shows "recent since u (snd (coap_handle fl rep enc ks opts ev s)) \<and> clock s \<le> clock (snd (coap_handle fl rep enc ks opts ev s))"
proof -
  have ok: "gateway_ok fl s" using assms(2) by (auto simp: coap_ok_def gateway_inv_def)
  have aged: "recent since u t \<and> clock s \<le> clock t" if "ages s t" for t
    using recent_ages [OF that assms(5,4)] that by (simp add: ages_def)
  show ?thesis
  proof (cases ev)
    case (Base b)
    show ?thesis
    proof (cases "\<exists>n. b = Tick n")
      case True
      then show ?thesis using Base assms(3-5) by (auto simp: modify_run recent_def)
    next
      case False
      then show ?thesis unfolding Base by (intro aged aging.timeless_step [OF assms(1)]) simp
    qed
  next
    case (AlivePost addr bytes)
    then show ?thesis
      using checked_recent [OF assms(5,4) ok, of rep opts "last (split_on CHR '':'' bytes)" addr "starts_with ''reset'' bytes"] assms(4)
      by (auto simp: alive_render_post_def decode_utf8_def py_run split: prod.split sum.split)
  next
    case (ServerPost addr bytes)
    show ?thesis unfolding ServerPost by (rule aged [OF aging.server_post_step])
  next
    case (Outcome i outcome)
    show ?thesis unfolding Outcome by (rule aged [OF aging.request_step [OF assms(2)]])
  next
    case Cleanup
    obtain r where r: "dict_get (nodes s) u = Some r" "since \<le> last_seen (objects s r)" using assms(4) by (auto simp: recent_def)
    have "spares u s (snd (check_dead_nodes opts s))"
      by (rule cleanup_spares [OF ok r(1) recent_not_dead [OF r(2)]]) (use assms(6) Cleanup in simp)
    then show ?thesis using r Cleanup by (auto simp: spares_def recent_def)
  qed
qed

text \<open>The message that counts as a report: an alive message of the node whose uid is no node's address.\<close>

definition reports :: "string \<Rightarrow> coap_event \<Rightarrow> coap_gateway \<Rightarrow> bool" where
  "reports u e s \<longleftrightarrow>
     (case e of
        AlivePost addr bytes \<Rightarrow> utf8_valid bytes \<and> last (split_on CHR '':'' bytes) = u \<and> \<not> dict_has (node_mapping s) u
      | _ \<Rightarrow> False)"

lemma report_recent:
  assumes "gateway_ok fl s" and "reports u e s"
  shows "recent (clock s) u (snd (coap_handle fl rep enc ks opts e s)) \<and> clock (snd (coap_handle fl rep enc ks opts e s)) = clock s"
proof -
  obtain addr bytes where e: "e = AlivePost addr bytes" "utf8_valid bytes" "last (split_on CHR '':'' bytes) = u" "\<not> dict_has (node_mapping s) u"
    using assms(2) by (auto simp: reports_def split: coap_event.splits)
  obtain x t where run: "handle_coap_check rep opts u addr (starts_with ''reset'' bytes) s = (x, t)" by fastforce
  from new_node_recent [OF order_refl _ assms(1) e(4) run, of u] have "recent (clock s) u t \<and> clock t = clock s" by simp
  then show ?thesis using e run by (simp add: alive_render_post_def decode_utf8_def py_run split: sum.split)
qed

text \<open>Every cleanup of a run comes within \<open>max_time\<close> seconds of the last report of the node before it.\<close>

fun punctual :: "coap_options \<Rightarrow> (coap_event \<Rightarrow> (coap_gateway, unit) py) \<Rightarrow> string \<Rightarrow> int \<Rightarrow> coap_gateway \<Rightarrow> coap_event list \<Rightarrow> bool" where
  "punctual opts h u since s [] \<longleftrightarrow> True"
| "punctual opts h u since s (e # es) \<longleftrightarrow>
     (e = Cleanup \<longrightarrow> clock s \<le> since + max_time opts * ticks_per_second)
     \<and> punctual opts h u (if reports u e s then clock s else since) (snd (h e s)) es"

lemma punctual_recent:
  assumes "canonical_floats fl" and "coap_ok fl s" and "recent since u s" and "since \<le> clock s"
    and "run_enabled (coap_handle fl rep enc ks opts) coap_enabled s es" and "punctual opts (coap_handle fl rep enc ks opts) u since s es"
  shows "dict_has (nodes (run_events (coap_handle fl rep enc ks opts) s es)) u"
  using assms(2-6)
proof (induction es arbitrary: s since)
  case Nil
  then show ?case by (auto simp: recent_def dict_has_def)
next
  case (Cons e es)
  let ?t = "snd (coap_handle fl rep enc ks opts e s)" and ?since = "if reports u e s then clock s else since"
  have en: "coap_enabled e s" using Cons.prems(4) by simp
  have ok: "gateway_ok fl s" using Cons.prems(1) by (auto simp: coap_ok_def gateway_inv_def)
  have "recent ?since u ?t \<and> ?since \<le> clock ?t"
    using recent_step [OF assms(1) Cons.prems(1) en Cons.prems(2,3), of opts rep enc ks] Cons.prems(3,5) report_recent [OF ok, of u e rep enc ks opts]
    by (auto simp del: coap_handle.simps)
  then show ?case
    using Cons.IH [OF coap_ok_handle [OF assms(1) Cons.prems(1) en], of ?since] Cons.prems(4,5) by (simp del: coap_handle.simps)
qed

section \<open>Properties\<close>

text \<open>
  A node that reports in time stays: from a report of a node on, in every run of the gateway in which each
  cleanup comes within \<open>max_time\<close> seconds of the last report before it, the node is in the cache,
  whatever other nodes, clients and discoveries do and whatever becomes of the connection with
  the broker.
\<close>

theorem reporting_node_stays:
  assumes "canonical_floats fl"
    and "reachable (coap_handle fl rep enc ks opts) coap_enabled (coap_init now) s"
    and "reports u e s" and "run_enabled (coap_handle fl rep enc ks opts) coap_enabled s (e # es)"
    and "punctual opts (coap_handle fl rep enc ks opts) u (clock s) (snd (coap_handle fl rep enc ks opts e s)) es"
  shows "dict_has (nodes (run_events (coap_handle fl rep enc ks opts) s (e # es))) u"
proof -
  let ?t = "snd (coap_handle fl rep enc ks opts e s)"
  have ok: "coap_ok fl s" using coap_service.reachable_good [OF assms(2)] assms(1) by simp
  then have "gateway_ok fl s" by (auto simp: coap_ok_def gateway_inv_def)
  from report_recent [OF this assms(3), of rep enc ks opts]
  have "recent (clock s) u ?t" "clock s \<le> clock ?t" by simp_all
  moreover have "coap_ok fl ?t" using coap_ok_handle [OF assms(1) ok] assms(4) by simp
  ultimately show ?thesis
    using punctual_recent [OF assms(1), of ?t "clock s" u rep enc ks opts es] assms(4,5) by (simp del: coap_handle.simps)
qed

definition punctual_run :: "coap_event list" where
  "punctual_run = [Base (Tick (100 * ticks_per_second)), Cleanup, AlivePost ''fd00::1'' ''alive:n1'',
     AlivePost ''fd00::2'' ''alive:n2'', Base (Tick (100 * ticks_per_second)), Cleanup]"

theorem reporting_node_stays_witness:
  "dict_has (nodes (run_events (coap_handle keep_literal (\<lambda>_. []) toy_enc \<lparr>private_key = ''k'', secret_key = ''s''\<rparr> demo_options)
      (coap_init 0) (AlivePost ''fd00::1'' ''alive:n1'' # punctual_run))) ''n1''"
proof -
  let ?h = "coap_handle keep_literal (\<lambda>_. []) toy_enc \<lparr>private_key = ''k'', secret_key = ''s''\<rparr> demo_options"
  have "reports ''n1'' (AlivePost ''fd00::1'' ''alive:n1'') (coap_init 0)" by code_simp
  moreover have "run_enabled ?h coap_enabled (coap_init 0) (AlivePost ''fd00::1'' ''alive:n1'' # punctual_run)"
    unfolding punctual_run_def by code_simp
  moreover have "punctual demo_options ?h ''n1'' (clock (coap_init 0)) (snd (?h (AlivePost ''fd00::1'' ''alive:n1'') (coap_init 0))) punctual_run"
    unfolding punctual_run_def by code_simp
  ultimately show ?thesis by (rule reporting_node_stays [OF canonical_keep_literal reach_start])
qed

text \<open>
  Only alive messages count: the values that a node posts, known or not, leave every time stamp as
  it was, so a node that posts values but no alive message is removed as a silent one.
\<close>

theorem values_are_no_sign_of_life:
  "is_dead opts (snd (coap_handle fl rep enc ks opts (ServerPost addr bytes) s)) r = is_dead opts s r"
  using freezing.server_post_step [where s = s and addr = addr and bytes = bytes]
  by (simp add: is_dead_def seconds_now_def frozen_def del: coap_handle.simps)

end
