(* ===== verification/Deployment_Presence.thy ===== *)
theory Deployment_Presence
  imports Deployment Coap_Presence
begin

text \<open>Nodes that report in time, seen from the broker.\<close>

section \<open>One step of the deployment\<close>

lemma site_after:
  assumes "deployment_enabled c e s"
  obtains "site (snd (deployment_handle c e s)) i = site s i" and "\<forall>x. e \<noteq> Site i x"
  | ev where "site (snd (deployment_handle c e s)) i = snd (site_handle c i ev (site s i))" and "coap_enabled ev (site s i)"
    and "e = Site i ev \<or> (\<exists>b. ev = Base b) \<and> (\<forall>x. e \<noteq> Site i x)"
proof (cases e)
  case (Centre x)
  then show thesis using that(1) by simp
next
  case (Site j x)
  then show thesis using that assms by (cases "j = i") auto
next
  case (Join j w)
  then show thesis using that(1) that(2) [of "Base (BrokerConnection (Inr ()))"] assms
    by (cases "j = i") (simp_all add: join_run del: deployment_handle.simps)
next
  case (Descend j)
  with assms obtain x where x: "wires s j = Some x" "conn (site s j) = Reading" by (auto split: option.splits)
  then show thesis
    using Descend that(1) that(2) [of "Base (BrokerMessage (texts_to (port x) (centre s) ! given x))"]
    by (cases "j = i") (simp_all add: bind_gets seq_modify)
next
  case (Ascend j)
  with assms obtain x where "wires s j = Some x" by (auto split: option.splits)
  then show thesis using Ascend that(1) by (simp add: ascend_run del: deployment_handle.simps)
qed

section \<open>Runs\<close>

fun reports_at :: "nat \<Rightarrow> string \<Rightarrow> deployment_event \<Rightarrow> deployment \<Rightarrow> bool" where
  "reports_at i u (Site j e) s \<longleftrightarrow> j = i \<and> reports u e (site s i)"
| "reports_at i u e s \<longleftrightarrow> False"

text \<open>Every cleanup of the gateway comes within its \<open>max_time\<close> seconds of the node's last report to it.\<close>

fun punctual_at :: "setting \<Rightarrow> nat \<Rightarrow> string \<Rightarrow> int \<Rightarrow> deployment \<Rightarrow> deployment_event list \<Rightarrow> bool" where
  "punctual_at c i u since s [] \<longleftrightarrow> True"
| "punctual_at c i u since s (e # es) \<longleftrightarrow>
     (e = Site i Cleanup \<longrightarrow> clock (site s i) \<le> since + max_time (options c i) * ticks_per_second)
     \<and> punctual_at c i u (if reports_at i u e s then clock (site s i) else since) (snd (deployment_handle c e s)) es"

lemma presence_step:
  assumes fl: "canonical_floats (floats c)" and ok: "deployment_ok (floats c) s" and en: "deployment_enabled c e s"
    and recent: "recent since u (site s i)" "since \<le> clock (site s i)"
    and time: "e = Site i Cleanup \<longrightarrow> clock (site s i) \<le> since + max_time (options c i) * ticks_per_second"
  shows "recent since u (site (snd (deployment_handle c e s)) i) \<and> clock (site s i) \<le> clock (site (snd (deployment_handle c e s)) i)"
  using en
proof (cases rule: site_after [of c e s i])
  case 1
  then show ?thesis using recent by simp
next
  case (2 ev)
  then have "ev = Cleanup \<longrightarrow> clock (site s i) \<le> since + max_time (options c i) * ticks_per_second" using time by auto
  from recent_step [OF fl deployment_okD(2) [OF ok] 2(2) recent this] show ?thesis by (simp only: 2(1) site_handle_def)
qed

lemma report_step:
  assumes "deployment_ok (floats c) s" and "reports_at i u e s"
  shows "recent (clock (site s i)) u (site (snd (deployment_handle c e s)) i)
    \<and> clock (site (snd (deployment_handle c e s)) i) = clock (site s i)"
proof -
  obtain x where x: "e = Site i x" "reports u x (site s i)" using assms(2) by (cases e) auto
  have "gateway_ok (floats c) (site s i)" using deployment_okD(2) [OF assms(1), of i] by (auto simp: coap_ok_def gateway_inv_def)
  from report_recent [OF this x(2)] x(1) show ?thesis by (simp add: site_handle_def del: coap_handle.simps)
qed

lemma punctual_present:
  assumes "canonical_floats (floats c)" and "deployment_ok (floats c) s" and "recent since u (site s i)" and "since \<le> clock (site s i)"
    and "run_enabled (deployment_handle c) (deployment_enabled c) s es" and "punctual_at c i u since s es"
  shows "\<exists>since. recent since u (site (run_events (deployment_handle c) s es) i)"
  using assms(2-6)
proof (induction es arbitrary: s since)
  case (Cons e es)
  let ?t = "snd (deployment_handle c e s)" and ?since = "if reports_at i u e s then clock (site s i) else since"
  have en: "deployment_enabled c e s" and time: "e = Site i Cleanup \<longrightarrow> clock (site s i) \<le> since + max_time (options c i) * ticks_per_second"
    using Cons.prems(4,5) by simp_all
  have "recent ?since u (site ?t i) \<and> ?since \<le> clock (site ?t i)"
    using presence_step [OF assms(1) Cons.prems(1) en Cons.prems(2,3) time] Cons.prems(3) report_step [OF Cons.prems(1), of i u e]
    by (auto simp del: deployment_handle.simps)
  then show ?case
    using Cons.IH [OF deployment_step_ok [OF assms(1) Cons.prems(1) en], of ?since] Cons.prems(4,5)
    by (simp del: deployment_handle.simps deployment_enabled.simps)
qed auto

section \<open>Properties\<close>

text \<open>
  C6: A node that reports in time is never missing: from a report of a node to its gateway on, in every run of the
  deployment in which each cleanup of that gateway comes within \<open>max_time\<close> seconds of the node's
  last report, the node is in the gateway's cache, and whenever the broker has read what the
  gateway wrote on a connection that is open on both sides, the broker lists the node; whatever
  other nodes, gateways and clients do, and however often connections are lost and made again.
\<close>

theorem reporting_node_listed:
  assumes "canonical_floats (floats c)"
    and "reachable (deployment_handle c) (deployment_enabled c) (deployment_start ks now) s"
    and "reports_at i u e s" and "run_enabled (deployment_handle c) (deployment_enabled c) s (e # es)"
    and "punctual_at c i u (clock (site s i)) (snd (deployment_handle c e s)) es"
    and t: "t = run_events (deployment_handle c) s (e # es)"
  shows "dict_has (nodes (site t i)) u
    \<and> (\<forall>x uids. wires t i = Some x \<and> broker_link (site t i) = Some Open \<and> dict_get (gateways (centre t)) (port x) = Some uids
          \<and> taken x = length (outbox (site t i)) \<longrightarrow> JStr u \<in> set uids)"
proof -
  let ?s = "snd (deployment_handle c e s)"
  have ok: "deployment_ok (floats c) s" using deployed.reachable_good [OF assms(2)] assms(1) by blast
  have en: "deployment_enabled c e s" using assms(4) by simp
  have "\<exists>since. recent since u (site t i)"
    using punctual_present [OF assms(1) deployment_step_ok [OF assms(1) ok en]] report_step [OF ok assms(3)] assms(4,5)
    by (auto simp: t simp del: deployment_handle.simps deployment_enabled.simps)
  then have here: "dict_has (nodes (site t i)) u" by (auto simp: recent_def dict_has_def)
  have "reachable (deployment_handle c) (deployment_enabled c) (deployment_start ks now) t"
    unfolding t by (rule reachable_run [OF assms(2,4)])
  then have ok': "deployment_ok (floats c) t" using deployed.reachable_good assms(1) by blast
  have "JStr u \<in> set uids"
    if "wires t i = Some x" "broker_link (site t i) = Some Open" "dict_get (gateways (centre t)) (port x) = Some uids"
      "taken x = length (outbox (site t i))" for x uids
    using wire_tables [OF deployment_okD(4) [OF ok' that(1)] deployment_okD(1) [OF ok'] that(2,3)] that(4) here by auto
  with here show ?thesis by blast
qed

theorem reporting_node_listed_witness:
  "dict_has (nodes (site (run_events (deployment_handle demo_setting) demo_deployment
     [Site 0 (AlivePost ''fd00::1'' ''alive:n1''), Site 1 (AlivePost ''fd00::9'' ''alive:n9''), Site 0 (Base (Tick (100 * ticks_per_second))),
      Site 0 Cleanup]) 0)) ''n1''"
proof -
  let ?h = "deployment_handle demo_setting" and ?e = "Site 0 (AlivePost ''fd00::1'' ''alive:n1'')"
    and ?es = "[Site 1 (AlivePost ''fd00::9'' ''alive:n9''), Site 0 (Base (Tick (100 * ticks_per_second))), Site 0 Cleanup]"
  have c: "canonical_floats (floats demo_setting)" by (simp add: demo_setting_def canonical_keep_literal)
  have start: "site demo_deployment 0 = coap_init 0" "clock (coap_init 0) = 0"
    by (simp_all add: demo_deployment_def deployment_start_def coap_init_def gateway_init_def gateway.defs)
  have r: "reachable ?h (deployment_enabled demo_setting) (deployment_start \<lparr>private_key = ''k'', secret_key = ''s''\<rparr> (\<lambda>_. 0)) demo_deployment"
    unfolding demo_deployment_def by (rule reach_start)
  have report: "reports_at 0 ''n1'' ?e demo_deployment"
    by (simp add: start reports_def byte_in_def coap_init_def gateway_init_def gateway.defs dict_has_def)
  have enabled: "run_enabled ?h (deployment_enabled demo_setting) demo_deployment (?e # ?es)"
    by (simp add: ticks_per_second_def del: deployment_handle.simps)
  have "deployment_ok (floats demo_setting) demo_deployment" using deployed.reachable_good [OF r] c by blast
  from report_step [OF this report] have "clock (site (snd (?h ?e demo_deployment)) 0) = 0" by (simp add: start)
  then have "punctual_at demo_setting 0 ''n1'' (clock (site demo_deployment 0)) (snd (?h ?e demo_deployment)) ?es"
    by (simp add: start reports_def site_handle_def modify_run ticks_per_second_def demo_setting_def demo_options_def del: coap_handle.simps(2))
  from reporting_node_listed [OF c r report enabled this refl] show ?thesis by blast
qed

end
