(* ===== verification/Coap_Silence.thy ===== *)
theory Coap_Silence
  imports Coap_Presence
begin

text \<open>
  Nodes that fall silent leave the cache of the CoAP gateway: the counterpart of \<open>Coap_Presence\<close>.
\<close>

section \<open>Stale nodes\<close>

text \<open>The node, if it is cached, was not heard of after \<open>heard\<close>.\<close>

definition stale :: "int \<Rightarrow> string \<Rightarrow> coap_gateway \<Rightarrow> bool" where
  "stale heard u s \<longleftrightarrow> (\<forall>r. dict_get (nodes s) u = Some r \<longrightarrow> last_seen (objects s r) \<le> heard)"

lemma stale_frozen: "frozen s t \<Longrightarrow> stale heard u s \<Longrightarrow> stale heard u t"
  by (simp add: stale_def frozen_def)

text \<open>What may be a sign of life of a node: an alive message with its uid or from its address.\<close>

definition sign_of_life :: "string \<Rightarrow> coap_event \<Rightarrow> coap_gateway \<Rightarrow> bool" where
  "sign_of_life u e s \<longleftrightarrow>
     (case e of
        AlivePost addr bytes \<Rightarrow> last (split_on CHR '':'' bytes) = u \<or> dict_get (node_mapping s) addr = Some u
      | _ \<Rightarrow> False)"

lemma check_stale:
  assumes "gateway_ok fl s" and "stale heard u s" and "w \<noteq> u" and "dict_get (node_mapping s) addr \<noteq> Some u"
    and run: "handle_coap_check rep opts w addr reset s = (x, t)"
  shows "stale heard u t \<and> clock t = clock s"
proof (cases "dict_has (node_mapping s) w")
  case False
  obtain s2 where s2: "frozen s2 t" "clock s2 = clock s" "nodes s2 = dict_put (nodes s) w (fresh s)"
    "\<And>r. last_seen (objects s2 r) = (if r = fresh s then clock s else last_seen (objects s r))"
    using first_message [OF False run] by blast
  have "stale heard u s2"
    using assms(2,3) gateway_ok_node [OF assms(1)] by (fastforce simp: stale_def s2(3,4) dict_get_put)
  then show ?thesis using s2 stale_frozen [OF s2(1)] by (simp add: frozen_def)
next
  case known: True
  show ?thesis
  proof (cases reset)
    case True
    have "freeze.upholds (bind (get_mapped addr) (\<lambda>v. bind (get_node v) (\<lambda>r.
           seq (reset_node coap_protocol (\<lambda>_. ret ()) r [(JStr ''ip'', JStr addr)]) (ret Done))))"
      by (intro freeze_rules freeze_keeps freezing.quiet)
    then have "frozen s t" using known True run freeze.upholds_run by (fastforce simp: handle_coap_check_def bind_gets)
    then show ?thesis using stale_frozen assms(2) by (simp add: frozen_def)
  next
    case False
    show ?thesis
    proof (cases "\<exists>v r. dict_get (node_mapping s) addr = Some v \<and> dict_get (nodes s) v = Some r")
      case True
      then obtain v r where v: "dict_get (node_mapping s) addr = Some v" "dict_get (nodes s) v = Some r" by blast
      then have "t = s\<lparr>objects := (objects s)(r := update_last_seen (clock s) (objects s r))\<rparr>"
        using known False run
        by (simp add: handle_coap_check_def get_mapped_def get_node_def seen_now_def get_object_def set_object_def py_run)
      moreover have "r' \<noteq> r" if "dict_get (nodes s) u = Some r'" for r'
        using gateway_ok_node [OF assms(1) that] gateway_ok_node [OF assms(1) v(2)] v(1) assms(4) by auto
      ultimately show ?thesis using assms(2) by (auto simp: stale_def)
    next
      case none: False
      have "t = s"
        using known False run none
        by (cases "dict_get (node_mapping s) addr")
          (auto simp: handle_coap_check_def get_mapped_def get_node_def py_run or_raise_def split: option.splits)
      then show ?thesis using assms(2) by simp
    qed
  qed
qed

section \<open>The cleanup\<close>

definition sheds :: "coap_gateway \<Rightarrow> coap_gateway \<Rightarrow> bool" where
  "sheds s t \<longleftrightarrow> objects t = objects s \<and> clock t = clock s
     \<and> (dict_ok (nodes s) \<longrightarrow> dict_ok (nodes t) \<and> (\<forall>u r. dict_get (nodes t) u = Some r \<longrightarrow> dict_get (nodes s) u = Some r))"

interpretation shed: state_preorder sheds
  by unfold_locales (auto simp: sheds_def)

lemma shed_cleanup: "shed.upholds (check_dead_nodes opts)"
proof -
  have "sheds s (snd (drop_node r s))" for r s
    by (auto simp: drop_node_def node_ip_def get_object_def pop_mapping_def remove_node_def send_to_broker_def sheds_def py_run
        dict.get_del dict_ok_del split: sum.split json.split option.split link.split if_splits)
  then show ?thesis unfolding check_dead_nodes_def by (intro shed.upholds_rules shed.upholdsI)
qed

section \<open>Every step\<close>

lemma stale_step:
  assumes "canonical_floats fl" and "coap_ok fl s" and "coap_enabled ev s" and "stale heard u s" and "\<not> sign_of_life u ev s"
  shows "stale heard u (snd (coap_handle fl rep enc ks opts ev s))"
proof -
  have ok: "gateway_ok fl s" using assms(2) by (auto simp: coap_ok_def gateway_inv_def)
  show ?thesis
  proof (cases ev)
    case (Base b)
    show ?thesis
    proof (cases "\<exists>n. b = Tick n")
      case True
      then show ?thesis using Base assms(4) by (auto simp: modify_run stale_def)
    next
      case False
      then show ?thesis
        unfolding Base by (intro stale_frozen [OF freezing.timeless_step [OF assms(1)] assms(4)]) simp
    qed
  next
    case (AlivePost addr bytes)
    let ?m = "handle_coap_check rep opts (last (split_on CHR '':'' bytes)) addr (starts_with ''reset'' bytes)"
    obtain x t where run: "?m s = (x, t)" by fastforce
    have "stale heard u t \<and> clock t = clock s"
      by (rule check_stale [OF ok assms(4) _ _ run]) (use assms(5) AlivePost in \<open>simp_all add: sign_of_life_def\<close>)
    then show ?thesis
      using assms(4) run by (auto simp: AlivePost alive_render_post_def decode_utf8_def py_run split: sum.split)
  next
    case (ServerPost addr bytes)
    show ?thesis unfolding ServerPost by (rule stale_frozen [OF freezing.server_post_step assms(4)])
  next
    case (Outcome i outcome)
    show ?thesis unfolding Outcome by (rule stale_frozen [OF freezing.request_step [OF assms(2)] assms(4)])
  next
    case Cleanup
    have "dict_ok (nodes s)" using ok by (simp add: gateway_ok_def)
    then show ?thesis using shed.upholdsD [OF shed_cleanup, of s opts] assms(4) Cleanup by (auto simp: sheds_def stale_def)
  qed
qed

text \<open>A run without a sign of life of the node.\<close>

fun silent_run :: "(coap_event \<Rightarrow> (coap_gateway, unit) py) \<Rightarrow> string \<Rightarrow> coap_gateway \<Rightarrow> coap_event list \<Rightarrow> bool" where
  "silent_run h u s [] \<longleftrightarrow> True"
| "silent_run h u s (e # es) \<longleftrightarrow> \<not> sign_of_life u e s \<and> silent_run h u (snd (h e s)) es"

lemma silent_stale:
  assumes "canonical_floats fl" and "coap_ok fl s" and "stale heard u s"
    and "run_enabled (coap_handle fl rep enc ks opts) coap_enabled s es" and "silent_run (coap_handle fl rep enc ks opts) u s es"
  shows "stale heard u (run_events (coap_handle fl rep enc ks opts) s es) \<and> coap_ok fl (run_events (coap_handle fl rep enc ks opts) s es)"
  using assms(2-5)
proof (induction es arbitrary: s)
  case (Cons e es)
  then have en: "coap_enabled e s" and silent: "\<not> sign_of_life u e s" by simp_all
  from Cons.IH [OF coap_ok_handle [OF assms(1) Cons.prems(1) en] stale_step [OF assms(1) Cons.prems(1) en Cons.prems(2) silent]] Cons.prems(3,4)
  show ?case by (simp del: coap_handle.simps)
qed simp

lemma stale_is_dead:
  assumes "last_seen (objects s r) \<le> heard" and "heard + (max_time opts + 1) * ticks_per_second \<le> clock s"
  shows "is_dead opts s r"
proof -
  have "clock s - clock s div ticks_per_second * ticks_per_second < ticks_per_second"
    using minus_div_mult_eq_mod [of "clock s" ticks_per_second] pos_mod_bound [of ticks_per_second "clock s"]
    by (simp add: ticks_per_second_def)
  with assms show ?thesis by (simp add: is_dead_def seconds_now_def algebra_simps)
qed

section \<open>Properties\<close>

text \<open>
  C15: A node that falls silent is removed: when no alive message names it or comes from its address any more,
  then, whatever values it or anyone posts and whatever else happens in between, a cleanup that comes
  \<open>max_time\<close> and one more second after it was last heard of removes it, if at that time the addresses of the
  cached nodes lead back to them and the connection with the broker is not one that was lost and has not been made again;
  it tells the readers so if the connection is open.  While the connection is lost, each such
  cleanup removes the first of the nodes that have been silent for so long, so the node is removed once it is the first.
\<close>

theorem silent_node_removed:
  assumes "canonical_floats fl"
    and "reachable (coap_handle fl rep enc ks opts) coap_enabled (coap_init now) s"
    and "\<And>r. dict_get (nodes s) u = Some r \<Longrightarrow> last_seen (objects s r) \<le> heard"
    and "run_enabled (coap_handle fl rep enc ks opts) coap_enabled s es" and "silent_run (coap_handle fl rep enc ks opts) u s es"
    and t: "t = run_events (coap_handle fl rep enc ks opts) s es"
    and "heard + (max_time opts + 1) * ticks_per_second \<le> clock t"
    and "addresses_ok t" and "dict_ok (node_mapping t)"
  shows "let (r, t') = coap_handle fl rep enc ks opts Cleanup t in
    if broker_link t = Some Closed \<and> dead_nodes opts t \<noteq> []
    then r = Inl WebSocketClosedError \<and> nodes t' = filter (\<lambda>(w, r). r \<noteq> snd (hd (dead_nodes opts t))) (nodes t)
      \<and> (dict_has (nodes t) u \<longrightarrow> u \<in> fst ` set (dead_nodes opts t))
      \<and> (fst (hd (dead_nodes opts t)) = u \<longrightarrow> \<not> dict_has (nodes t') u)
    else r = Inr () \<and> \<not> dict_has (nodes t') u
      \<and> (broker_link t = Some Open \<and> dict_has (nodes t) u \<longrightarrow> (\<exists>ms. outbox t' = outbox t @ ms \<and> out_node (JStr u) \<in> set ms))"
proof -
  have "coap_ok fl s" using coap_service.reachable_good [OF assms(2)] assms(1) by simp
  moreover have "stale heard u s" using assms(3) by (simp add: stale_def)
  ultimately have stale: "stale heard u t" and "coap_ok fl t"
    using silent_stale [OF assms(1) _ _ assms(4,5)] t by blast+
  then have ok: "gateway_ok fl t" by (auto simp: coap_ok_def gateway_inv_def)
  then have ns: "dict_ok (nodes t)" by (simp add: gateway_ok_def)
  have dead: "(u, r) \<in> set (dead_nodes opts t)" if "(u, r) \<in> set (nodes t)" for r
    using stale that ns stale_is_dead [OF _ assms(7)] by (simp add: dead_nodes_def stale_def dict.get_items)
  show ?thesis
  proof (cases "broker_link t = Some Closed \<and> dead_nodes opts t \<noteq> []")
    case True
    then obtain t' where t': "check_dead_nodes opts t = (Inl WebSocketClosedError, t')"
        "nodes t' = filter (\<lambda>(w, r). r \<noteq> snd (hd (dead_nodes opts t))) (nodes t)"
      using cleanup_run [OF ok assms(8,9), of opts] by auto
    have "\<not> dict_has (nodes t') u" if "fst (hd (dead_nodes opts t)) = u"
    proof -
      have "hd (dead_nodes opts t) \<in> set (nodes t)"
        using True hd_in_set [of "dead_nodes opts t"] by (auto simp: dead_nodes_def)
      then have "dict_get (nodes t) u = Some (snd (hd (dead_nodes opts t)))"
        using that ns by (metis dict.get_items prod.collapse)
      then show ?thesis using ns by (auto simp: dict_has_iff t'(2) dict.get_items [symmetric])
    qed
    then show ?thesis using True t' dead by (force simp: dict_has_iff)
  next
    case False
    then obtain t' where t': "check_dead_nodes opts t = (Inr (), t')" "nodes t' = filter (\<lambda>(u, r). \<not> is_dead opts t r) (nodes t)"
      "outbox t' = outbox t @ (if broker_link t = Some Open then map (\<lambda>(u, r). out_node (JStr u)) (dead_nodes opts t) else [])"
      using cleanup_run [OF ok assms(8,9), of opts] by auto
    have "\<not> dict_has (nodes t') u" using dead by (auto simp: dict_has_iff t'(2) dead_nodes_def)
    moreover have "out_node (JStr u) \<in> set (map (\<lambda>(u, r). out_node (JStr u)) (dead_nodes opts t))"
      if "dict_has (nodes t) u"
      using that dead by (force simp: dict_has_iff)
    ultimately show ?thesis using False t' by auto
  qed
qed

definition silence_run :: "coap_event list" where
  "silence_run = [ServerPost ''fd00::1'' ''led:1'', AlivePost ''fd00::2'' ''alive:n2'', Base (Tick (121 * ticks_per_second))]"

theorem silent_node_removed_witness:
  "let h = coap_handle keep_literal (\<lambda>_. []) toy_enc \<lparr>private_key = ''k'', secret_key = ''s''\<rparr> demo_options;
     t = run_events h (coap_init 0) ([Base (BrokerConnection (Inr ())), AlivePost ''fd00::1'' ''alive:n1''] @ silence_run) in
   dict_has (nodes t) ''n1'' \<and> \<not> dict_has (nodes (snd (h Cleanup t))) ''n1''"
proof -
  let ?h = "coap_handle keep_literal (\<lambda>_. []) toy_enc \<lparr>private_key = ''k'', secret_key = ''s''\<rparr> demo_options"
  let ?es = "[Base (BrokerConnection (Inr ())), AlivePost ''fd00::1'' ''alive:n1'']"
  define s where "s = run_events ?h (coap_init 0) ?es"
  define t where "t = run_events ?h s silence_run"
  have "run_enabled ?h coap_enabled (coap_init 0) ?es" by code_simp
  then have r: "reachable ?h coap_enabled (coap_init 0) s" unfolding s_def by (rule reachable_run [OF reach_start])
  have s: "nodes s = [(''n1'', 0)]" "last_seen (objects s 0) = 0" unfolding s_def by code_simp+
  have run: "run_enabled ?h coap_enabled s silence_run" "silent_run ?h ''n1'' s silence_run"
    unfolding s_def silence_run_def by code_simp+
  have "(nodes t, node_mapping t, broker_link t, clock t, resource_value (objects t 0) ''ip'', resource_value (objects t 1) ''ip'') =
      ([(''n1'', 0), (''n2'', 1)], [(''fd00::1'', ''n1''), (''fd00::2'', ''n2'')], Some Open, 121 * ticks_per_second,
       Inr (JStr ''fd00::1''), Inr (JStr ''fd00::2''))"
    unfolding t_def s_def silence_run_def by code_simp
  then have t: "nodes t = [(''n1'', 0), (''n2'', 1)]" "node_mapping t = [(''fd00::1'', ''n1''), (''fd00::2'', ''n2'')]" "broker_link t = Some Open"
    "clock t = 121 * ticks_per_second" "resource_value (objects t 0) ''ip'' = Inr (JStr ''fd00::1'')"
    "resource_value (objects t 1) ''ip'' = Inr (JStr ''fd00::2'')"
    by (simp_all only: prod.inject)
  have "addresses_ok t" "dict_ok (node_mapping t)" using t by (auto simp: addresses_ok_def)
  from silent_node_removed [OF canonical_keep_literal r _ run t_def _ this, of 0]
  have "\<not> dict_has (nodes (snd (?h Cleanup t))) ''n1''" using s t(3,4) by (auto simp: demo_options_def split: prod.splits)
  moreover have "t = run_events ?h (coap_init 0) (?es @ silence_run)" by (simp only: t_def s_def run_events_append)
  ultimately show ?thesis using t(1) by (simp add: Let_def dict_has_def del: coap_handle.simps run_events.simps)
qed

end
