(* ===== verification/Coap_Speech.thy ===== *)
theory Coap_Speech
  imports Coap_Properties
begin

text \<open>
  The language a CoAP gateway speaks to the broker: each text it writes is one that a generator
  of \<open>pyaiot/common/messaging.py\<close> makes, about a uid that is a string.
\<close>

section \<open>The language\<close>

inductive gateway_text :: "string \<Rightarrow> bool" where
  says_new: "gateway_text (new_node (JStr u) dst)"
| says_update: "gateway_text (update_node (JStr u) k v dst)"
| says_reset: "gateway_text (reset_node_msg (JStr u))"
| says_out: "gateway_text (out_node (JStr u))"
| says_alive: "gateway_text gateway_alive"

definition speaks :: "'a gateway_scheme \<Rightarrow> 'a gateway_scheme \<Rightarrow> bool" where
  "speaks s t \<longleftrightarrow> (\<forall>x \<in> set (outbox s). gateway_text x) \<longrightarrow> (\<forall>x \<in> set (outbox t). gateway_text x)"

interpretation speech: state_preorder speaks
  by unfold_locales (auto simp: speaks_def)

named_theorems speech_keeps \<open>operations that write texts of the language\<close>

lemmas speech_rules = speech.upholds_rules

lemma speech_quiet: "(\<And>s. outbox (snd (m s)) = outbox s) \<Longrightarrow> speech.upholds m"
  by (simp add: speech.upholds_def speaks_def)

lemma speech_modify [speech_keeps]:
  "(\<And>s. outbox (f s) = outbox s) \<Longrightarrow> speech.upholds (modify f)"
  by (rule speech_quiet) (simp add: py_run)

lemma speech_send:
  "gateway_text m \<Longrightarrow> speech.upholds (send_to_broker m)"
  by (auto simp: speech.upholds_def speaks_def send_to_broker_def split: option.splits link.splits)

lemma speech_says [speech_keeps]:
  "speech.upholds (send_to_broker (new_node (JStr u) dst))"
  "speech.upholds (send_to_broker (update_node (JStr u) k v dst))"
  "speech.upholds (send_to_broker (reset_node_msg (JStr u)))"
  "speech.upholds (send_to_broker (out_node (JStr u)))"
  "speech.upholds (send_to_broker gateway_alive)"
  by (intro speech_send gateway_text.intros)+

section \<open>The operations of all gateways\<close>

lemma speech_objects [speech_keeps]:
  "speech.upholds (get_object r)" "speech.upholds (set_object r a)" "speech.upholds (set_resource r k v)"
  "speech.upholds (seen_now r)" "speech.upholds (new_object u res)" "speech.upholds (get_node u)"
  "speech.upholds (node_named v)"
  unfolding get_object_def set_object_def set_resource_def seen_now_def get_node_def node_named_def
proof -
  show "speech.upholds (new_object u res)" by (rule speech_quiet) (simp add: new_object_def)
qed (intro speech_rules speech_keeps; simp)+

lemma speech_cache [speech_keeps]:
  "speech.upholds (forward_data_from_node r k v)" "speech.upholds (remove_node r)"
  "speech.upholds (fetch_nodes_cache client)" "speech.upholds send_alive"
  "(\<And>r. speech.upholds (f r)) \<Longrightarrow> speech.upholds (add_node p f r)"
  "(\<And>r. speech.upholds (g r)) \<Longrightarrow> speech.upholds (reset_node p g r d)"
  unfolding forward_data_from_node_def remove_node_def fetch_nodes_cache_def send_cached_def send_alive_def
    add_node_def reset_node_def
  by (intro speech_rules speech_keeps | simp)+

lemma speech_in_loop [speech_keeps]: "speech.upholds m \<Longrightarrow> speech.upholds (in_loop m)"
  by (auto simp: speech.upholds_def in_loop_def speaks_def split: prod.splits sum.splits)

lemma speech_gateway [speech_keeps]:
  assumes "\<And>r k v. speech.upholds (upd r k v)"
  shows "speech.upholds (gateway_handle fl enc ks upd ev)"
proof -
  have named: "speech.upholds (update_named upd data)" for data
    unfolding update_named_def by (intro speech_rules speech_keeps assms)
  have "speech.upholds (on_broker_message fl upd m)" for m
    unfolding on_broker_message_def by (intro speech_rules speech_keeps named)
  then show ?thesis
    by (cases ev)
      (auto simp: connection_made_def message_read_def close_client_def speaks_def intro!: speech_keeps speech_rules split: sum.split)
qed

section \<open>The CoAP gateway\<close>

lemma speech_coap [speech_keeps]:
  "speech.upholds (suspend meth url bytes task)" "speech.upholds (node_ip r)" "speech.upholds (get_mapped a)"
  "speech.upholds (discover_node rep opts r)" "speech.upholds (discover_next r url es)"
  "speech.upholds (core_received r url outcome)" "speech.upholds (resource_received r url path rest outcome)"
  "speech.upholds (update_node_resource rep r k v)" "speech.upholds (put_received r k v outcome)"
  "speech.upholds (handle_coap_post addr p d)" "speech.upholds (handle_coap_check rep opts u addr reset)"
proof -
  show s [speech_keeps]: "speech.upholds (suspend meth url bytes task)" for meth url bytes task
    by (rule speech_quiet) (simp add: suspend_def)
  show ip [speech_keeps]: "speech.upholds (node_ip r)" for r
    unfolding node_ip_def by (intro speech_rules speech_keeps)
  show gm [speech_keeps]: "speech.upholds (get_mapped a)" for a
    unfolding get_mapped_def by (intro speech_rules speech_keeps)
  show dn [speech_keeps]: "speech.upholds (discover_node rep opts r)" for r
    unfolding discover_node_def Let_def by (intro speech_rules speech_keeps)
  show dx [speech_keeps]: "speech.upholds (discover_next r url es)" for r url es
    by (cases es) (auto simp: discover_next_def Let_def intro!: speech_rules speech_keeps)
  show "speech.upholds (core_received r url outcome)"
    unfolding core_received_def by (intro speech_rules speech_keeps)
  show "speech.upholds (resource_received r url path rest outcome)"
    by (cases "coap_resource outcome") (auto simp: resource_received_def intro!: speech_rules speech_keeps)
  show "speech.upholds (update_node_resource rep r k v)" "speech.upholds (put_received r k v outcome)"
    "speech.upholds (handle_coap_post addr p d)" "speech.upholds (handle_coap_check rep opts u addr reset)"
    unfolding update_node_resource_def put_received_def handle_coap_post_def handle_coap_check_def
    by (intro speech_rules speech_keeps | simp)+
qed

lemma speech_drop [speech_keeps]: "speech.upholds (check_dead_nodes opts)"
proof -
  have "speech.upholds (pop_mapping v)" for v
    by (cases v) (auto simp: pop_mapping_def hashable_def intro!: speech_rules speech_keeps)
  then show ?thesis unfolding check_dead_nodes_def drop_node_def by (intro speech_rules speech_keeps)
qed

lemma speech_resume [speech_keeps]: "speech.upholds (resume task outcome)"
  by (cases task) (auto simp: resume_def handler_ended_def intro!: speech_keeps speech_rules)

lemma speech_coap_handle: "speech.upholds (coap_handle fl rep enc ks opts ev)"
  by (cases ev)
    (auto simp: alive_render_post_def server_render_post_def speaks_def intro!: speech_keeps speech_rules)

text \<open>
  C20: Every text that a CoAP gateway writes to the broker, in whatever order events come, is one
  that a message generator makes (a node that is new, reset, gone or has a value, or the
  gateway's sign of life) with a string as its uid: no discovery request and nothing that a node
  or a client has sent is passed on as it is.
\<close>

theorem coap_speaks_messages:
  assumes "reachable (coap_handle fl rep enc ks opts) coap_enabled (coap_init now) s" and "x \<in> set (outbox s)"
  shows "\<exists>u k v dst. x \<in> {new_node (JStr u) dst, update_node (JStr u) k v dst, reset_node_msg (JStr u),
      out_node (JStr u), gateway_alive}"
proof -
  have "\<forall>x \<in> set (outbox s). gateway_text x"
    using assms(1)
  proof (induction rule: reachable.induct)
    case reach_start
    then show ?case by (simp add: coap_init_def gateway_init_def gateway.defs)
  next
    case (reach_step s ev)
    then show ?case using speech.upholdsD [OF speech_coap_handle] by (simp add: speaks_def)
  qed
  with assms(2) have "gateway_text x" by blast
  then show ?thesis by cases blast+
qed


theorem coap_speaks_messages_witness:
  "\<exists>s u k v dst. gateway_alive \<in> set (outbox s) \<and> gateway_alive \<in> {new_node (JStr u) dst, update_node (JStr u) k v dst,
      reset_node_msg (JStr u), out_node (JStr u), gateway_alive}
    \<and> s = run_events (coap_handle id (\<lambda>_. []) toy_enc \<lparr>private_key = ''k'', secret_key = ''s''\<rparr> demo_options) (coap_init 0)
        [Base (BrokerConnection (Inr ())), Base AliveTimer]"
proof -
  let ?k = "\<lparr>private_key = ''k'', secret_key = ''s''\<rparr>"
  let ?h = "coap_handle id (\<lambda>_. []) toy_enc ?k demo_options"
  define s1 where "s1 = snd (?h (Base (BrokerConnection (Inr ()))) (coap_init 0))"
  define s where "s = run_events ?h (coap_init 0) [Base (BrokerConnection (Inr ())), Base AliveTimer]"
  obtain tk where tk: "auth_token toy_enc ?k = Inr tk"
    by (simp add: auth_token_def toy_enc_def token_char_def is_space_def)
  have s1: "broker_link s1 = Some Open" "alive_timer s1"
    using fetch_run [of "(coap_init 0)\<lparr>broker_link := Some Open, alive_timer := True\<rparr>" dst_all]
    by (simp_all add: s1_def connection_made_def connect_outcome_def tk in_loop_def py_run said_def)
  have "reachable ?h coap_enabled (coap_init 0) s"
    unfolding s_def by (rule reachable_run [OF reach_start])
      (use s1 in \<open>simp add: s1_def coap_init_def gateway_init_def gateway.defs\<close>)
  moreover have "s = snd (?h (Base AliveTimer) s1)" by (simp only: s_def s1_def run_events.simps)
  then have "gateway_alive \<in> set (outbox s)" using s1 by (simp add: send_alive_def)
  ultimately show ?thesis
    using coap_speaks_messages [of id "\<lambda>_. []" toy_enc ?k demo_options 0 s gateway_alive] unfolding s_def by blast
qed

end
