(* ===== verification/Coap_Node_Tasks.thy ===== *)
theory Coap_Node_Tasks
  imports Coap_Presence
begin

text \<open>
  The main program of \<open>utils/coap/coap-test-node.py\<close>: the periodic tasks that run side by side with
  the resources of its CoAP server.

  A turn of a task is one event: what it draws, the outcome of its request and the milliseconds
  that the request took are arguments of the event, and the task then sleeps until a given time.
  Other tasks may take turns meanwhile.  An exception ends the task it comes from, since nothing
  awaits the tasks.
\<close>

section \<open>The tasks\<close>

text \<open>\<open>random.randrange(lo, hi, 1)\<close>; \<open>r\<close> is what the random source draws.\<close>

definition randrange :: "int \<Rightarrow> int \<Rightarrow> nat \<Rightarrow> int" where
  "randrange lo hi r = lo + int r mod (hi - lo)"

definition run_sender :: "sender \<Rightarrow> (nat \<Rightarrow> nat) \<Rightarrow> coap_outcome \<Rightarrow> (coap_node, unit) py" where
  "run_sender s rnd outcome =
     (let axis = (\<lambda>i. randrange (-500) 500 (rnd i)); part = (\<lambda>i. randrange 1 9 (rnd i)) in
      case s of
        SendAlive \<Rightarrow> send_alive_post outcome
      | SendTemperature \<Rightarrow> send_temperature (randrange 20 30 (rnd 0)) outcome
      | SendPressure \<Rightarrow> send_pressure (randrange 990 1015 (rnd 0)) outcome
      | SendImu \<Rightarrow> send_imu (axis 0, axis 1, axis 2) (axis 3, axis 4, axis 5) (axis 6, axis 7, axis 8) outcome
      | SendVersion \<Rightarrow> send_version (part 0) (part 1) (part 2) outcome)"

datatype task = Sleeping sender nat nat | Ended exn

text \<open>One round of \<open>periodic\<close>; its result is the time at which the task wakes again.\<close>

definition periodic :: "sender \<Rightarrow> nat \<Rightarrow> (nat \<Rightarrow> nat) \<Rightarrow> coap_outcome \<Rightarrow> nat \<Rightarrow> (coap_node, nat) py" where
  "periodic func delay rnd outcome returned = seq (run_sender func rnd outcome) (ret (returned + delay))"

record node_program =
  device :: coap_node
  loops :: "task list"
  time_ms :: nat

definition program_start :: "node_args \<Rightarrow> node_program" where
  "program_start a = \<lparr>device = node_start, loops = map (\<lambda>(s, d). Sleeping s d 0) (node_tasks a), time_ms = 0\<rparr>"

datatype program_event =
    Turn nat "nat \<Rightarrow> nat" coap_outcome nat
  | PutLed string coap_outcome
  | PutRobot string
  | PutJs string
  | Pass nat

definition on_device :: "(coap_node, 'a) py \<Rightarrow> (node_program, unit) py" where
  "on_device m p = (case m (device p) of (Inl e, n) \<Rightarrow> (Inl e, p\<lparr>device := n\<rparr>) | (Inr _, n) \<Rightarrow> (Inr (), p\<lparr>device := n\<rparr>))"

definition take_turn :: "nat \<Rightarrow> (nat \<Rightarrow> nat) \<Rightarrow> coap_outcome \<Rightarrow> nat \<Rightarrow> (node_program, unit) py" where
  "take_turn i rnd outcome took p =
     (case loops p ! i of
        Ended e \<Rightarrow> (Inr (), p)
      | Sleeping s d w \<Rightarrow>
          (case periodic s d rnd outcome (time_ms p + took) (device p) of
             (Inl e, n) \<Rightarrow> (Inr (), p\<lparr>device := n, loops := (loops p)[i := Ended e]\<rparr>)
           | (Inr w', n) \<Rightarrow> (Inr (), p\<lparr>device := n, loops := (loops p)[i := Sleeping s d w']\<rparr>)))"

fun program_handle :: "program_event \<Rightarrow> (node_program, unit) py" where
  "program_handle (Turn i rnd outcome took) = take_turn i rnd outcome took"
| "program_handle (PutLed bytes outcome) = on_device (led_put bytes outcome)"
| "program_handle (PutRobot bytes) = on_device (robot_put bytes)"
| "program_handle (PutJs bytes) = on_device (js_put bytes)"
| "program_handle (Pass n) = modify (\<lambda>p. p\<lparr>time_ms := time_ms p + n\<rparr>)"

definition due :: "node_program \<Rightarrow> nat \<Rightarrow> bool" where
  "due p i \<longleftrightarrow> i < length (loops p) \<and> (case loops p ! i of Sleeping s d w \<Rightarrow> w \<le> time_ms p | Ended e \<Rightarrow> False)"

text \<open>A task can take its turn when it is due; how late it does is up to the event loop.\<close>

fun program_enabled :: "program_event \<Rightarrow> node_program \<Rightarrow> bool" where
  "program_enabled (Turn i rnd outcome took) p \<longleftrightarrow> due p i"
| "program_enabled _ p \<longleftrightarrow> True"

section \<open>What the node posts\<close>

text \<open>The texts that the gateway's resources can read: the node's sign of life, and a sensor with a value.\<close>

definition readable :: "string \<times> string \<Rightarrow> bool" where
  "readable p \<longleftrightarrow> p = (''alive'', ''Alive:'' @ node_uid)
     \<or> (\<exists>sensor data. p = (''server'', sensor @ CHR '':'' # data) \<and> CHR '':'' \<notin> set sensor \<and> utf8_valid (snd p))"

text \<open>
  A post is accepted when the gateway's site has a resource for its path and handling it raises
  nothing, for a gateway that knows a node at this address; a sign of life counts as a report.
\<close>

definition accepted_from :: "string \<Rightarrow> string \<times> string \<Rightarrow> bool" where
  "accepted_from addr p \<longleftrightarrow> (\<exists>ev. posted_event addr (fst p) (snd p) = Some ev
    \<and> (\<forall>fl rep enc ks opts s u r. gateway_ok fl s \<and> broker_link s = Some Open \<and> \<not> dict_has (node_mapping s) node_uid
          \<and> dict_get (node_mapping s) addr = Some u \<and> dict_get (nodes s) u = Some r \<longrightarrow>
        fst (coap_handle fl rep enc ks opts ev s) = Inr () \<and> (fst p = ''alive'' \<longrightarrow> reports node_uid ev s)))"

lemma readable_accepted:
  assumes "readable (path, b)"
  shows "accepted_from addr (path, b)"
proof (cases "path = ''alive''")
  case True
  then have b: "b = ''Alive:1234''" using assms by (simp add: readable_def node_uid_def)
  have v: "utf8_valid b" "last (split_on CHR '':'' b) = node_uid" by (simp_all add: b byte_in_def node_uid_def)
  have "fst (coap_handle fl rep enc ks opts (AlivePost addr b) s) = Inr ()"
    if "gateway_ok fl s" "broker_link s = Some Open" "\<not> dict_has (node_mapping s) node_uid" for fl rep enc ks opts s
    using new_node_run [OF that refl, of rep opts addr "starts_with ''reset'' b"] v
    by (auto simp: alive_render_post_def decode_utf8_def py_run)
  with True v show ?thesis by (auto simp: accepted_from_def posted_event_def reports_def)
next
  case False
  then obtain sensor data where b: "path = ''server''" "b = sensor @ CHR '':'' # data" "CHR '':'' \<notin> set sensor" "utf8_valid b"
    using assms by (auto simp: readable_def)
  have "fst (coap_handle fl rep enc ks opts (ServerPost addr b) s) = Inr ()"
    if "gateway_ok fl s" "broker_link s = Some Open" "dict_get (node_mapping s) addr = Some u" "dict_get (nodes s) u = Some r"
    for fl rep enc ks opts s u r
    using server_post_run [OF that(1,2) b(3) _ that(3,4), of data] b by (auto simp: py_run)
  with b(1) show ?thesis by (auto simp: accepted_from_def posted_event_def)
qed

text \<open>One turn posts one text, if the request is sent at all.\<close>

lemma sender_posts:
  "\<exists>b. run_sender s rnd outcome n =
      (map_sum id (\<lambda>_. ()) (coap_resource outcome), n\<lparr>posted := posted n @ (if sent_out outcome then [b] else [])\<rparr>)
    \<and> readable b \<and> (fst b = ''alive'' \<longleftrightarrow> s = SendAlive)"
proof (cases "s = SendAlive")
  case True
  then show ?thesis
    by (simp add: run_sender_def send_alive_post_def node_coap_resource_def readable_def py_run split: sum.split)
next
  case False
  then obtain path data where r: "reading (run_sender s rnd) path data"
    by (cases s) (auto simp: run_sender_def [abs_def] Let_def intro: reading.intros)
  have "run_sender s rnd outcome n = (map_sum id (\<lambda>_. ()) (coap_resource outcome),
      n\<lparr>posted := posted n @ (if sent_out outcome then [(''server'', path @ CHR '':'' # data)] else [])\<rparr>)"
    by (rule readingE [OF r])
      (auto simp: send_temperature_def send_pressure_def send_imu_def send_version_def node_coap_resource_def py_run split: sum.split)
  then show ?thesis using False reading_post(2,3) [OF r] by (auto simp: readable_def)
qed

lemma turn_run:
  assumes "loops p ! i = Sleeping s d w"
  shows "\<exists>b. take_turn i rnd outcome took p =
      (Inr (), p\<lparr>device := (device p)\<lparr>posted := posted (device p) @ (if sent_out outcome then [b] else [])\<rparr>,
        loops := (loops p)[i := (case coap_resource outcome of Inl e \<Rightarrow> Ended e | Inr _ \<Rightarrow> Sleeping s d (time_ms p + took + d))]\<rparr>)
    \<and> readable b \<and> (fst b = ''alive'' \<longleftrightarrow> s = SendAlive)"
proof -
  obtain b where b: "run_sender s rnd outcome (device p) =
      (map_sum id (\<lambda>_. ()) (coap_resource outcome), (device p)\<lparr>posted := posted (device p) @ (if sent_out outcome then [b] else [])\<rparr>)"
    "readable b" "fst b = ''alive'' \<longleftrightarrow> s = SendAlive"
    using sender_posts by blast
  have "take_turn i rnd outcome took p =
      (Inr (), p\<lparr>device := (device p)\<lparr>posted := posted (device p) @ (if sent_out outcome then [b] else [])\<rparr>,
        loops := (loops p)[i := (case coap_resource outcome of Inl e \<Rightarrow> Ended e | Inr _ \<Rightarrow> Sleeping s d (time_ms p + took + d))]\<rparr>)"
    using assms b(1) by (cases "coap_resource outcome") (simp_all add: take_turn_def periodic_def py_run)
  with b(2,3) show ?thesis by blast
qed

fun is_put_request :: "program_event \<Rightarrow> bool" where
  "is_put_request (Turn i rnd outcome took) \<longleftrightarrow> False"
| "is_put_request (Pass n) \<longleftrightarrow> False"
| "is_put_request e \<longleftrightarrow> True"

lemma put_posts:
  assumes "is_put_request e"
  shows "\<exists>bs. posted (device (snd (program_handle e p))) = posted (device p) @ bs \<and> (\<forall>b \<in> set bs. readable b \<and> fst b \<noteq> ''alive'')
    \<and> loops (snd (program_handle e p)) = loops p \<and> time_ms (snd (program_handle e p)) = time_ms p"
proof -
  have led: "readable (''server'', ''led:'' @ v)" if "utf8_valid v" for v
  proof -
    have "utf8_valid (''led:'' @ v)" using that by (simp add: byte_in_def)
    then show ?thesis unfolding readable_def by - (rule disjI2, rule exI [of _ "''led''"], rule exI [of _ v], simp)
  qed
  show ?thesis
  proof (cases e)
    case (PutLed bytes outcome)
    show ?thesis
      using led
      by (cases "utf8_valid bytes"; cases "sent_out outcome"; cases "coap_resource outcome")
        (simp_all add: PutLed on_device_def led_put_def decode_utf8_def node_coap_resource_def py_run)
  qed (use assms in \<open>simp_all add: on_device_def robot_put_def js_put_def py_run\<close>)
qed

section \<open>Properties\<close>

text \<open>Requests whose reply can be decoded, if there is one, and that take at most \<open>longest\<close> milliseconds.\<close>

fun answered :: "nat \<Rightarrow> program_event \<Rightarrow> node_program \<Rightarrow> bool" where
  "answered longest (Turn i rnd outcome took) p \<longleftrightarrow> due p i \<and> \<not> isl (coap_resource outcome) \<and> took \<le> longest"
| "answered longest e p \<longleftrightarrow> program_enabled e p"

definition running_tasks :: "nat \<Rightarrow> node_args \<Rightarrow> node_program \<Rightarrow> bool" where
  "running_tasks longest a p \<longleftrightarrow> length (loops p) = length (node_tasks a)
     \<and> (\<forall>i < length (node_tasks a). \<exists>w. loops p ! i = Sleeping (fst (node_tasks a ! i)) (snd (node_tasks a ! i)) w
          \<and> w \<le> time_ms p + longest + snd (node_tasks a ! i))"

lemma running_step:
  assumes "running_tasks longest a p \<and> (\<forall>b \<in> set (posted (device p)). readable b)" and "answered longest e p"
  shows "running_tasks longest a (snd (program_handle e p)) \<and> (\<forall>b \<in> set (posted (device (snd (program_handle e p)))). readable b)"
proof (cases e)
  case (Turn i rnd outcome took)
  then obtain x where x: "coap_resource outcome = Inr x" using assms(2) by (cases "coap_resource outcome") auto
  have i: "i < length (node_tasks a)" using assms Turn by (simp add: running_tasks_def due_def)
  then obtain w where "loops p ! i = Sleeping (fst (node_tasks a ! i)) (snd (node_tasks a ! i)) w"
    using assms(1) by (auto simp: running_tasks_def)
  from turn_run [OF this, of rnd outcome took] x assms i show ?thesis
    by (auto simp: Turn running_tasks_def nth_list_update)
next
  case (Pass n)
  have "\<exists>w. l = Sleeping s d w \<and> w \<le> time_ms p + n + longest + d" if "\<exists>w. l = Sleeping s d w \<and> w \<le> time_ms p + longest + d" for l s d
    using that by auto
  with Pass assms(1) show ?thesis by (simp add: running_tasks_def modify_run)
next
  case (PutLed bytes outcome)
  then show ?thesis using put_posts [of e p] assms(1) by (auto simp: running_tasks_def simp del: program_handle.simps)
next
  case (PutRobot bytes)
  then show ?thesis using put_posts [of e p] assms(1) by (auto simp: running_tasks_def simp del: program_handle.simps)
next
  case (PutJs bytes)
  then show ?thesis using put_posts [of e p] assms(1) by (auto simp: running_tasks_def simp del: program_handle.simps)
qed

text \<open>
  C22: As long as requests are answered with texts, or fail, the test node keeps going: every task that its options
  ask for is still there and due again at most \<open>longest\<close> milliseconds and its own delay from now,
  and every text posted so far is one that the gateway's resource of that path accepts; the sign of
  life counts as a report of the node.
\<close>

theorem test_node_keeps_reporting:
  assumes "reachable program_handle (answered longest) (program_start a) p"
  shows "length (loops p) = length (node_tasks a)
    \<and> (\<forall>i < length (node_tasks a). \<exists>w. loops p ! i = Sleeping (fst (node_tasks a ! i)) (snd (node_tasks a ! i)) w
          \<and> w \<le> time_ms p + longest + snd (node_tasks a ! i))
    \<and> (\<forall>b \<in> set (posted (device p)). accepted_from addr b)"
proof -
  have "running_tasks longest a p \<and> (\<forall>b \<in> set (posted (device p)). readable b)"
    using assms
  proof (induction rule: reachable.induct)
    case reach_start
    then show ?case by (simp add: running_tasks_def program_start_def node_start_def split: prod.split)
  next
    case (reach_step s e)
    then show ?case using running_step by blast
  qed
  then show ?thesis unfolding running_tasks_def using readable_accepted by (metis prod.collapse)
qed

definition all_args :: node_args where
  "all_args = \<lparr>gateway_host = ''localhost'', gateway_port = 5683, imu = True, led = True, temperature = True, pressure = True,
     robot = True, js = True, version = True\<rparr>"

lemmas task_run =
  program_start_def node_tasks_def all_args_def node_start_def due_def take_turn_def periodic_def run_sender_def
  send_alive_post_def send_temperature_def node_coap_resource_def coap_resource_def decode_utf8_def byte_in_def py_run

theorem test_node_keeps_reporting_witness:
  "let p = run_events program_handle (program_start all_args) [Turn 0 id (RequestFailed []) 20, Turn 1 id (Reply 68 ''ok'') 10] in
    loops p ! 0 = Sleeping SendAlive 30000 30020 \<and> map fst (posted (device p)) = [''alive'', ''server'']
    \<and> length (loops p) = 5"
proof -
  let ?es = "[Turn 0 id (RequestFailed []) 20, Turn 1 id (Reply 68 ''ok'') 10]"
  define p where "p = run_events program_handle (program_start all_args) ?es"
  have "run_enabled program_handle (answered 20) (program_start all_args) ?es" by (simp add: task_run Let_def)
  then have "reachable program_handle (answered 20) (program_start all_args) p"
    unfolding p_def by (rule reachable_run [OF reach_start])
  from test_node_keeps_reporting [OF this] have "length (loops p) = 5" by (simp add: node_tasks_def all_args_def)
  moreover have "loops p ! 0 = Sleeping SendAlive 30000 30020" "map fst (posted (device p)) = [''alive'', ''server'']"
    by (simp_all add: p_def task_run Let_def)
  ultimately show ?thesis unfolding p_def Let_def by blast
qed

text \<open>What can happen to the tasks in any run.\<close>

definition alive_posts :: "node_program \<Rightarrow> (string \<times> string) list" where
  "alive_posts p = filter (\<lambda>b. fst b = ''alive'') (posted (device p))"

fun fits :: "sender \<times> nat \<Rightarrow> task \<Rightarrow> bool" where
  "fits (s, d) (Sleeping s' d' w) \<longleftrightarrow> s' = s \<and> d' = d"
| "fits t (Ended e) \<longleftrightarrow> True"

definition task_table :: "node_args \<Rightarrow> node_program \<Rightarrow> bool" where
  "task_table a p \<longleftrightarrow> list_all2 fits (node_tasks a) (loops p)"

lemma one_alive_task:
  assumes "0 < i" and "i < length (node_tasks a)"
  shows "fst (node_tasks a ! i) \<noteq> SendAlive"
proof -
  obtain j where "i = Suc j" using assms(1) by (cases i) auto
  moreover have "\<forall>t \<in> set (tl (node_tasks a)). fst t \<noteq> SendAlive" by (auto simp: node_tasks_def)
  moreover have "node_tasks a = (SendAlive, 30000) # tl (node_tasks a)" by (simp add: node_tasks_def)
  ultimately show ?thesis using assms(2) by (metis length_Cons not_less_eq nth_Cons_Suc nth_mem Suc_less_eq)
qed

lemma table_step:
  assumes "task_table a p" and "program_enabled e p"
  shows "task_table a (snd (program_handle e p))
    \<and> (\<forall>x. loops p ! 0 = Ended x \<longrightarrow> loops (snd (program_handle e p)) ! 0 = Ended x \<and> alive_posts (snd (program_handle e p)) = alive_posts p)"
proof (cases e)
  case (Turn i rnd outcome took)
  then obtain s d w where l: "loops p ! i = Sleeping s d w" "i < length (loops p)"
    using assms by (auto simp: due_def split: task.splits)
  then have i: "i < length (node_tasks a)" "node_tasks a ! i = (s, d)"
    using assms(1) by (auto simp: task_table_def list_all2_conv_all_nth) (metis fits.simps(1) prod.collapse)
  define l' where "l' = (case coap_resource outcome of Inl e \<Rightarrow> Ended e | Inr _ \<Rightarrow> Sleeping s d (time_ms p + took + d))"
  obtain b where run: "take_turn i rnd outcome took p =
      (Inr (), p\<lparr>device := (device p)\<lparr>posted := posted (device p) @ (if sent_out outcome then [b] else [])\<rparr>, loops := (loops p)[i := l']\<rparr>)"
    and b: "fst b = ''alive'' \<longleftrightarrow> s = SendAlive"
    using turn_run [OF l(1), of rnd outcome took] unfolding l'_def by blast
  have "fits (node_tasks a ! i) l'" by (simp add: i(2) l'_def split: sum.split)
  then have "list_all2 fits ((node_tasks a)[i := node_tasks a ! i]) ((loops p)[i := l'])"
    using assms(1) unfolding task_table_def by (rule list_all2_update_cong [rotated])
  then have "task_table a (snd (program_handle e p))" by (simp add: Turn run task_table_def)
  moreover have "i \<noteq> 0" "s \<noteq> SendAlive" if "loops p ! 0 = Ended x" for x
  proof -
    show "i \<noteq> 0" using that l(1) by (metis task.distinct(1))
    then show "s \<noteq> SendAlive" using one_alive_task [of i a] i by simp
  qed
  ultimately show ?thesis using b by (auto simp: Turn run alive_posts_def)
next
  case (Pass n)
  then show ?thesis using assms(1) by (simp add: task_table_def alive_posts_def modify_run)
next
  case (PutLed bytes outcome)
  then show ?thesis using put_posts [of e p] assms(1) by (auto simp: task_table_def alive_posts_def simp del: program_handle.simps)
next
  case (PutRobot bytes)
  then show ?thesis using put_posts [of e p] assms(1) by (auto simp: task_table_def alive_posts_def simp del: program_handle.simps)
next
  case (PutJs bytes)
  then show ?thesis using put_posts [of e p] assms(1) by (auto simp: task_table_def alive_posts_def simp del: program_handle.simps)
qed

text \<open>
  C23: One reply that is no valid UTF-8, or one failure to make the client context, silences the node for
  good: the exception ends the task of the signs of life, and whatever happens afterwards the
  node posts no further one, so the gateway takes it for dead while it still runs.
\<close>

theorem undecodable_reply_silences_node:
  assumes "reachable program_handle program_enabled (program_start a) p" and "due p 0"
    and "coap_resource outcome = Inl e"
    and "reachable program_handle program_enabled (snd (program_handle (Turn 0 rnd outcome took) p)) q"
  shows "loops q ! 0 = Ended e \<and> alive_posts q = alive_posts (snd (program_handle (Turn 0 rnd outcome took) p))"
proof -
  let ?p = "snd (program_handle (Turn 0 rnd outcome took) p)"
  have table: "task_table a p"
    using assms(1)
  proof (induction rule: reachable.induct)
    case reach_start
    then show ?case by (simp add: task_table_def program_start_def list_all2_conv_all_nth split: prod.split)
  next
    case (reach_step s e)
    then show ?case using table_step by blast
  qed
  obtain s d w where l: "loops p ! 0 = Sleeping s d w" "0 < length (loops p)"
    using assms(2) by (auto simp: due_def split: task.splits)
  have "loops ?p ! 0 = Ended e" using turn_run [OF l(1), of rnd outcome took] l(2) assms(3) by auto
  moreover have "task_table a ?p" using table_step [OF table, of "Turn 0 rnd outcome took"] assms(2) by simp
  ultimately have start: "task_table a ?p \<and> loops ?p ! 0 = Ended e" by blast
  from assms(4) have "task_table a q \<and> loops q ! 0 = Ended e \<and> alive_posts q = alive_posts ?p"
  proof (induction rule: reachable.induct)
    case reach_start
    then show ?case using start by blast
  next
    case (reach_step s ev)
    then show ?case using table_step [of a s ev] by simp
  qed
  then show ?thesis by blast
qed

theorem undecodable_reply_silences_node_witness:
  "let p = run_events program_handle (program_start all_args) [Turn 0 id (Reply 68 [CHR 0xFF]) 20, Pass 60000, Turn 1 id (RequestFailed []) 20] in
    loops p ! 0 = Ended UnicodeDecodeError \<and> map fst (alive_posts p) = [''alive'']"
proof -
  let ?p = "snd (program_handle (Turn 0 id (Reply 68 [CHR 0xFF]) 20) (program_start all_args))"
    and ?es = "[Pass 60000, Turn 1 id (RequestFailed []) 20]"
  define q where "q = run_events program_handle ?p ?es"
  have "run_enabled program_handle program_enabled ?p ?es" by (simp add: task_run Let_def)
  then have "reachable program_handle program_enabled ?p q" unfolding q_def by (rule reachable_run [OF reach_start])
  moreover have "due (program_start all_args) 0" "coap_resource (Reply 68 [CHR 0xFF]) = Inl UnicodeDecodeError" by (simp_all add: task_run)
  ultimately have "loops q ! 0 = Ended UnicodeDecodeError \<and> alive_posts q = alive_posts ?p"
    by (rule undecodable_reply_silences_node [OF reach_start, rotated 2])
  moreover have "map fst (alive_posts ?p) = [''alive'']" by (simp add: task_run alive_posts_def Let_def)
  ultimately show ?thesis by (simp add: q_def Let_def del: program_handle.simps)
qed

end
