(* ===== verification/Mqtt_Gateway.thy ===== *)
theory Mqtt_Gateway
  imports Coap_Gateway Gateway_View
begin

text \<open>
  \<open>pyaiot/gateway/mqtt/gateway.py\<close>: the gateway for MQTT nodes.

  The MQTT client library is an argument.  A call of \<open>subscribe\<close>, \<open>unsubscribe\<close>, \<open>publish\<close> or
  \<open>disconnect\<close> is recorded in \<open>calls\<close>; what awaiting its result gives is part of the event
  that resumes the coroutine (\<open>Inl\<close>: an exception, \<open>TypeError\<close> when the result cannot be
  awaited, as with the \<open>subscribe\<close>, \<open>unsubscribe\<close> and \<open>publish\<close> of \<open>gmqtt\<close>), and \<open>as_task\<close> is what
  \<open>create_task\<close> makes of the result of \<open>publish\<close>.

  Coroutines given to \<open>create_task\<close> start later: \<open>Start...\<close> are the ones not yet started,
  the others wait for the result of a call.  \<open>add_node\<close> is a coroutine that
  \<open>handle_node_check\<close> does not await: the call makes a coroutine object and runs nothing.
  Node ids are JSON values; a dictionary keyed by them holds canonical keys.
\<close>

datatype mqtt_call =
    Subscribe string
  | Unsubscribe string
  | Publish string json
  | Disconnect

datatype mqtt_task =
    StartCheck json
  | CheckSubscribed nat
  | StartResources string json
  | Subscribing string "json list"
  | StartDisconnect nat
  | UnsubscribeRest nat json
  | Unsubscribing nat json nat "json list"
  | Finishing

record mqtt_gateway = gateway +
  id_mapping :: "(json, string) dict"
  mqtt_tasks :: "(nat, mqtt_task) dict"
  mqtt_next :: nat
  calls :: "mqtt_call list"

definition mqtt_init :: "int \<Rightarrow> mqtt_gateway" where
  "mqtt_init now = gateway.extend (gateway_init now)
     \<lparr>id_mapping = [], mqtt_tasks = [], mqtt_next = 0, calls = []\<rparr>"

abbreviation mqtt_protocol :: string where
  "mqtt_protocol \<equiv> ''MQTT''"

definition mqtt_request :: "mqtt_call \<Rightarrow> (mqtt_gateway, unit) py" where
  "mqtt_request c = modify (\<lambda>s. s\<lparr>calls := calls s @ [c]\<rparr>)"

definition create_task :: "mqtt_task \<Rightarrow> (mqtt_gateway, unit) py" where
  "create_task task = modify (\<lambda>s. s\<lparr>mqtt_tasks := mqtt_tasks s @ [(mqtt_next s, task)], mqtt_next := Suc (mqtt_next s)\<rparr>)"

text \<open>\<open>await self.mqtt_client....\<close>: the call is made, the coroutine waits for its result.\<close>

definition await_call :: "mqtt_call \<Rightarrow> mqtt_task \<Rightarrow> (mqtt_gateway, unit) py" where
  "await_call c task = seq (mqtt_request c) (create_task task)"

definition publish_task :: "exn + unit \<Rightarrow> string \<Rightarrow> json \<Rightarrow> (mqtt_gateway, unit) py" where
  "publish_task as_task topic payload =
     seq (mqtt_request (Publish topic payload)) (seq (lift as_task) (create_task Finishing))"

section \<open>The abstract methods\<close>

definition node_id_of :: "nat \<Rightarrow> (mqtt_gateway, json) py" where
  "node_id_of r = bind (get_object r) (\<lambda>a. lift (resource_value a ''id''))"

definition mqtt_discover_node :: "(json \<Rightarrow> string) \<Rightarrow> nat \<Rightarrow> (mqtt_gateway, progress) py" where
  "mqtt_discover_node rep r =
     bind (node_id_of r) (\<lambda>i.
       seq (await_call (Publish (''gateway/'' @ py_format rep i @ ''/discover'') (JStr ''resources'')) Finishing)
       (ret Suspended))"

definition mqtt_update_node_resource ::
  "(json \<Rightarrow> string) \<Rightarrow> exn + unit \<Rightarrow> nat \<Rightarrow> json \<Rightarrow> json \<Rightarrow> (mqtt_gateway, unit) py" where
  "mqtt_update_node_resource rep as_task r endpoint payload =
     bind (node_id_of r) (\<lambda>i.
       publish_task as_task (''gateway/'' @ py_format rep i @ ''/'' @ py_format rep endpoint @ ''/set'') payload)"

text \<open>The method is a plain function: awaiting its result raises \<open>TypeError\<close>.\<close>

definition mqtt_await_update ::
  "(json \<Rightarrow> string) \<Rightarrow> exn + unit \<Rightarrow> nat \<Rightarrow> json \<Rightarrow> json \<Rightarrow> (mqtt_gateway, progress) py" where
  "mqtt_await_update rep as_task r endpoint payload =
     seq (mqtt_update_node_resource rep as_task r endpoint payload) (raise TypeError)"

section \<open>Messages of nodes\<close>

definition mapped_id :: "json \<Rightarrow> (mqtt_gateway, string) py" where
  "mapped_id i = bind (gets id_mapping) (\<lambda>m. lift (key_item m i))"

definition handle_node_check :: "(json \<Rightarrow> string) \<Rightarrow> string \<Rightarrow> json \<Rightarrow> (mqtt_gateway, unit) py" where
  "handle_node_check rep uuid data =
     bind (lift (py_getitem data ''id'')) (\<lambda>i.
     bind (gets id_mapping) (\<lambda>m.
     bind (lift (in_keys i m)) (\<lambda>known.
       if \<not> known then
         bind (new_object uuid [(JStr ''id'', i)]) (\<lambda>r.
         seq (modify (\<lambda>s. s\<lparr>id_mapping := dict_put (id_mapping s) (canon i) uuid\<rparr>))
         (await_call (Subscribe (''node/'' @ py_format rep i @ ''/resources'')) (CheckSubscribed r)))
       else bind (mapped_id i) (\<lambda>u. bind (get_node u) seen_now))))"

text \<open>The characters of a text, as UTF-8 sequences.\<close>

function utf8_chars :: "string \<Rightarrow> string list" where
  "utf8_chars [] = []"
| "utf8_chars (c # s) = (c # takeWhile continuation s) # utf8_chars (dropWhile continuation s)"
  by pat_completeness auto
termination by (relation "measure length") (auto simp: le_imp_less_Suc length_dropWhile_le)

definition py_iter :: "json \<Rightarrow> exn + json list" where
  "py_iter v =
     (case v of
        JList vs \<Rightarrow> Inr vs
      | JObj kvs \<Rightarrow> Inr (map (\<lambda>(k, _). JStr k) kvs)
      | JStr s \<Rightarrow> Inr (map JStr (utf8_chars s))
      | _ \<Rightarrow> Inl TypeError)"

definition subscribe_next :: "(json \<Rightarrow> string) \<Rightarrow> string \<Rightarrow> json list \<Rightarrow> (mqtt_gateway, unit) py" where
  "subscribe_next rep node_id names =
     (case names of
        [] \<Rightarrow> await_call (Publish (''gateway/'' @ node_id @ ''/discover'') (JStr ''values'')) Finishing
      | resource # rest \<Rightarrow>
          await_call (Subscribe (''node/'' @ node_id @ ''/'' @ py_format rep resource)) (Subscribing node_id rest))"

definition handle_node_resources :: "(json \<Rightarrow> string) \<Rightarrow> string \<Rightarrow> json \<Rightarrow> (mqtt_gateway, unit) py" where
  "handle_node_resources rep topic data =
     (let node_id = split_on CHR ''/'' topic ! 1 in
      bind (gets id_mapping) (\<lambda>m.
      bind (lift (in_keys (JStr node_id) m)) (\<lambda>known.
        if \<not> known then ret ()
        else bind (lift (py_iter data)) (subscribe_next rep node_id))))"

definition split_topic :: "string \<Rightarrow> exn + (string \<times> string)" where
  "split_topic topic =
     (case split_on CHR ''/'' topic of [_, node_id, resource] \<Rightarrow> Inr (node_id, resource) | _ \<Rightarrow> Inl ValueError)"

definition handle_node_update :: "string \<Rightarrow> json \<Rightarrow> (mqtt_gateway, unit) py" where
  "handle_node_update topic data =
     bind (lift (split_topic topic)) (\<lambda>(node_id, resource).
     bind (lift (py_getitem data ''value'')) (\<lambda>v.
     bind (mapped_id (JStr node_id)) (\<lambda>u.
     bind (has_node u) (\<lambda>present.
       if \<not> present then ret ()
       else bind (mapped_id (JStr node_id)) (\<lambda>u. bind (get_node u) (\<lambda>r.
            forward_data_from_node r (JStr resource) v))))))"

definition on_connect :: "(mqtt_gateway, unit) py" where
  "on_connect = mqtt_request (Subscribe ''node/check'')"

text \<open>
  \<open>json.loads\<close> of the bytes of a payload: they are decoded first, without a byte order mark.  The
  encodings UTF-16 and UTF-32, which \<open>json.loads\<close> would detect, and encoded surrogates are refused
  here.
\<close>

definition loads_bytes :: "(string \<Rightarrow> string) \<Rightarrow> string \<Rightarrow> exn + json" where
  "loads_bytes fl b =
     (let s = (if starts_with byte_order_mark b then drop (length byte_order_mark) b else b) in
      case decode_utf8 s of Inl e \<Rightarrow> Inl e | Inr t \<Rightarrow> loads fl t)"

definition mqtt_on_message :: "(string \<Rightarrow> string) \<Rightarrow> string \<Rightarrow> string \<Rightarrow> (mqtt_gateway, unit) py" where
  "mqtt_on_message fl topic payload =
     (case loads_bytes fl payload of
        Inl _ \<Rightarrow> ret ()
      | Inr data \<Rightarrow>
          if ends_with ''/check'' topic then create_task (StartCheck data)
          else if ends_with ''/resources'' topic then create_task (StartResources topic data)
          else handle_node_update topic data)"

section \<open>Timers and shutdown\<close>

definition request_alive :: "exn + unit \<Rightarrow> (mqtt_gateway, unit) py" where
  "request_alive as_task = publish_task as_task ''gateway/check'' (JStr [])"

definition pop_id :: "json \<Rightarrow> (mqtt_gateway, unit) py" where
  "pop_id i =
     bind (mapped_id i) (\<lambda>_. modify (\<lambda>s. s\<lparr>id_mapping := dict_del (id_mapping s) (canon i)\<rparr>))"

definition mqtt_drop_node :: "nat \<Rightarrow> (mqtt_gateway, unit) py" where
  "mqtt_drop_node r =
     seq (create_task (StartDisconnect r))
     (bind (node_id_of r) (\<lambda>i. seq (pop_id i) (remove_node r)))"

definition mqtt_check_dead_nodes :: "coap_options \<Rightarrow> (mqtt_gateway, unit) py" where
  "mqtt_check_dead_nodes opts =
     bind (gets (\<lambda>s. filter (is_dead opts s) (map snd (nodes s)))) (\<lambda>to_remove.
       for_each to_remove mqtt_drop_node)"

text \<open>
  The loop iterates over the node's dictionary while it awaits: an iteration step after a
  resource has been added raises \<open>RuntimeError\<close> (resources are never removed).
\<close>

definition unsubscribe_next :: "(json \<Rightarrow> string) \<Rightarrow> nat \<Rightarrow> json \<Rightarrow> nat \<Rightarrow> json list \<Rightarrow> (mqtt_gateway, unit) py" where
  "unsubscribe_next rep r i n names =
     bind (get_object r) (\<lambda>a.
       if length (resources a) \<noteq> n then raise RuntimeError
       else (case names of
          [] \<Rightarrow> ret ()
        | resource # rest \<Rightarrow>
            await_call (Unsubscribe (''node/'' @ py_format rep i @ ''/'' @ py_format rep resource))
              (Unsubscribing r i n rest)))"

definition unsubscribe_rest :: "(json \<Rightarrow> string) \<Rightarrow> nat \<Rightarrow> json \<Rightarrow> (mqtt_gateway, unit) py" where
  "unsubscribe_rest rep r i =
     bind (get_object r) (\<lambda>a. unsubscribe_next rep r i (length (resources a)) (map fst (resources a)))"

definition disconnect_from_node :: "(json \<Rightarrow> string) \<Rightarrow> nat \<Rightarrow> (mqtt_gateway, unit) py" where
  "disconnect_from_node rep r =
     bind (node_id_of r) (\<lambda>i.
       await_call (Unsubscribe (''node/'' @ py_format rep i @ ''/resource'')) (UnsubscribeRest r i))"

text \<open>
  \<open>_disconnect\<close> iterates over the uids and uses each as a node: \<open>AttributeError\<close> unless the
  cache is empty.
\<close>

definition mqtt_disconnect :: "(mqtt_gateway, unit) py" where
  "mqtt_disconnect =
     bind (gets nodes) (\<lambda>ns.
       if ns \<noteq> [] then raise AttributeError else await_call Disconnect Finishing)"

section \<open>Events\<close>

definition mqtt_resume ::
  "(json \<Rightarrow> string) \<Rightarrow> mqtt_task \<Rightarrow> string \<Rightarrow> exn + unit \<Rightarrow> (mqtt_gateway, unit) py" where
  "mqtt_resume rep task uuid outcome =
     (case task of
        StartCheck data \<Rightarrow> handle_node_check rep uuid data
      | StartResources topic data \<Rightarrow> handle_node_resources rep topic data
      | StartDisconnect r \<Rightarrow> disconnect_from_node rep r
      | CheckSubscribed r \<Rightarrow> lift outcome
      | Subscribing node_id rest \<Rightarrow> seq (lift outcome) (subscribe_next rep node_id rest)
      | UnsubscribeRest r i \<Rightarrow> seq (lift outcome) (unsubscribe_rest rep r i)
      | Unsubscribing r i n rest \<Rightarrow> seq (lift outcome) (unsubscribe_next rep r i n rest)
      | Finishing \<Rightarrow> lift outcome)"

datatype mqtt_event =
    MqttBase gateway_event
  | MqttConnected
  | MqttMessage string string
  | MqttTask nat string "exn + unit"
  | MqttAliveTimer
  | MqttCleanup
  | MqttClose

fun mqtt_handle ::
  "(string \<Rightarrow> string) \<Rightarrow> (json \<Rightarrow> string) \<Rightarrow> fernet \<Rightarrow> keys \<Rightarrow> coap_options \<Rightarrow> exn + unit \<Rightarrow>
   mqtt_event \<Rightarrow> (mqtt_gateway, unit) py" where
  "mqtt_handle fl rep enc ks opts as_task (MqttBase ev) = gateway_handle fl enc ks (mqtt_await_update rep as_task) ev"
| "mqtt_handle fl rep enc ks opts as_task MqttConnected = on_connect"
| "mqtt_handle fl rep enc ks opts as_task (MqttMessage topic payload) = mqtt_on_message fl topic payload"
| "mqtt_handle fl rep enc ks opts as_task (MqttTask tid uuid outcome) =
     bind (gets (\<lambda>s. dict_get (mqtt_tasks s) tid)) (\<lambda>found.
       case found of
         None \<Rightarrow> ret ()
       | Some task \<Rightarrow>
           seq (modify (\<lambda>s. s\<lparr>mqtt_tasks := dict_del (mqtt_tasks s) tid\<rparr>)) (mqtt_resume rep task uuid outcome))"
| "mqtt_handle fl rep enc ks opts as_task MqttAliveTimer = request_alive as_task"
| "mqtt_handle fl rep enc ks opts as_task MqttCleanup = mqtt_check_dead_nodes opts"
| "mqtt_handle fl rep enc ks opts as_task MqttClose = mqtt_disconnect"

fun mqtt_enabled :: "mqtt_event \<Rightarrow> mqtt_gateway \<Rightarrow> bool" where
  "mqtt_enabled (MqttBase ev) s \<longleftrightarrow> gateway_enabled ev s"
| "mqtt_enabled (MqttTask tid _ _) s \<longleftrightarrow> dict_has (mqtt_tasks s) tid"
| "mqtt_enabled _ s \<longleftrightarrow> True"

end
