(* ===== verification/Gateway_Mute.thy ===== *)
theory Gateway_Mute
  imports Gateway_View
begin

text \<open>
  A gateway that never caches a node: \<open>mute\<close> states have an empty cache and have told the
  broker nothing but that the gateway is alive.  The shared operations keep a gateway mute,
  because all of them but \<open>add_node\<close> act on cached nodes only.
\<close>

section \<open>Nothing is ever announced\<close>

definition mute :: "'a gateway_scheme \<Rightarrow> bool" where
  "mute s \<longleftrightarrow> nodes s = [] \<and> set (outbox s) \<subseteq> {gateway_alive}"

definition stays_mute :: "'a gateway_scheme \<Rightarrow> 'a gateway_scheme \<Rightarrow> bool" where
  "stays_mute s t \<longleftrightarrow> (mute s \<longrightarrow> mute t)"

interpretation muted: state_preorder "stays_mute"
  by unfold_locales (auto simp: stays_mute_def)

lemma muteI: "mute s \<Longrightarrow> nodes t = nodes s \<Longrightarrow> outbox t = outbox s \<Longrightarrow> mute t"
  by (simp add: mute_def)

named_theorems mute_keeps \<open>operations under which a mute gateway stays mute\<close>

lemmas mute_rules = muted.upholds_rules

lemma mute_basic [mute_keeps]:
  "muted.upholds (new_object u res)" "muted.upholds (get_object r)" "muted.upholds (set_object r a)"
  "muted.upholds (seen_now r)" "muted.upholds send_alive" "muted.upholds close_client"
  by (auto simp: muted.upholds_def stays_mute_def mute_def new_object_def get_object_def set_object_def
      seen_now_def send_alive_def send_to_broker_def close_client_def py_run split: option.splits link.splits)

text \<open>Whatever needs a cached node stops, or does nothing, on a mute gateway.\<close>

lemma mute_get_node: "nodes s = [] \<Longrightarrow> get_node u s = (Inl KeyError, s)"
  by (simp add: get_node_def py_run)

lemma mute_get_node_bind [mute_keeps]: "muted.upholds (bind (get_node u) f)"
proof (rule muted.upholdsI)
  fix s
  show "stays_mute s (snd (bind (get_node u) f s))"
  proof (cases "nodes s = []")
    case True
    then show ?thesis by (simp add: bind_run mute_get_node muted.refl_state)
  qed (simp add: stays_mute_def mute_def)
qed

lemma mute_each_node [mute_keeps]:
  "muted.upholds (bind (gets (\<lambda>s. filter (P s) (map snd (nodes s)))) (\<lambda>rs. for_each rs f))"
  by (rule muted.upholdsI) (auto simp: stays_mute_def mute_def py_run)

lemma mute_fetch [mute_keeps]: "muted.upholds (fetch_nodes_cache client)"
  by (rule muted.upholdsI) (auto simp: fetch_nodes_cache_def stays_mute_def mute_def py_run)

lemma mute_update_named [mute_keeps]: "muted.upholds (update_named upd data)"
proof -
  have named: "muted.upholds (bind (node_named u) (\<lambda>found.
      case found of Some r \<Rightarrow> upd r k v | None \<Rightarrow> ret Done))" for u k v
    by (rule muted.upholdsI) (auto simp: node_named_def stays_mute_def mute_def py_run)
  show ?thesis
    unfolding update_named_def by (intro muted.upholds_bind muted.upholds_lift named)
qed

lemma mute_broker_message [mute_keeps]: "muted.upholds (on_broker_message fl upd m)"
  unfolding on_broker_message_def by (intro mute_rules mute_keeps)

lemma mute_in_loop [mute_keeps]:
  assumes "muted.upholds m"
  shows "muted.upholds (in_loop m)"
proof (rule muted.upholdsI)
  fix s
  show "stays_mute s (snd (in_loop m s))"
    using muted.upholdsD [OF assms, of s]
    by (cases "m s") (auto simp: in_loop_def stays_mute_def mute_def split: sum.splits)
qed

lemma mute_gateway [mute_keeps]: "muted.upholds (gateway_handle fl enc ks upd ev)"
proof -
  have m: "muted.upholds (modify f)" if "\<And>s. nodes (f s) = nodes s \<and> outbox (f s) = outbox s" for f
    using that by (intro muted.upholds_modify) (auto simp: stays_mute_def mute_def)
  show ?thesis
  proof (cases ev)
    case (BrokerConnection outcome)
    then show ?thesis
      by (cases "connect_outcome enc ks outcome")
        (auto simp: connection_made_def stays_mute_def mute_def intro!: mute_keeps mute_rules)
  next
    case (BrokerMessage m')
    then show ?thesis by (auto simp: message_read_def intro!: mute_keeps mute_rules)
  qed (auto simp: message_read_def intro!: mute_keeps mute_rules m)
qed

lemma mute_extension:
  "(\<And>s. nodes (f s) = nodes s \<and> outbox (f s) = outbox s) \<Longrightarrow> muted.upholds (modify f)"
  by (intro muted.upholds_modify) (auto simp: stays_mute_def mute_def)

end
