(* ===== verification/Mqtt_Properties.thy ===== *)
theory Mqtt_Properties
  imports Mqtt_Gateway Gateway_Mute
begin

text \<open>
  What the MQTT gateway does.  Since \<open>handle_node_check\<close> calls the coroutine \<open>add_node\<close> without
  awaiting it, no node ever enters the cache: the gateway is mute in every reachable state.  The calls that
  a list of resources leads to are given for every way the awaits of the MQTT client can end.
\<close>

section \<open>The contract of the shared operations\<close>

lemma mqtt_grows [cache_keeps]:
  "cache.upholds fl (mqtt_request c)" "cache.upholds fl (create_task task)"
  unfolding mqtt_request_def create_task_def
  by (intro cache.upholds_modify; simp add: grows_def gateway_ok_def same_connection_def)+

lemma mqtt_calls_grow [cache_keeps]:
  "cache.upholds fl (await_call c task)" "cache.upholds fl (publish_task as_task topic payload)"
  "cache.upholds fl (node_id_of r)"
  unfolding await_call_def publish_task_def node_id_of_def by (intro cache_rules cache_keeps)+

lemma mqtt_methods_grow:
  "cache.upholds fl (mqtt_discover_node rep r)" "cache.upholds fl (mqtt_await_update rep as_task r k v)"
  unfolding mqtt_discover_node_def mqtt_await_update_def mqtt_update_node_resource_def
  by (intro cache_rules cache_keeps)+

interpretation mqtt: gateway_protocol fl mqtt_protocol "mqtt_discover_node rep" "\<lambda>_. ret ()" "mqtt_await_update rep as_task"
  by unfold_locales (intro mqtt_methods_grow cache.upholds_ret)+

section \<open>The gateway is mute\<close>

lemma mqtt_mute [mute_keeps]:
  "muted.upholds (mqtt_request c)" "muted.upholds (create_task task)"
  "muted.upholds (modify (\<lambda>s. s\<lparr>id_mapping := f s\<rparr>))" "muted.upholds (modify (\<lambda>s. s\<lparr>mqtt_tasks := g s\<rparr>))"
  unfolding mqtt_request_def create_task_def by (intro mute_extension; simp)+

lemma mqtt_calls_mute [mute_keeps]:
  "muted.upholds (await_call c task)" "muted.upholds (publish_task as_task topic payload)"
  "muted.upholds (node_id_of r)" "muted.upholds (mapped_id i)"
  unfolding await_call_def publish_task_def node_id_of_def mapped_id_def
  by (intro mute_rules mute_keeps)+

lemma mute_has_node: "muted.upholds (bind (has_node u) (\<lambda>present. if \<not> present then ret () else m))"
  by (rule muted.upholdsI) (auto simp: has_node_def stays_mute_def mute_def py_run)

lemma mqtt_handlers_mute [mute_keeps]:
  "muted.upholds (handle_node_check rep uuid data)"
  "muted.upholds (handle_node_update topic data)"
  "muted.upholds (mqtt_check_dead_nodes opts)"
  "muted.upholds (disconnect_from_node rep r)"
  "muted.upholds mqtt_disconnect"
  unfolding handle_node_check_def handle_node_update_def mqtt_check_dead_nodes_def disconnect_from_node_def
    mqtt_disconnect_def
  by (intro mute_rules mute_keeps mute_has_node)+

lemma mqtt_next_mute [mute_keeps]: "muted.upholds (subscribe_next rep i xs)"
  by (cases xs; auto simp: subscribe_next_def intro!: mute_keeps mute_rules)

lemma mqtt_loops_mute [mute_keeps]: "muted.upholds (unsubscribe_next rep r j n xs)"
proof -
  have "muted.upholds (case xs of [] \<Rightarrow> ret ()
      | resource # rest \<Rightarrow> await_call (c resource) (task resource rest))" for c task
    by (cases xs; auto intro!: mute_keeps mute_rules)
  then show ?thesis unfolding unsubscribe_next_def by (intro mute_rules mute_keeps)
qed

lemma mqtt_rest_mute [mute_keeps]: "muted.upholds (unsubscribe_rest rep r j)"
  unfolding unsubscribe_rest_def by (intro mute_rules mute_keeps)

lemma mqtt_resources_mute [mute_keeps]: "muted.upholds (handle_node_resources rep topic data)"
  unfolding handle_node_resources_def Let_def by (intro mute_rules mute_keeps)

lemma mqtt_handle_mute: "muted.upholds (mqtt_handle fl rep enc ks opts as_task ev)"
proof (cases ev)
  case (MqttMessage topic payload)
  then show ?thesis
    by (cases "loads_bytes fl payload") (auto simp: mqtt_on_message_def intro!: mute_keeps mute_rules)
next
  case (MqttTask i uuid outcome)
  have "muted.upholds (mqtt_resume rep task uuid outcome)" for task
    by (cases task) (auto simp: mqtt_resume_def intro!: mute_keeps mute_rules)
  with MqttTask show ?thesis by (auto intro!: mute_keeps mute_rules)
qed (auto simp: on_connect_def request_alive_def intro!: mute_keeps mute_rules)

interpretation mqtt_service:
  service "mqtt_handle fl rep enc ks opts as_task" mqtt_enabled "mqtt_init now" mute
proof unfold_locales
  show "mute (mqtt_init now)"
    by (simp add: mute_def mqtt_init_def gateway_init_def gateway.defs)
  fix s :: mqtt_gateway and ev
  assume "mute s"
  then show "mute (snd (mqtt_handle fl rep enc ks opts as_task ev s))"
    using muted.upholdsD [OF mqtt_handle_mute] unfolding stays_mute_def by blast
qed

section \<open>Properties\<close>

lemma loads_bytes_ascii:
  assumes "loads fl s = Inr v" and "list_all (byte_in 0 126) s"
  shows "loads_bytes fl s = Inr v"
proof -
  have "utf8_valid s" using assms(2) by (induction s) (auto simp: byte_in_def)
  moreover have "\<not> starts_with byte_order_mark s"
    using assms(2) by (cases s) (auto simp: starts_with_def byte_order_mark_def byte_in_def)
  ultimately show ?thesis using assms(1) by (simp add: loads_bytes_def decode_utf8_def)
qed

text \<open>
  C34: The MQTT gateway never announces a node: in every state it can reach, whatever its nodes
  publish, its cache is empty and the only text it has ever written to the broker is that it is
  alive, because \<open>handle_node_check\<close> calls \<open>add_node\<close> without awaiting it.
\<close>

theorem mqtt_announces_nothing:
  assumes "reachable (mqtt_handle fl rep enc ks opts as_task) mqtt_enabled (mqtt_init now) s"
  shows "nodes s = [] \<and> set (outbox s) \<subseteq> {gateway_alive}"
  using mqtt_service.reachable_good [OF assms] by (simp add: mute_def)

text \<open>A node that checks in for the first time.\<close>

definition first_check :: "mqtt_event list" where
  "first_check = [MqttMessage ''node/check'' (serialize (JObj [(''id'', JStr ''n1'')])), MqttTask 0 ''u1'' (Inr ())]"

lemma first_check_reachable:
  "reachable (mqtt_handle id rep enc ks opts as_task) mqtt_enabled (mqtt_init 0)
     (run_events (mqtt_handle id rep enc ks opts as_task) (mqtt_init 0) first_check)"
  and first_check_mapping:
  "id_mapping (run_events (mqtt_handle id rep enc ks opts as_task) (mqtt_init 0) first_check) = [(JStr ''n1'', ''u1'')]"
proof -
  let ?H = "mqtt_handle id rep enc ks opts as_task"
  have l: "loads_bytes id (serialize (JObj [(''id'', JStr ''n1'')])) = Inr (JObj [(''id'', JStr ''n1'')])"
    by (rule loads_bytes_ascii [OF serialize_read]) (simp_all add: serialize_def dumps_str_def escape_char_def byte_in_def)
  have "ends_with ''/check'' ''node/check''" by (simp add: ends_with_def)
  then have s1: "snd (?H (MqttMessage ''node/check'' (serialize (JObj [(''id'', JStr ''n1'')]))) (mqtt_init 0))
      = mqtt_init 0\<lparr>mqtt_tasks := [(0, StartCheck (JObj [(''id'', JStr ''n1'')]))], mqtt_next := 1\<rparr>"
    using l by (simp add: mqtt_on_message_def create_task_def mqtt_init_def gateway_init_def gateway.defs py_run)
  show "reachable ?H mqtt_enabled (mqtt_init 0) (run_events ?H (mqtt_init 0) first_check)"
    by (rule reachable_run [OF reach_start]) (use s1 in \<open>simp add: first_check_def\<close>)
  show "id_mapping (run_events ?H (mqtt_init 0) first_check) = [(JStr ''n1'', ''u1'')]"
    using s1 by (simp add: first_check_def mqtt_resume_def handle_node_check_def py_getitem_def in_keys_def
        hashable_def new_object_def await_call_def mqtt_request_def create_task_def mqtt_init_def
        gateway_init_def gateway.defs py_run)
qed

theorem mqtt_announces_nothing_witness:
  "\<exists>s :: mqtt_gateway. id_mapping s = [(JStr ''n1'', ''u1'')] \<and> nodes s = [] \<and> set (outbox s) \<subseteq> {gateway_alive}"
  using mqtt_announces_nothing [OF first_check_reachable] first_check_mapping by blast

text \<open>
  A node's first check makes the gateway give it a uid and subscribe to its resources; every
  later check of the same node, which should refresh its time stamp, raises \<open>KeyError\<close> in every
  state the gateway can reach and changes nothing.
\<close>

theorem mqtt_checks:
  assumes "reachable (mqtt_handle fl rep enc ks opts as_task) mqtt_enabled (mqtt_init now) s"
    and "hashable i"
  shows "(\<not> dict_has (id_mapping s) (canon i) \<longrightarrow>
      (\<exists>t. handle_node_check rep uuid (JObj [(''id'', i)]) s = (Inr (), t)
        \<and> dict_get (id_mapping t) (canon i) = Some uuid \<and> nodes t = []
        \<and> calls t = calls s @ [Subscribe (''node/'' @ py_format rep i @ ''/resources'')]
        \<and> mqtt_tasks t = mqtt_tasks s @ [(mqtt_next s, CheckSubscribed (fresh s))]))
    \<and> (dict_has (id_mapping s) (canon i) \<longrightarrow>
        handle_node_check rep uuid (JObj [(''id'', i)]) s = (Inl KeyError, s))"
proof -
  have "nodes s = []" using mqtt_service.reachable_good [OF assms(1)] by (simp add: mute_def)
  then show ?thesis
    using assms(2)
    by (auto simp: handle_node_check_def py_getitem_def in_keys_def new_object_def await_call_def
        mqtt_request_def create_task_def dict_get_put mapped_id_def key_item_def dict_has_def
        get_node_def py_run)
qed

theorem mqtt_checks_witness:
  "\<exists>s :: mqtt_gateway. id_mapping s = [(JStr ''n1'', ''u1'')]
     \<and> handle_node_check (\<lambda>_. []) ''u2'' (JObj [(''id'', JStr ''n1'')]) s = (Inl KeyError, s)"
proof -
  let ?s = "run_events (mqtt_handle id (\<lambda>_. []) toy_enc \<lparr>private_key = ''k'', secret_key = ''s''\<rparr>
    \<lparr>interface = None, max_time = 120\<rparr> (Inr ())) (mqtt_init 0) first_check"
  have "hashable (JStr ''n1'')" by (simp add: hashable_def)
  from mqtt_checks [OF first_check_reachable this, of "\<lambda>_. []"
      toy_enc "\<lparr>private_key = ''k'', secret_key = ''s''\<rparr>" "\<lparr>interface = None, max_time = 120\<rparr>" "Inr ()" "''u2''"]
  show ?thesis using first_check_mapping by (intro exI [of _ ?s]) simp
qed

text \<open>The coroutine of a message is resumed with the results of its calls, one after the other.\<close>

fun task_outcomes :: "nat \<Rightarrow> (exn + unit) list \<Rightarrow> mqtt_event list" where
  "task_outcomes n [] = []"
| "task_outcomes n (oc # ocs) = MqttTask n [] oc # task_outcomes (Suc n) ocs"

abbreviation returns :: "exn + unit \<Rightarrow> bool" where
  "returns oc \<equiv> oc = Inr ()"

definition mqtt_numbered :: "mqtt_gateway \<Rightarrow> bool" where
  "mqtt_numbered s \<longleftrightarrow> (\<forall>(i, task) \<in> set (mqtt_tasks s). i < mqtt_next s)"

lemma mqtt_last_task:
  assumes "mqtt_numbered s"
  shows "mqtt_handle fl rep enc ks opts as_task (MqttTask (mqtt_next s) uuid outcome)
      (s\<lparr>mqtt_tasks := mqtt_tasks s @ [(mqtt_next s, task)], mqtt_next := Suc (mqtt_next s), calls := c\<rparr>) =
    mqtt_resume rep task uuid outcome (s\<lparr>mqtt_next := Suc (mqtt_next s), calls := c\<rparr>)"
proof -
  have "mqtt_next s \<notin> fst ` set (mqtt_tasks s)" using assms by (auto simp: mqtt_numbered_def)
  then show ?thesis
    by (simp add: bind_gets seq_modify dict_get_last dict_del_last del: map_of_append)
qed

lemma await_call_run:
  "await_call c task s = (Inr (), s\<lparr>mqtt_tasks := mqtt_tasks s @ [(mqtt_next s, task)],
     mqtt_next := Suc (mqtt_next s), calls := calls s @ [c]\<rparr>)"
  by (simp add: await_call_def mqtt_request_def create_task_def py_run)

lemma no_such_task:
  assumes "\<And>i task. (i, task) \<in> set (mqtt_tasks s) \<Longrightarrow> i < n"
  shows "run_events (mqtt_handle fl rep enc ks opts as_task) s (task_outcomes n ocs) = s"
  using assms
proof (induction ocs arbitrary: n)
  case (Cons oc ocs)
  have "n \<notin> fst ` set (mqtt_tasks s)" using Cons.prems by fastforce
  then have "snd (mqtt_handle fl rep enc ks opts as_task (MqttTask n [] oc) s) = s"
    by (simp add: bind_gets map_of_eq_None_iff [THEN iffD2] ret_def)
  moreover have "run_events (mqtt_handle fl rep enc ks opts as_task) s (task_outcomes (Suc n) ocs) = s"
    by (rule Cons.IH) (use Cons.prems less_Suc_eq in blast)
  ultimately show ?case by simp
qed simp

definition subscriptions_of :: "(json \<Rightarrow> string) \<Rightarrow> string \<Rightarrow> json list \<Rightarrow> mqtt_call list" where
  "subscriptions_of rep i names = map (\<lambda>v. Subscribe (''node/'' @ i @ ''/'' @ py_format rep v)) names
     @ [Publish (''gateway/'' @ i @ ''/discover'') (JStr ''values'')]"

text \<open>The calls that are made when the awaits end as \<open>ocs\<close> says: one more than the awaits that return.\<close>

definition calls_made :: "(exn + unit) list \<Rightarrow> mqtt_call list \<Rightarrow> mqtt_call list" where
  "calls_made ocs cs = take (Suc (length (takeWhile returns ocs))) cs"

lemma calls_made_simps:
  "calls_made [] (c # cs) = [c]"
  "calls_made (oc # ocs) (c # cs) = c # (if returns oc then calls_made ocs cs else [])"
  by (simp_all add: calls_made_def)

lemma subscribe_run:
  assumes "mqtt_numbered s"
  shows "calls (run_events (mqtt_handle fl rep enc ks opts as_task) (snd (subscribe_next rep i names s))
      (task_outcomes (mqtt_next s) ocs)) = calls s @ calls_made ocs (subscriptions_of rep i names)"
  using assms
proof (induction names arbitrary: s ocs)
  case Nil
  show ?case
  proof (cases ocs)
    case (Cons oc ocs')
    have "run_events (mqtt_handle fl rep enc ks opts as_task) t (task_outcomes (Suc (mqtt_next s)) ocs') = t"
      if "mqtt_tasks t = mqtt_tasks s" for t
      by (rule no_such_task) (use Nil that in \<open>auto simp: mqtt_numbered_def less_Suc_eq\<close>)
    then show ?thesis
      using mqtt_last_task [OF Nil] Cons
      by (simp add: subscribe_next_def await_call_run mqtt_resume_def lift_run subscriptions_of_def
          calls_made_simps calls_made_def del: mqtt_handle.simps)
  qed (simp add: subscribe_next_def await_call_run subscriptions_of_def calls_made_simps)
next
  case (Cons v names)
  let ?s = "s\<lparr>mqtt_next := Suc (mqtt_next s), calls := calls s @ [Subscribe (''node/'' @ i @ ''/'' @ py_format rep v)]\<rparr>"
  have n: "mqtt_numbered ?s" using Cons.prems by (auto simp: mqtt_numbered_def)
  have names: "subscriptions_of rep i (v # names)
      = Subscribe (''node/'' @ i @ ''/'' @ py_format rep v) # subscriptions_of rep i names"
    by (simp add: subscriptions_of_def)
  show ?case
  proof (cases ocs)
    case outcomes: (Cons oc ocs')
    have late: "run_events (mqtt_handle fl rep enc ks opts as_task) ?s (task_outcomes (Suc (mqtt_next s)) ocs') = ?s"
      by (rule no_such_task) (use Cons.prems in \<open>auto simp: mqtt_numbered_def less_Suc_eq\<close>)
    show ?thesis
    proof (cases oc)
      case (Inl e)
      then show ?thesis
        using mqtt_last_task [OF Cons.prems] late outcomes
        by (simp add: subscribe_next_def await_call_run mqtt_resume_def names calls_made_simps lift_run py_run
            del: mqtt_handle.simps)
    next
      case (Inr u)
      then show ?thesis
        using mqtt_last_task [OF Cons.prems] Cons.IH [OF n, of ocs'] outcomes
        by (simp add: subscribe_next_def await_call_run mqtt_resume_def names calls_made_simps
            seq_first [where m = "lift (Inr ())"] lift_run del: mqtt_handle.simps)
    qed
  qed (simp add: subscribe_next_def await_call_run names calls_made_simps)
qed

lemma topic_node: "CHR ''/'' \<notin> set i \<Longrightarrow> split_on CHR ''/'' (''node/'' @ i @ ''/resources'') ! 1 = i"
  by (simp add: split_on_append)

lemma resources_subscribed_run:
  assumes "mqtt_numbered s" and "CHR ''/'' \<notin> set i" and "loads_bytes fl payload = Inr (JList names)"
  shows "calls (run_events (mqtt_handle fl rep enc ks opts as_task) s
      (MqttMessage (''node/'' @ i @ ''/resources'') payload # MqttTask (mqtt_next s) uuid (Inr ())
        # task_outcomes (Suc (mqtt_next s)) ocs)) =
    calls s @ (if dict_has (id_mapping s) (JStr i) then calls_made ocs (subscriptions_of rep i names) else [])"
proof -
  define T where "T = ''node/'' @ i @ ''/resources''"
  let ?H = "mqtt_handle fl rep enc ks opts as_task"
  have ends: "\<not> ends_with ''/check'' T" "ends_with ''/resources'' T"
    by (simp_all add: ends_with_def T_def)
  have n: "mqtt_next s \<notin> fst ` set (mqtt_tasks s)" using assms(1) by (auto simp: mqtt_numbered_def)
  let ?s1 = "s\<lparr>mqtt_tasks := mqtt_tasks s @ [(mqtt_next s, StartResources T (JList names))], mqtt_next := Suc (mqtt_next s)\<rparr>"
  let ?s2 = "s\<lparr>mqtt_next := Suc (mqtt_next s)\<rparr>"
  have s2: "mqtt_numbered ?s2" using assms(1) by (auto simp: mqtt_numbered_def)
  have first: "snd (?H (MqttMessage T payload) s) = ?s1"
    using assms(3) ends by (simp add: mqtt_on_message_def create_task_def py_run)
  have second: "?H (MqttTask (mqtt_next s) uuid outcome) ?s1 = handle_node_resources rep T (JList names) ?s2" for outcome
    using n by (simp add: bind_gets seq_modify dict_get_last dict_del_last mqtt_resume_def del: map_of_append)
  have keys: "in_keys (JStr i) (id_mapping s) = Inr (dict_has (id_mapping s) (JStr i))"
    by (simp add: in_keys_def hashable_def)
  have start: "run_events ?H s (MqttMessage T payload # MqttTask (mqtt_next s) uuid (Inr ()) # evs)
      = run_events ?H (snd (handle_node_resources rep T (JList names) ?s2)) evs" for evs
    by (simp only: run_events.simps first second)
  show ?thesis
  proof (cases "dict_has (id_mapping s) (JStr i)")
    case True
    then have "handle_node_resources rep T (JList names) ?s2 = subscribe_next rep i names ?s2"
      using keys topic_node [OF assms(2), folded T_def]
      by (simp add: handle_node_resources_def bind_gets py_iter_def Let_def)
    then show ?thesis
      using True start subscribe_run [OF s2, of fl rep enc ks opts as_task i names ocs] unfolding T_def [symmetric]
      by (simp del: run_events.simps)
  next
    case False
    then have "handle_node_resources rep T (JList names) ?s2 = (Inr (), ?s2)"
      using keys topic_node [OF assms(2), folded T_def]
      by (simp add: handle_node_resources_def bind_gets Let_def py_run)
    moreover have "run_events ?H ?s2 (task_outcomes (Suc (mqtt_next s)) ocs) = ?s2"
      by (rule no_such_task) (use assms(1) in \<open>auto simp: mqtt_numbered_def less_Suc_eq\<close>)
    ultimately show ?thesis
      using False start unfolding T_def [symmetric] by (simp del: run_events.simps)
  qed
qed

text \<open>
  When a known node lists its resources, the gateway calls the MQTT client for each of them in
  the order of the list and then asks the node for the values, as long as awaiting the results
  returns: after the first call whose result raises when it is awaited there is no other.  A
  list of an unknown node is dropped.
\<close>

theorem mqtt_resources_subscribed:
  assumes "mqtt_numbered s" and "CHR ''/'' \<notin> set i" and "loads_bytes fl payload = Inr (JList names)"
  shows "calls (run_events (mqtt_handle fl rep enc ks opts as_task) s
      (MqttMessage (''node/'' @ i @ ''/resources'') payload # MqttTask (mqtt_next s) uuid (Inr ())
        # task_outcomes (Suc (mqtt_next s)) ocs)) =
    calls s @ (if dict_has (id_mapping s) (JStr i) then calls_made ocs (subscriptions_of rep i names) else [])"
  using assms by (rule resources_subscribed_run)

theorem mqtt_resources_subscribed_witness:
  "calls (run_events (mqtt_handle id (\<lambda>_. []) toy_enc \<lparr>private_key = ''k'', secret_key = ''s''\<rparr>
      \<lparr>interface = None, max_time = 120\<rparr> (Inr ())) (mqtt_init 0\<lparr>id_mapping := [(JStr ''n1'', ''u1'')]\<rparr>)
      (MqttMessage ''node/n1/resources'' (serialize (JList [JStr ''led'', JStr ''time'']))
        # MqttTask 0 [] (Inr ()) # task_outcomes 1 [Inr (), Inr (), Inr ()])) =
    [Subscribe ''node/n1/led'', Subscribe ''node/n1/time'', Publish ''gateway/n1/discover'' (JStr ''values'')]"
proof -
  let ?s = "mqtt_init 0\<lparr>id_mapping := [(JStr ''n1'', ''u1'')]\<rparr>"
  have n: "mqtt_numbered ?s" by (simp add: mqtt_numbered_def mqtt_init_def gateway_init_def gateway.defs)
  have l: "loads_bytes id (serialize (JList [JStr ''led'', JStr ''time''])) = Inr (JList [JStr ''led'', JStr ''time''])"
    by (rule loads_bytes_ascii [OF serialize_read]) (simp_all add: serialize_def dumps_str_def escape_char_def byte_in_def)
  have z: "mqtt_next ?s = 0" "calls ?s = []" by (simp_all add: mqtt_init_def gateway_init_def gateway.defs)
  have topic: "''node/'' @ ''n1'' @ ''/resources'' = ''node/n1/resources''" by simp
  from mqtt_resources_subscribed [OF n _ l, of "''n1''" "\<lambda>_. []" toy_enc
      "\<lparr>private_key = ''k'', secret_key = ''s''\<rparr>" "\<lparr>interface = None, max_time = 120\<rparr>" "Inr ()" "[]"
      "[Inr (), Inr (), Inr ()]"]
  show ?thesis
    unfolding topic z(1) One_nat_def
    by (simp add: z(2) py_format_def calls_made_def subscriptions_of_def del: run_events.simps task_outcomes.simps)
qed

end
