(* ===== verification/Ws_Gateway.thy ===== *)
theory Ws_Gateway
  imports Coap_Gateway Gateway_Mute
begin

text \<open>
  \<open>pyaiot/gateway/ws/gateway.py\<close>: the gateway for nodes that connect by websocket.

  As in the broker, a handler object is a number, \<open>ws_up\<close> says whether its connection accepts
  writes, \<open>ws_sent\<close> and \<open>ws_closed\<close> record what was written and closed.  \<open>open\<close> calls the
  coroutine \<open>add_node\<close> without awaiting it, so nothing of it runs.
\<close>

record ws_gateway = gateway +
  ws_mapping :: "(nat, string) dict"
  ws_up :: "nat \<Rightarrow> bool"
  ws_sent :: "(nat \<times> string) list"
  ws_closed :: "(nat \<times> nat \<times> reason option) list"

definition ws_init :: "int \<Rightarrow> ws_gateway" where
  "ws_init now = gateway.extend (gateway_init now)
     \<lparr>ws_mapping = [], ws_up = (\<lambda>_. False), ws_sent = [], ws_closed = []\<rparr>"

abbreviation ws_protocol :: string where
  "ws_protocol \<equiv> ''WebSocket''"

definition ws_write :: "nat \<Rightarrow> string \<Rightarrow> (ws_gateway, unit) py" where
  "ws_write w m s =
     (if ws_up s w then (Inr (), s\<lparr>ws_sent := ws_sent s @ [(w, m)]\<rparr>) else (Inl WebSocketClosedError, s))"

section \<open>\<open>json.dumps\<close> with its default \<open>ensure_ascii\<close>\<close>

text \<open>
  Every character that is not printable ASCII is written as \<open>\uXXXX\<close>, characters above \<open>FFFF\<close>
  as two surrogates.  Such characters only occur inside the string literals of a JSON text, so
  the text with escapes is the text without them, character by character.
\<close>

definition hex4_of :: "nat \<Rightarrow> string" where
  "hex4_of n = map hex_char [n div 4096 mod 16, n div 256 mod 16, n div 16 mod 16, n mod 16]"

definition unicode_escape :: "nat \<Rightarrow> string" where
  "unicode_escape n =
     (if n < 65536 then [CHR 92, CHR ''u''] @ hex4_of n
      else [CHR 92, CHR ''u''] @ hex4_of (55296 + (n - 65536) div 1024)
         @ [CHR 92, CHR ''u''] @ hex4_of (56320 + (n - 65536) mod 1024))"

text \<open>The code point of a UTF-8 sequence.\<close>

definition code_point :: "string \<Rightarrow> nat" where
  "code_point cs =
     (case map of_char cs :: nat list of
        [a] \<Rightarrow> a
      | [a, b] \<Rightarrow> (a mod 32) * 64 + b mod 64
      | [a, b, c] \<Rightarrow> (a mod 16) * 4096 + (b mod 64) * 64 + c mod 64
      | [a, b, c, d] \<Rightarrow> (a mod 8) * 262144 + (b mod 64) * 4096 + (c mod 64) * 64 + d mod 64
      | _ \<Rightarrow> 65533)"

function ascii_text :: "string \<Rightarrow> string" where
  "ascii_text [] = []"
| "ascii_text (c # s) =
     (if byte_in 0 126 c then c # ascii_text s
      else unicode_escape (code_point (c # takeWhile continuation s)) @ ascii_text (dropWhile continuation s))"
  by pat_completeness auto
termination by (relation "measure length") (auto simp: le_imp_less_Suc length_dropWhile_le)

definition dumps_ascii :: "json \<Rightarrow> string" where
  "dumps_ascii v = ascii_text (dumps v)"

section \<open>The abstract methods\<close>

definition socket_of :: "nat \<Rightarrow> (ws_gateway, nat option) py" where
  "socket_of r = gets (\<lambda>s. map_option fst (find (\<lambda>(w, u). uid (objects s r) = u) (ws_mapping s)))"

definition ws_discover_node :: "nat \<Rightarrow> (ws_gateway, progress) py" where
  "ws_discover_node r =
     bind (socket_of r) (\<lambda>found.
       case found of
         None \<Rightarrow> ret Done
       | Some w \<Rightarrow> seq (ws_write w discover_node_msg) (ret Suspended))"

definition ws_update_node_resource :: "nat \<Rightarrow> json \<Rightarrow> json \<Rightarrow> (ws_gateway, unit) py" where
  "ws_update_node_resource r resource v =
     bind (socket_of r) (\<lambda>found.
       case found of
         None \<Rightarrow> ret ()
       | Some w \<Rightarrow> ws_write w (dumps_ascii (JObj [(''endpoint'', resource), (''payload'', v)])))"

text \<open>The method is a plain function: awaiting its result raises \<open>TypeError\<close>.\<close>

definition ws_await_update :: "nat \<Rightarrow> json \<Rightarrow> json \<Rightarrow> (ws_gateway, progress) py" where
  "ws_await_update r resource v = seq (ws_update_node_resource r resource v) (raise TypeError)"

section \<open>The node sockets\<close>

definition mapped_uid :: "nat \<Rightarrow> (ws_gateway, string) py" where
  "mapped_uid w = bind (gets ws_mapping) (\<lambda>m. lift (or_raise KeyError (dict_get m w)))"

definition py_items :: "json \<Rightarrow> exn + (string \<times> json) list" where
  "py_items v = (case v of JObj kvs \<Rightarrow> Inr kvs | _ \<Rightarrow> Inl AttributeError)"

definition on_node_message :: "nat \<Rightarrow> json \<Rightarrow> (ws_gateway, unit) py" where
  "on_node_message w message =
     bind (lift (py_getitem message ''type'')) (\<lambda>t.
       if t = JStr ''update'' then
         bind (lift (py_getitem message ''data'')) (\<lambda>data.
         bind (lift (py_items data)) (\<lambda>items.
           for_each items (\<lambda>(key, v).
             bind (mapped_uid w) (\<lambda>u. bind (get_node u) (\<lambda>r.
             forward_data_from_node r (JStr key) v)))))
       else ret ())"

definition ws_remove :: "nat \<Rightarrow> (ws_gateway, unit) py" where
  "ws_remove w =
     bind (gets ws_mapping) (\<lambda>m.
       if dict_has m w then
         bind (mapped_uid w) (\<lambda>u. bind (get_node u) (\<lambda>r.
         seq (remove_node r)
         (modify (\<lambda>s. s\<lparr>ws_mapping := dict_del (ws_mapping s) w\<rparr>))))
       else ret ())"

definition ws_open :: "nat \<Rightarrow> string \<Rightarrow> (ws_gateway, unit) py" where
  "ws_open w uuid =
     bind (new_object uuid []) (\<lambda>r. modify (\<lambda>s. s\<lparr>ws_mapping := dict_put (ws_mapping s) w uuid\<rparr>))"

definition ws_close :: "nat \<Rightarrow> nat \<Rightarrow> reason option \<Rightarrow> (ws_gateway, unit) py" where
  "ws_close w code reason =
     modify (\<lambda>s. s\<lparr>ws_closed := ws_closed s @ [(w, code, reason)], ws_up := (ws_up s)(w := False)\<rparr>)"

definition ws_on_message :: "(string \<Rightarrow> string) \<Rightarrow> nat \<Rightarrow> raw \<Rightarrow> (ws_gateway, unit) py" where
  "ws_on_message fl w raw =
     bind (lift (check_message fl raw)) (\<lambda>(message, reason).
       case message of
         Some m \<Rightarrow> on_node_message w m
       | None \<Rightarrow> ws_close w 1003 reason)"

definition ws_on_close :: "nat \<Rightarrow> (ws_gateway, unit) py" where
  "ws_on_close w = ws_remove w"

datatype ws_event =
    WsBase gateway_event
  | NodeOpen nat string
  | NodeMessage nat raw
  | NodeClose nat
  | NodeLost nat

definition ws_set_up :: "nat \<Rightarrow> bool \<Rightarrow> (ws_gateway, unit) py" where
  "ws_set_up w b = modify (\<lambda>s. s\<lparr>ws_up := (ws_up s)(w := b)\<rparr>)"

fun ws_handle ::
  "(string \<Rightarrow> string) \<Rightarrow> fernet \<Rightarrow> keys \<Rightarrow> ws_event \<Rightarrow> (ws_gateway, unit) py" where
  "ws_handle fl enc ks (WsBase ev) = gateway_handle fl enc ks ws_await_update ev"
| "ws_handle fl enc ks (NodeOpen w uuid) = seq (ws_set_up w True) (ws_open w uuid)"
| "ws_handle fl enc ks (NodeMessage w raw) = ws_on_message fl w raw"
| "ws_handle fl enc ks (NodeClose w) = seq (ws_set_up w False) (ws_on_close w)"
| "ws_handle fl enc ks (NodeLost w) = ws_set_up w False"

text \<open>Tornado makes a new handler object for every connection and opens it once.\<close>

fun ws_enabled :: "ws_event \<Rightarrow> ws_gateway \<Rightarrow> bool" where
  "ws_enabled (WsBase ev) s \<longleftrightarrow> gateway_enabled ev s"
| "ws_enabled (NodeOpen w _) s \<longleftrightarrow> \<not> ws_up s w \<and> \<not> dict_has (ws_mapping s) w"
| "ws_enabled (NodeMessage w _) s \<longleftrightarrow> dict_has (ws_mapping s) w"
| "ws_enabled (NodeClose w) s \<longleftrightarrow> dict_has (ws_mapping s) w"
| "ws_enabled (NodeLost w) s \<longleftrightarrow> True"

end
