(* ===== verification/Mqtt_Node.thy ===== *)
theory Mqtt_Node
  imports Mqtt_Properties Ws_Gateway
begin

text \<open>
  \<open>utils/mqtt/mqtt-test-node.py\<close>: the MQTT test node.

  \<open>hbmqtt\<close> is the log of the subscriptions and publications; \<open>deliver_message\<close> is the list of the
  messages that arrive, each a topic and the bytes of its payload.  \<open>create_task\<close> adds a coroutine
  to \<open>scheduled\<close> and raises \<open>TypeError\<close> for anything that is no coroutine, as \<open>asyncio\<close> does.  The
  host name's address and the random readings are arguments.  \<open>LED_VALUE\<close> is assigned in
  \<open>start_client\<close>, where it is a local name, so the value that the resource \<open>led\<close> reports is the
  constant of the module.
\<close>

section \<open>The node\<close>

datatype node_job =
    SendCheck
  | PublishText string string
  | PublishContinuous string string nat

record mqtt_node =
  scheduled :: "node_job list"
  subscriptions :: "string list"
  publications :: "(string \<times> string) list"

definition node_id_text :: string where
  "node_id_text = ''mqtt_test_node''"

definition led_constant :: string where
  "led_constant = ''0''"

text \<open>The readings at the time of a call: the address, the temperature and the pressure.\<close>

type_synonym readings = "string \<times> int \<times> int"

definition node_resources :: "(string \<times> nat) list" where
  "node_resources = [(''name'', 0), (''os'', 0), (''ip'', 0), (''board'', 0), (''led'', 0), (''temperature'', 5), (''pressure'', 10)]"

definition node_value :: "readings \<Rightarrow> string \<Rightarrow> string" where
  "node_value rd res = (case rd of (ip, t, p) \<Rightarrow>
     if res = ''name'' then ''MQTT test node'' else if res = ''os'' then ''riot'' else if res = ''ip'' then ip
     else if res = ''board'' then ''HP'' else if res = ''led'' then led_constant
     else if res = ''temperature'' then int_literal t @ [CHR 0xC2, CHR 0xB0] @ ''C''
     else int_literal p @ ''hPa'')"

definition node_topic :: "string \<Rightarrow> string" where
  "node_topic res = ''node/'' @ node_id_text @ ''/'' @ res"

definition schedule :: "node_job \<Rightarrow> (mqtt_node, unit) py" where
  "schedule j = modify (\<lambda>n. n\<lparr>scheduled := scheduled n @ [j]\<rparr>)"

definition node_publish :: "string \<Rightarrow> string \<Rightarrow> (mqtt_node, unit) py" where
  "node_publish topic v = modify (\<lambda>n. n\<lparr>publications := publications n @ [(topic, v)]\<rparr>)"

definition value_text :: "string \<Rightarrow> json" where
  "value_text v = JObj [(''value'', JStr v)]"

section \<open>Coroutines\<close>

text \<open>One turn of \<open>send_check\<close>.\<close>

definition send_check :: "(mqtt_node, unit) py" where
  "send_check = schedule (PublishText ''node/check'' (dumps_ascii (JObj [(''id'', JStr node_id_text)])))"

text \<open>\<open>send_values\<close> is a plain function and returns \<open>None\<close>.\<close>

definition send_values :: "(mqtt_node, unit) py" where
  "send_values = for_each node_resources (\<lambda>(res, delay). schedule (PublishContinuous (node_topic res) res delay))"

definition answer_discover :: "readings \<Rightarrow> string \<Rightarrow> (mqtt_node, unit) py" where
  "answer_discover rd data =
     (if data = ''resources''
      then schedule (PublishText (node_topic ''resources'') (dumps_ascii (JList (map (JStr \<circ> fst) node_resources))))
      else for_each node_resources (\<lambda>(res, _).
        schedule (PublishText (node_topic res) (dumps_ascii (value_text (node_value rd res))))))"

definition node_message :: "readings \<Rightarrow> string \<Rightarrow> string \<Rightarrow> (mqtt_node, unit) py" where
  "node_message rd topic payload =
     bind (lift (decode_utf8 payload)) (\<lambda>data.
     if ends_with ''/discover'' topic then answer_discover rd data
     else if ends_with ''/led/set'' topic then schedule (PublishText (node_topic ''led'') (dumps (value_text data)))
     else ret ())"

text \<open>The loop ends when \<open>deliver_message\<close> raises, which is logged.\<close>

definition node_loop :: "readings \<Rightarrow> (string \<times> string) list \<Rightarrow> (mqtt_node, unit) py" where
  "node_loop rd messages = for_each messages (\<lambda>(topic, payload). node_message rd topic payload)"

text \<open>\<open>create_task(send_values(client))\<close> runs the function and then raises for its result.\<close>

definition start_client :: "readings \<Rightarrow> (string \<times> string) list \<Rightarrow> (mqtt_node, unit) py" where
  "start_client rd messages =
     seq (modify (\<lambda>n. n\<lparr>subscriptions := subscriptions n @ [''gateway/'' @ node_id_text @ ''/discover'']\<rparr>))
     (seq (modify (\<lambda>n. n\<lparr>subscriptions := subscriptions n @ [''gateway/'' @ node_id_text @ ''/led/set'']\<rparr>))
     (seq (schedule SendCheck)
     (seq send_values
     (seq (raise TypeError :: (mqtt_node, unit) py)
     (node_loop rd messages)))))"

text \<open>A scheduled coroutine up to its next wait; those that repeat come back after their delay.\<close>

definition run_job :: "readings \<Rightarrow> node_job \<Rightarrow> (mqtt_node, unit) py" where
  "run_job rd j =
     (case j of
        SendCheck \<Rightarrow> send_check
      | PublishText topic v \<Rightarrow> node_publish topic v
      | PublishContinuous topic res delay \<Rightarrow> node_publish topic (dumps (value_text (node_value rd res))))"

section \<open>Properties\<close>

definition idle_node :: mqtt_node where
  "idle_node = \<lparr>scheduled = [], subscriptions = [], publications = []\<rparr>"

lemma send_values_run:
  "send_values n = (Inr (), n\<lparr>scheduled := scheduled n
     @ map (\<lambda>(res, delay). PublishContinuous (node_topic res) res delay) node_resources\<rparr>)"
proof -
  have "for_each xs (\<lambda>(res, delay). schedule (PublishContinuous (node_topic res) res delay)) n =
      (Inr (), n\<lparr>scheduled := scheduled n @ map (\<lambda>(res, delay). PublishContinuous (node_topic res) res delay) xs\<rparr>)" for xs
    by (induction xs arbitrary: n) (auto simp: schedule_def py_run)
  then show ?thesis by (simp add: send_values_def)
qed

text \<open>
  The test node never reads a message: \<open>start_client\<close> subscribes, schedules its coroutines and then
  ends with \<open>TypeError\<close>, whatever messages there are, because \<open>send_values\<close> is handed to
  \<open>create_task\<close> although it is no coroutine; nothing has been published by then.
\<close>


theorem mqtt_node_never_listens:
  "fst (start_client rd messages n) = Inl TypeError
   \<and> publications (snd (start_client rd messages n)) = publications n
   \<and> snd (start_client rd messages n) = snd (start_client rd' [] n)"
  by (simp add: start_client_def send_values_run schedule_def py_run)

lemma answer_resources_run:
  "node_message rd (''gateway/'' @ node_id_text @ ''/discover'') ''resources'' n =
    (Inr (), n\<lparr>scheduled := scheduled n
      @ [PublishText (node_topic ''resources'') (dumps_ascii (JList (map (JStr \<circ> fst) node_resources)))]\<rparr>)"
  by (simp add: node_message_def decode_utf8_def byte_in_def ends_with_def node_id_text_def answer_discover_def
      schedule_def py_run)


lemma ascii_text_id: "list_all (byte_in 0 126) s \<Longrightarrow> ascii_text s = s"
  by (induction s) auto

lemma resources_text:
  "loads_bytes fl (dumps_ascii (JList (map (JStr \<circ> fst) node_resources))) = Inr (JList (map (JStr \<circ> fst) node_resources))"
proof -
  let ?v = "JList (map (JStr \<circ> fst) node_resources)"
  have "list_all (byte_in 0 126) (dumps ?v)"
    by (simp add: node_resources_def dumps_str_def escape_char_def byte_in_def)
  moreover have "json_ok fl ?v" by (simp add: node_resources_def)
  ultimately show ?thesis
    unfolding dumps_ascii_def by (metis ascii_text_id loads_bytes_ascii loads_dumps)
qed

text \<open>
  C25: The gateway and the test node agree on the names.  A node that the gateway has given a uid
  is asked for its resources; the text with which its handler answers, followed by the start of
  the gateway's coroutine and by the results of the calls it awaits (no other event in between),
  makes the gateway call the MQTT client for exactly the topics on which the node publishes its
  values, in the node's order, and then ask the node for the values.  It does so as far as the
  awaits return: if awaiting one of the results raises, that call is the last one.  With
  \<open>gmqtt\<close>, whose \<open>subscribe\<close> is a plain function, the first await raises \<open>TypeError\<close>, so the
  gateway subscribes to the first of the seven topics only and never asks for the values.
\<close>

theorem mqtt_node_subscribed:
  assumes "mqtt_numbered s" and "dict_has (id_mapping s) (JStr node_id_text)"
  shows "\<exists>topic v. snd (node_message rd (''gateway/'' @ node_id_text @ ''/discover'') ''resources'' n)
      = n\<lparr>scheduled := scheduled n @ [PublishText topic v]\<rparr>
    \<and> (\<forall>ocs. calls (run_events (mqtt_handle fl rep enc ks opts as_task) s
        (MqttMessage topic v # MqttTask (mqtt_next s) uuid (Inr ()) # task_outcomes (Suc (mqtt_next s)) ocs))
      = calls s @ take (Suc (length (takeWhile (\<lambda>oc. oc = Inr ()) ocs)))
          (map (\<lambda>(res, _). Subscribe (node_topic res)) node_resources
           @ [Publish (''gateway/'' @ node_id_text @ ''/discover'') (JStr ''values'')]))"
proof -
  have id: "CHR ''/'' \<notin> set node_id_text" by (simp add: node_id_text_def)
  have topic: "node_topic ''resources'' = ''node/'' @ node_id_text @ ''/resources''" by (simp add: node_topic_def)
  have "subscriptions_of rep node_id_text (map (JStr \<circ> fst) node_resources)
      = map (\<lambda>(res, _). Subscribe (node_topic res)) node_resources
        @ [Publish (''gateway/'' @ node_id_text @ ''/discover'') (JStr ''values'')]"
    by (simp add: subscriptions_of_def node_topic_def py_format_def comp_def split_def)
  then have "\<forall>ocs. calls (run_events (mqtt_handle fl rep enc ks opts as_task) s
      (MqttMessage (node_topic ''resources'') (dumps_ascii (JList (map (JStr \<circ> fst) node_resources)))
        # MqttTask (mqtt_next s) uuid (Inr ()) # task_outcomes (Suc (mqtt_next s)) ocs))
    = calls s @ take (Suc (length (takeWhile (\<lambda>oc. oc = Inr ()) ocs)))
        (map (\<lambda>(res, _). Subscribe (node_topic res)) node_resources
         @ [Publish (''gateway/'' @ node_id_text @ ''/discover'') (JStr ''values'')])"
    using resources_subscribed_run [OF assms(1) id resources_text, of fl rep enc ks opts as_task uuid] assms(2)
    unfolding topic calls_made_def by simp
  with answer_resources_run show ?thesis by (metis snd_conv)
qed

theorem mqtt_node_subscribed_witness:
  "\<exists>topic v. \<forall>ocs. calls (run_events (mqtt_handle id (\<lambda>_. []) toy_enc
      \<lparr>private_key = ''k'', secret_key = ''s''\<rparr> \<lparr>interface = None, max_time = 120\<rparr> (Inr ()))
      (mqtt_init 0\<lparr>id_mapping := [(JStr node_id_text, ''u1'')]\<rparr>)
      (MqttMessage topic v # MqttTask 0 [] (Inr ()) # task_outcomes 1 (Inl TypeError # ocs)))
    = [Subscribe (node_topic ''name'')]"
proof -
  let ?s = "mqtt_init 0\<lparr>id_mapping := [(JStr node_id_text, ''u1'')]\<rparr>"
  have s: "mqtt_numbered ?s" "dict_has (id_mapping ?s) (JStr node_id_text)" "mqtt_next ?s = 0" "calls ?s = []"
    by (simp_all add: mqtt_numbered_def mqtt_init_def gateway_init_def gateway.defs dict_has_def)
  from mqtt_node_subscribed [OF s(1,2), of "(''::1'', 20, 1000)" idle_node id "\<lambda>_. []" toy_enc
      "\<lparr>private_key = ''k'', secret_key = ''s''\<rparr>" "\<lparr>interface = None, max_time = 120\<rparr>" "Inr ()" "[]"]
  obtain topic v where run: "\<And>ocs. calls (run_events (mqtt_handle id (\<lambda>_. []) toy_enc
      \<lparr>private_key = ''k'', secret_key = ''s''\<rparr> \<lparr>interface = None, max_time = 120\<rparr> (Inr ())) ?s
      (MqttMessage topic v # MqttTask 0 [] (Inr ()) # task_outcomes 1 ocs))
    = take (Suc (length (takeWhile (\<lambda>oc. oc = Inr ()) ocs)))
        (map (\<lambda>(res, _). Subscribe (node_topic res)) node_resources
         @ [Publish (''gateway/'' @ node_id_text @ ''/discover'') (JStr ''values'')])"
    unfolding s(3,4) One_nat_def append_Nil by blast
  have "take 1 (map (\<lambda>(res, _). Subscribe (node_topic res)) node_resources
      @ [Publish (''gateway/'' @ node_id_text @ ''/discover'') (JStr ''values'')]) = [Subscribe (node_topic ''name'')]"
    by (simp add: node_resources_def)
  with run [of "Inl TypeError # _"] show ?thesis
    by (intro exI [of _ topic] exI [of _ v] allI) (simp del: run_events.simps task_outcomes.simps)
qed

end
