(* ===== verification/Umqtt.thy ===== *)
theory Umqtt
  imports Prelude "HOL-Library.Word"
begin

unbundle bit_operations_syntax

text \<open>
  \<open>utils/pycom/libs/umqtt.py\<close>: the MQTT client of the MicroPython nodes, down to its bytes.

  The socket is two byte strings: what is still to be read (\<open>unread\<close>) and what was written
  (\<open>written\<close>).  A blocking read at the end of the input returns no bytes, as at the end of the
  stream; a read that does not block returns \<open>None\<close> unless the peer has closed (\<open>eof\<close>).
  Topics and messages are byte strings.  Storing into a \<open>bytearray\<close> and \<open>struct.pack\<close> keep the
  low bits, as MicroPython does.  A client that has a user has a password.  The callback is the list of its calls, \<open>delivered\<close>.
\<close>

type_synonym bytes = "8 word list"

record mqtt_client =
  client_id :: bytes
  user :: "bytes option"
  pswd :: bytes
  keepalive :: nat
  lw_topic :: bytes
  lw_msg :: bytes
  lw_qos :: nat
  lw_retain :: bool
  pid :: nat
  cb_set :: bool
  unread :: bytes
  eof :: bool
  blocking :: bool
  written :: bytes
  delivered :: "(bytes \<times> bytes) list"
  sock_open :: bool

text \<open>The client \<open>MQTTClient(client_id, server, user, password, keepalive)\<close>, and a socket with nothing to read.\<close>

definition new_client :: "bytes \<Rightarrow> bytes option \<Rightarrow> bytes \<Rightarrow> nat \<Rightarrow> mqtt_client" where
  "new_client i u p k =
     \<lparr>client_id = i, user = u, pswd = p, keepalive = k, lw_topic = [], lw_msg = [], lw_qos = 0,
      lw_retain = False, pid = 0, cb_set = False, unread = [], eof = False, blocking = True,
      written = [], delivered = [], sock_open = False\<rparr>"

definition u16 :: "nat \<Rightarrow> bytes" where
  "u16 n = [word_of_nat (n div 256), word_of_nat n]"

definition sock_write :: "bytes \<Rightarrow> (mqtt_client, unit) py" where
  "sock_write bs = modify (\<lambda>s. s\<lparr>written := written s @ bs\<rparr>)"

definition sock_read :: "nat \<Rightarrow> (mqtt_client, bytes) py" where
  "sock_read n s = (Inr (take n (unread s)), s\<lparr>unread := drop n (unread s)\<rparr>)"

text \<open>The count \<open>-1\<close> reads everything; MicroPython cannot allocate the buffer for another negative count.\<close>

definition sock_read_int :: "int \<Rightarrow> (mqtt_client, bytes) py" where
  "sock_read_int n =
     (if n < - 1 then raise MemoryError
      else bind (gets (\<lambda>s. length (unread s))) (\<lambda>l. sock_read (if n = - 1 then l else nat n)))"

definition byte_at :: "bytes \<Rightarrow> nat \<Rightarrow> exn + 8 word" where
  "byte_at bs i = (if i < length bs then Inr (bs ! i) else Inl IndexError)"

definition assert_py :: "bool \<Rightarrow> (mqtt_client, unit) py" where
  "assert_py b = (if b then ret () else raise AssertionError)"

definition send_str :: "bytes \<Rightarrow> (mqtt_client, unit) py" where
  "send_str s = seq (sock_write (u16 (length s))) (sock_write s)"

section \<open>The remaining length\<close>

fun decode_len :: "nat \<Rightarrow> nat \<Rightarrow> bytes \<Rightarrow> (exn + nat) \<times> bytes" where
  "decode_len n sh [] = (Inl IndexError, [])"
| "decode_len n sh (b # bs) =
     (let n' = n OR push_bit sh (unat (b AND 0x7F)) in
      if b AND 0x80 = 0 then (Inr n', bs) else decode_len n' (sh + 7) bs)"

definition recv_len :: "(mqtt_client, nat) py" where
  "recv_len s = (case decode_len 0 0 (unread s) of (r, rest) \<Rightarrow> (r, s\<lparr>unread := rest\<rparr>))"

text \<open>
  The loop of \<open>publish\<close> that stores the length into the packet: the packet and the index of the
  last byte of the length.
\<close>

function store_len :: "bytes \<Rightarrow> nat \<Rightarrow> nat \<Rightarrow> exn + (bytes \<times> nat)" where
  "store_len pkt i sz =
     (if i \<ge> length pkt then Inl IndexError
      else if sz > 0x7F
      then store_len (pkt[i := word_of_nat ((sz AND 0x7F) OR 0x80)]) (Suc i) (drop_bit 7 sz)
      else Inr (pkt[i := word_of_nat sz], i))"
  by pat_completeness auto
termination by (relation "measure (\<lambda>(pkt, i, _). length pkt - i)") auto

section \<open>Connection\<close>

definition set_callback :: "(mqtt_client, unit) py" where
  "set_callback = modify (\<lambda>s. s\<lparr>cb_set := True\<rparr>)"

definition set_last_will :: "bytes \<Rightarrow> bytes \<Rightarrow> bool \<Rightarrow> int \<Rightarrow> (mqtt_client, unit) py" where
  "set_last_will topic msg retain qos =
     seq (assert_py (0 \<le> qos \<and> qos \<le> 2))
     (seq (assert_py (topic \<noteq> []))
     (modify (\<lambda>s. s\<lparr>lw_topic := topic, lw_msg := msg, lw_qos := nat qos, lw_retain := retain\<rparr>)))"

definition connect_header :: bytes where
  "connect_header = [0x10, 0, 0, 4, 0x4D, 0x51, 0x54, 0x54, 4, 2, 0, 0]"

text \<open>The twelve bytes before the strings, for a client.\<close>

definition connect_length :: "mqtt_client \<Rightarrow> nat" where
  "connect_length c = 10 + 2 + length (client_id c)
     + (case user c of None \<Rightarrow> 0 | Some u \<Rightarrow> 2 + length u + 2 + length (pswd c))
     + (if lw_topic c \<noteq> [] then 2 + length (lw_topic c) + 2 + length (lw_msg c) else 0)"

definition connect_flags :: "bool \<Rightarrow> mqtt_client \<Rightarrow> 8 word" where
  "connect_flags clean c =
     push_bit 1 (of_bool clean)
     OR (if user c \<noteq> None then 0xC0 else 0)
     OR (if lw_topic c \<noteq> []
         then 0x4 OR push_bit 3 (word_of_nat (lw_qos c) AND 1) OR push_bit 3 (word_of_nat (lw_qos c) AND 2)
              OR push_bit 5 (of_bool (lw_retain c))
         else 0)"

definition connect_packet :: "bool \<Rightarrow> mqtt_client \<Rightarrow> bytes" where
  "connect_packet clean c = connect_header
     [1 := word_of_nat (connect_length c), 9 := connect_flags clean c,
      10 := word_of_nat (keepalive c div 256), 11 := word_of_nat (keepalive c)]"

definition connect :: "bool \<Rightarrow> (mqtt_client, 8 word) py" where
  "connect clean =
     bind (gets (\<lambda>s. s)) (\<lambda>c.
     seq (modify (\<lambda>s. s\<lparr>sock_open := True\<rparr>))
     (seq (assert_py (keepalive c < 65536))
     (seq (sock_write (connect_packet clean c))
     (seq (send_str (client_id c))
     (seq (if lw_topic c \<noteq> [] then seq (send_str (lw_topic c)) (send_str (lw_msg c)) else ret ())
     (seq (case user c of Some u \<Rightarrow> seq (send_str u) (send_str (pswd c)) | None \<Rightarrow> ret ())
     (bind (sock_read 4) (\<lambda>resp.
      bind (lift (byte_at resp 0)) (\<lambda>r0.
      bind (if r0 = 0x20 then lift (byte_at resp 1) else ret 0) (\<lambda>r1.
      seq (assert_py (r0 = 0x20 \<and> r1 = 2))
      (bind (lift (byte_at resp 3)) (\<lambda>r3.
       if r3 \<noteq> 0 then raise (MqttException (unat r3))
       else bind (lift (byte_at resp 2)) (\<lambda>r2. ret (r2 AND 1))))))))))))))"

definition disconnect :: "(mqtt_client, unit) py" where
  "disconnect = seq (sock_write [0xE0, 0]) (modify (\<lambda>s. s\<lparr>sock_open := False\<rparr>))"

definition ping :: "(mqtt_client, unit) py" where
  "ping = sock_write [0xC0, 0]"

section \<open>Receiving\<close>

definition read_u16 :: "(mqtt_client, nat) py" where
  "read_u16 =
     bind (sock_read 2) (\<lambda>bs.
     bind (lift (byte_at bs 0)) (\<lambda>h.
     bind (lift (byte_at bs 1)) (\<lambda>l. ret (push_bit 8 (unat h) OR unat l))))"

definition call_back :: "bytes \<Rightarrow> bytes \<Rightarrow> (mqtt_client, unit) py" where
  "call_back topic msg = bind (gets cb_set) (\<lambda>set.
     if set then modify (\<lambda>s. s\<lparr>delivered := delivered s @ [(topic, msg)]\<rparr>) else raise TypeError)"

text \<open>A PUBLISH packet after its first byte \<open>op\<close>.\<close>

definition receive_publish :: "8 word \<Rightarrow> (mqtt_client, unit) py" where
  "receive_publish op =
     bind recv_len (\<lambda>sz.
     bind read_u16 (\<lambda>topic_len.
     bind (sock_read topic_len) (\<lambda>topic.
     bind (if op AND 6 \<noteq> 0 then bind read_u16 (\<lambda>p. ret (Some p)) else ret None) (\<lambda>p.
     bind (sock_read_int (int sz - int (topic_len + 2) - (if op AND 6 \<noteq> 0 then 2 else 0))) (\<lambda>msg.
     seq (call_back topic msg)
     (if op AND 6 = 2 then sock_write ([0x40, 2] @ u16 (case p of Some i \<Rightarrow> i | None \<Rightarrow> 0))
      else if op AND 6 = 4 then raise AssertionError else ret ()))))))"

definition wait_msg :: "(mqtt_client, 8 word option) py" where
  "wait_msg =
     bind (gets (\<lambda>s. unread s = [] \<and> \<not> blocking s \<and> \<not> eof s)) (\<lambda>would_block.
     bind (sock_read 1) (\<lambda>res.
     seq (modify (\<lambda>s. s\<lparr>blocking := True\<rparr>))
     (if would_block then ret None
      else case res of
        [] \<Rightarrow> raise OSError
      | op # _ \<Rightarrow>
          if op = 0xD0 then
            bind (sock_read 1) (\<lambda>bs. bind (lift (byte_at bs 0)) (\<lambda>sz.
            seq (assert_py (sz = 0)) (ret None)))
          else if op AND 0xF0 \<noteq> 0x30 then ret (Some op)
          else seq (receive_publish op) (ret None))))"

definition check_msg :: "(mqtt_client, 8 word option) py" where
  "check_msg = seq (modify (\<lambda>s. s\<lparr>blocking := False\<rparr>)) wait_msg"

section \<open>Waiting\<close>

text \<open>
  The loops of \<open>publish\<close> and \<open>subscribe\<close> call \<open>wait_msg\<close> until the acknowledgement is there.  Each
  turn reads at least one byte or ends with an exception, except a first one that finds
  nothing on a socket that does not block.
\<close>

definition shorter :: "mqtt_client \<Rightarrow> mqtt_client \<Rightarrow> bool" where
  "shorter s t \<longleftrightarrow> length (unread t) \<le> length (unread s) \<and> (blocking s \<longrightarrow> blocking t)"

interpretation shortens: state_preorder shorter
  by unfold_locales (auto simp: shorter_def)

lemma decode_len_shorter: "decode_len n sh bs = (r, rest) \<Longrightarrow> length rest \<le> length bs"
  by (induction n sh bs rule: decode_len.induct) (force simp: Let_def split: if_splits)+

lemma shortens_basic:
  "shortens.upholds (sock_write bs)" "shortens.upholds (sock_read n)" "shortens.upholds (sock_read_int i)"
  "shortens.upholds (assert_py b)" "shortens.upholds recv_len" "shortens.upholds read_u16"
  "shortens.upholds (call_back topic msg)"
proof -
  show r: "shortens.upholds (sock_read n)" for n
    by (auto simp: shortens.upholds_def sock_read_def shorter_def)
  then show "shortens.upholds (sock_read_int i)" unfolding sock_read_int_def
    by (intro shortens.upholds_if shortens.upholds_raise shortens.upholds_bind shortens.upholds_gets)
  from r show "shortens.upholds read_u16" unfolding read_u16_def
    by (intro shortens.upholds_bind shortens.upholds_lift shortens.upholds_ret)
  show "shortens.upholds recv_len"
    by (auto simp: shortens.upholds_def recv_len_def shorter_def dest: decode_len_shorter split: prod.splits)
qed (auto simp: shortens.upholds_def sock_write_def assert_py_def call_back_def shorter_def py_run)

lemma shortens_receive: "shortens.upholds (receive_publish op)"
  unfolding receive_publish_def
  by (intro shortens.upholds_rules shortens_basic)

definition waiting_size :: "mqtt_client \<Rightarrow> nat" where
  "waiting_size s = 2 * length (unread s) + (if blocking s then 0 else 1)"

lemma wait_msg_smaller:
  assumes "wait_msg s = (Inr r, t)"
  shows "blocking t" and "waiting_size t < waiting_size s"
proof -
  let ?s = "s\<lparr>unread := tl (unread s), blocking := True\<rparr>"
  have "blocking t \<and> waiting_size t < waiting_size s"
  proof (cases "unread s")
    case Nil
    with assms show ?thesis
      by (auto simp: wait_msg_def sock_read_def waiting_size_def py_run split: if_splits)
  next
    case (Cons b bs)
    have "shorter ?s t"
    proof -
      have "(if b = 0xD0 then
            bind (sock_read 1) (\<lambda>bs. bind (lift (byte_at bs 0)) (\<lambda>sz. seq (assert_py (sz = 0)) (ret None)))
          else if b AND 0xF0 \<noteq> 0x30 then ret (Some b)
          else seq (receive_publish b) (ret None)) ?s = (Inr r, t)"
        using assms Cons by (simp add: wait_msg_def sock_read_def py_run)
      moreover have "shortens.upholds (if b = 0xD0 then
            bind (sock_read 1) (\<lambda>bs. bind (lift (byte_at bs 0)) (\<lambda>sz. seq (assert_py (sz = 0)) (ret None)))
          else if b AND 0xF0 \<noteq> 0x30 then ret (Some b)
          else seq (receive_publish b) (ret None))"
        by (intro shortens.upholds_rules shortens_basic shortens_receive)
      ultimately show ?thesis by (rule shortens.upholds_run [rotated])
    qed
    with Cons show ?thesis by (auto simp: shorter_def waiting_size_def)
  qed
  then show "blocking t" and "waiting_size t < waiting_size s" by blast+
qed

lemma puback_smaller:
  assumes "wait_msg s = (Inr r, t)" and "bind (sock_read 1) (\<lambda>sz. seq (assert_py (sz = [2])) read_u16) t = (x, u)"
  shows "waiting_size u < waiting_size s"
proof -
  have "shortens.upholds (bind (sock_read 1) (\<lambda>sz. seq (assert_py (sz = [2])) read_u16))"
    by (intro shortens.upholds_rules shortens_basic)
  then have "shorter t u" using assms(2) by (rule shortens.upholds_run)
  with wait_msg_smaller [OF assms(1)] show ?thesis by (auto simp: shorter_def waiting_size_def)
qed

function await_puback :: "nat \<Rightarrow> (mqtt_client, unit) py" where
  "await_puback p s =
     (case wait_msg s of
        (Inl e, t) \<Rightarrow> (Inl e, t)
      | (Inr r, t) \<Rightarrow>
          if r = Some 0x40 then
            (case bind (sock_read 1) (\<lambda>sz. seq (assert_py (sz = [2])) read_u16) t of
               (Inl e, u) \<Rightarrow> (Inl e, u)
             | (Inr rcv_pid, u) \<Rightarrow> if p = rcv_pid then (Inr (), u) else await_puback p u)
          else await_puback p t)"
  by pat_completeness auto

termination
  by (relation "measure (\<lambda>(p, s). waiting_size s)")
    (auto dest: puback_smaller [simplified, OF sym sym] wait_msg_smaller(2) [OF sym])

text \<open>The loop of \<open>subscribe\<close>, for the number \<open>p\<close> it put into its packet.\<close>

function await_suback :: "8 word \<Rightarrow> 8 word \<Rightarrow> (mqtt_client, unit) py" where
  "await_suback hi lo s =
     (case wait_msg s of
        (Inl e, t) \<Rightarrow> (Inl e, t)
      | (Inr r, t) \<Rightarrow>
          if r = Some 0x90 then
            bind (sock_read 4) (\<lambda>resp.
            bind (lift (byte_at resp 1)) (\<lambda>r1.
            bind (if r1 = hi then lift (byte_at resp 2) else ret 0) (\<lambda>r2.
            seq (assert_py (r1 = hi \<and> r2 = lo))
            (bind (lift (byte_at resp 3)) (\<lambda>r3.
              if r3 = 0x80 then raise (MqttException (unat r3)) else ret ()))))) t
          else await_suback hi lo t)"
  by pat_completeness auto
termination
  by (relation "measure (\<lambda>(hi, lo, s). waiting_size s)") (auto dest: wait_msg_smaller(2) [OF sym])

section \<open>Sending\<close>

definition publish_header :: "bool \<Rightarrow> nat \<Rightarrow> bytes" where
  "publish_header retain qos = [0x30 OR (push_bit 1 (word_of_nat qos) OR of_bool retain), 0, 0, 0]"

definition publish :: "bytes \<Rightarrow> bytes \<Rightarrow> bool \<Rightarrow> nat \<Rightarrow> (mqtt_client, unit) py" where
  "publish topic msg retain qos =
     (let sz = 2 + length topic + length msg + (if qos > 0 then 2 else 0) in
     seq (assert_py (sz < 2097152))
     (bind (lift (store_len (publish_header retain qos) 1 sz)) (\<lambda>(pkt, i).
      seq (sock_write (take (i + 1) pkt))
     (seq (send_str topic)
     (seq (if qos > 0
           then seq (modify (\<lambda>s. s\<lparr>pid := pid s + 1\<rparr>)) (bind (gets pid) (\<lambda>p. sock_write (u16 p)))
           else ret ())
     (seq (sock_write msg)
     (if qos = 1 then bind (gets pid) await_puback
      else if qos = 2 then raise AssertionError else ret ())))))))"

definition subscribe :: "bytes \<Rightarrow> nat \<Rightarrow> (mqtt_client, unit) py" where
  "subscribe topic qos =
     bind (gets cb_set) (\<lambda>set.
     seq (assert_py set)
     (seq (modify (\<lambda>s. s\<lparr>pid := pid s + 1\<rparr>))
     (bind (gets pid) (\<lambda>p.
      let pkt = [0x82, word_of_nat (2 + 2 + length topic + 1)] @ u16 p in
      seq (sock_write pkt)
     (seq (send_str topic)
     (seq (sock_write [word_of_nat qos])
     (await_suback (pkt ! 2) (pkt ! 3))))))))"

end
