(* ===== verification/Umqtt_Correct.thy ===== *)
theory Umqtt_Correct
  imports Umqtt
begin

unbundle bit_operations_syntax

text \<open>
  The MQTT client of \<open>utils/pycom/libs/umqtt.py\<close>: the remaining length against the encoding of the
  protocol, the packet that \<open>publish\<close> writes against the one that \<open>wait_msg\<close> reads, and the
  acknowledgement of a message of quality of service 1.
\<close>

section \<open>Bits of numbers and bytes\<close>

lemma mask_7: "(127::nat) = mask 7" by (simp add: mask_eq_exp_minus_1)

lemma and_7F: "n AND 127 = (n mod 128 :: nat)"
  by (simp add: mask_7 flip: take_bit_eq_mask) (simp add: take_bit_eq_mod)

lemma high_bits: "m < 2 ^ sh \<Longrightarrow> bit m i \<Longrightarrow> i < sh" for m :: nat
  by (metis bit_take_bit_iff take_bit_nat_eq_self_iff)

lemma or_shift: "m < 2 ^ sh \<Longrightarrow> m OR push_bit sh k = (m + k * 2 ^ sh :: nat)"
proof -
  assume m: "m < 2 ^ sh"
  have "m + push_bit sh k = m OR push_bit sh k"
    by (rule disjunctive_add_eq_or) (auto simp: bit_eq_iff bit_and_iff bit_push_bit_iff dest: high_bits [OF m])
  then show ?thesis by (simp add: push_bit_eq_mult)
qed

lemma or_80: "n < 128 \<Longrightarrow> n OR 128 = (n + 128 :: nat)"
  using or_shift [of n 7 1] by (simp add: push_bit_eq_mult)

lemma byte_and_7F: "unat ((w :: 8 word) AND 0x7F) = unat w mod 128"
  by (simp add: unsigned_and_eq and_7F)

lemma byte_bound: "unat (w :: 8 word) < 256"
  using unsigned_less [of w] by simp

lemma byte_and_80: "(w :: 8 word) AND 0x80 = 0 \<longleftrightarrow> unat w < 128"
proof -
  have "unat (w AND 0x80) = 0 \<longleftrightarrow> \<not> bit (unat w) 7"
    using and_exp_eq_0_iff_not_bit [of "unat w" 7] by (simp add: unsigned_and_eq)
  moreover have "bit (unat w) 7 \<longleftrightarrow> odd (unat w div 128)"
    by (simp add: bit_iff_odd)
  moreover have "odd (unat w div 128) \<longleftrightarrow> \<not> unat w < 128"
  proof
    assume "\<not> unat w < 128"
    then have "unat w div 128 = 1" using byte_bound [of w] by auto
    then show "odd (unat w div 128)" by simp
  qed auto
  ultimately show ?thesis by (simp add: unat_eq_0)
qed

section \<open>The remaining length\<close>

text \<open>The encoding of the remaining length as MQTT defines it: seven bits a byte, the low ones first.\<close>

lemma decode_len_consumes: "decode_len n sh bs = (Inr m, rest) \<Longrightarrow> length rest < length bs"
  by (induction n sh bs rule: decode_len.induct) (force simp: Let_def split: if_splits)+

function len_bytes :: "nat \<Rightarrow> bytes" where
  "len_bytes n = (if n < 128 then [word_of_nat n] else word_of_nat (n mod 128 + 128) # len_bytes (n div 128))"
  by pat_completeness auto
termination by (relation "measure id") auto

declare len_bytes.simps [simp del] store_len.simps [simp del]
  await_puback.simps [simp del] await_suback.simps [simp del]

lemma unat_byte: "n < 256 \<Longrightarrow> unat (word_of_nat n :: 8 word) = n"
  by (simp add: unat_of_nat take_bit_nat_eq_self)

lemma decode_len_bytes:
  "m < 2 ^ sh \<Longrightarrow> decode_len m sh (len_bytes n @ rest) = (Inr (m + n * 2 ^ sh), rest)"
proof (induction n arbitrary: m sh rule: len_bytes.induct)
  case (1 n)
  show ?case
  proof (cases "n < 128")
    case True
    then show ?thesis
      using 1(2) by (subst len_bytes.simps) (simp add: byte_and_80 byte_and_7F unat_byte or_shift)
  next
    case False
    let ?b = "word_of_nat (n mod 128 + 128) :: 8 word"
    have b: "unat ?b = n mod 128 + 128" by (rule unat_byte) (simp add: pos_mod_bound [THEN less_le_trans])
    have m: "m + n mod 128 * 2 ^ sh < 2 ^ (sh + 7)"
    proof -
      have "n mod 128 \<le> 127" by (simp add: less_Suc_eq_le [symmetric])
      then have "n mod 128 * 2 ^ sh \<le> 127 * 2 ^ sh" by (rule mult_le_mono1)
      with 1(2) have "m + n mod 128 * 2 ^ sh < 2 ^ sh + 127 * 2 ^ sh" by linarith
      then show ?thesis by (simp add: power_add)
    qed
    have "decode_len m sh (len_bytes n @ rest) = decode_len (m + n mod 128 * 2 ^ sh) (sh + 7) (len_bytes (n div 128) @ rest)"
      using False 1(2) b
      by (subst len_bytes.simps) (simp add: byte_and_80 byte_and_7F or_shift Let_def)
    also have "\<dots> = (Inr (m + n mod 128 * 2 ^ sh + n div 128 * 2 ^ (sh + 7)), rest)"
      by (rule 1(1) [OF False m])
    also have "m + n mod 128 * 2 ^ sh + n div 128 * 2 ^ (sh + 7) = m + n * 2 ^ sh"
    proof -
      have split: "m + r * 2 ^ sh + q * 2 ^ (sh + 7) = m + (q * 128 + r) * 2 ^ sh" for q r
        by (simp add: power_add algebra_simps)
      show ?thesis unfolding split by simp
    qed
    finally show ?thesis .
  qed
qed

lemma store_len_bytes:
  assumes "n < 128 ^ (length pkt - i)" and "i < length pkt"
  shows "\<exists>pkt' j. store_len pkt i n = Inr (pkt', j) \<and> take (j + 1) pkt' = take i pkt @ len_bytes n
    \<and> j < length pkt"
  using assms
proof (induction pkt i n rule: store_len.induct)
  case (1 pkt i sz)
  show ?case
  proof (cases "sz < 128")
    case True
    then show ?thesis
      using 1(3) by (subst len_bytes.simps, subst store_len.simps) (simp add: take_Suc_conv_app_nth)
  next
    case False
    let ?pkt = "pkt[i := word_of_nat ((sz AND 0x7F) OR 0x80)]"
    have s: "drop_bit 7 sz = sz div 128" by (simp add: drop_bit_eq_div)
    have "128 ^ (length pkt - i) = (128 :: nat) * 128 ^ (length pkt - Suc i)"
      using 1(3) by (simp add: Suc_diff_Suc flip: power_Suc)
    then have d: "sz div 128 < 128 ^ (length ?pkt - Suc i)"
      using 1(2) by (simp add: less_mult_imp_div_less mult.commute)
    have l: "Suc i < length ?pkt"
    proof (rule ccontr)
      assume "\<not> Suc i < length ?pkt"
      then have "length ?pkt - Suc i = 0" by simp
      with d False show False by simp
    qed
    obtain pkt' j where j: "store_len ?pkt (Suc i) (sz div 128) = Inr (pkt', j)"
      "take (j + 1) pkt' = take (Suc i) ?pkt @ len_bytes (sz div 128)" "j < length pkt"
      using 1(1) [OF _ _ _ l] d 1(3) False unfolding s by auto
    have "take (Suc i) ?pkt = take i pkt @ [word_of_nat (sz mod 128 + 128)]"
      using 1(3) by (simp add: take_Suc_conv_app_nth and_7F or_80)
    moreover have "store_len pkt i sz = store_len ?pkt (Suc i) (sz div 128)"
      using 1(3) False s by (subst store_len.simps) simp
    moreover have "len_bytes sz = word_of_nat (sz mod 128 + 128) # len_bytes (sz div 128)"
      using False by (subst len_bytes.simps) simp
    ultimately show ?thesis using j by simp
  qed
qed

section \<open>Publishing\<close>

definition publish_size :: "bytes \<Rightarrow> bytes \<Rightarrow> nat \<Rightarrow> nat" where
  "publish_size topic msg qos = 2 + length topic + length msg + (if qos > 0 then 2 else 0)"

text \<open>
  The packet as MQTT 3.1.1 defines it, by arithmetic on numbers and without the functions of the
  client: the packet type 3 in the high half of the first byte, the quality of service in
  bits 1 and 2, the retain flag in bit 0; then the length of all that follows, the topic behind its
  length in two bytes, the packet number if the quality of service is not 0, and the message.
\<close>

definition two_bytes :: "nat \<Rightarrow> bytes" where
  "two_bytes n = map word_of_nat [n div 256, n mod 256]"

definition publish_body :: "bytes \<Rightarrow> bytes \<Rightarrow> nat \<Rightarrow> nat \<Rightarrow> bytes" where
  "publish_body topic msg qos p =
     two_bytes (length topic) @ topic @ (if qos = 0 then [] else two_bytes p) @ msg"

definition publish_frame :: "bytes \<Rightarrow> bytes \<Rightarrow> bool \<Rightarrow> nat \<Rightarrow> nat \<Rightarrow> bytes" where
  "publish_frame topic msg retain qos p =
     word_of_nat (3 * 16 + qos * 2 + (if retain then 1 else 0))
       # len_bytes (length (publish_body topic msg qos p)) @ publish_body topic msg qos p"

lemma two_bytes_u16: "two_bytes n = u16 n"
proof -
  have "(word_of_nat (n mod 256) :: 8 word) = word_of_nat n"
    by (simp add: word_of_nat_eq_iff take_bit_eq_mod)
  then show ?thesis by (simp add: two_bytes_def u16_def)
qed

lemma publish_body_run:
  "publish_body topic msg qos p = u16 (length topic) @ topic @ (if qos > 0 then u16 p else []) @ msg"
  "length (publish_body topic msg qos p) = publish_size topic msg qos"
  by (simp_all add: publish_body_def publish_size_def two_bytes_u16) (simp_all add: u16_def)

lemma publish_frame_run:
  assumes "qos < 2"
  shows "publish_frame topic msg retain qos p =
     publish_header retain qos ! 0 # len_bytes (publish_size topic msg qos)
       @ u16 (length topic) @ topic @ (if qos > 0 then u16 p else []) @ msg"
proof -
  have "qos = 0 \<or> qos = 1" using assms by auto
  then have "word_of_nat (3 * 16 + qos * 2 + (if retain then 1 else 0)) = publish_header retain qos ! 0"
    by (cases retain; auto simp: publish_header_def)
  then show ?thesis unfolding publish_frame_def publish_body_run(2) by (simp add: publish_body_run(1))
qed

lemma store_publish_size:
  assumes "publish_size topic msg qos < 2097152"
  shows "\<exists>pkt j. store_len (publish_header retain qos) 1 (publish_size topic msg qos) = Inr (pkt, j)
    \<and> take (j + 1) pkt = publish_header retain qos ! 0 # len_bytes (publish_size topic msg qos)"
  using store_len_bytes [of "publish_size topic msg qos" "publish_header retain qos" 1] assms
  by (auto simp: publish_header_def)

lemma publish_run:
  assumes "publish_size topic msg qos < 2097152" and "qos < 2"
  shows "publish topic msg retain qos s =
    (let t = s\<lparr>pid := pid s + qos, written := written s @ publish_frame topic msg retain qos (pid s + qos)\<rparr>
     in if qos = 1 then await_puback (pid s + 1) t else (Inr (), t))"
proof -
  obtain pkt j where st: "store_len (publish_header retain qos) 1 (publish_size topic msg qos) = Inr (pkt, j)"
    and w: "take (j + 1) pkt = publish_header retain qos ! 0 # len_bytes (publish_size topic msg qos)"
    using store_publish_size [OF assms(1)] by blast
  consider "qos = 0" | "qos = 1" using assms(2) by linarith
  then show ?thesis
  proof cases
    case 1
    with assms st w show ?thesis
      by (simp add: publish_def publish_size_def publish_frame_run Let_def assert_py_def send_str_def sock_write_def py_run)
  next
    case 2
    with assms st w show ?thesis
      by (simp add: publish_def publish_size_def publish_frame_run Let_def assert_py_def send_str_def sock_write_def py_run)
  qed
qed

lemma read_u16_run:
  assumes "unread s = u16 n @ rest" and "n < 65536"
  shows "read_u16 s = (Inr n, s\<lparr>unread := rest\<rparr>)"
proof -
  have "n div 256 < 256" using assms(2) by simp
  moreover have "(n mod 256) OR push_bit 8 (n div 256) = n"
    using or_shift [of "n mod 256" 8 "n div 256"] by simp
  ultimately show ?thesis using assms(1)
    by (simp add: read_u16_def sock_read_def byte_at_def u16_def unat_byte unat_of_nat take_bit_eq_mod
        py_run or.commute)
qed

lemma recv_len_run: "unread s = len_bytes n @ rest \<Longrightarrow> recv_len s = (Inr n, s\<lparr>unread := rest\<rparr>)"
  by (simp add: recv_len_def decode_len_bytes [of 0 0 n rest, simplified])


lemma header_qos:
  assumes "qos < 2"
  shows "(publish_header retain qos ! 0) AND 0xF0 = 0x30"
    and "(publish_header retain qos ! 0) AND 6 = (if qos = 1 then 2 else 0)"
    and "publish_header retain qos ! 0 \<noteq> 0xD0"
proof -
  have "qos = 0 \<or> qos = 1" using assms by auto
  then show "(publish_header retain qos ! 0) AND 0xF0 = 0x30"
    and "(publish_header retain qos ! 0) AND 6 = (if qos = 1 then 2 else 0)"
    and "publish_header retain qos ! 0 \<noteq> 0xD0"
    by (cases retain; auto simp: publish_header_def)+
qed

text \<open>Reading what is next, as rewrite steps.\<close>

lemma bind_sock_read:
  "unread s = xs @ rest \<Longrightarrow> n = length xs \<Longrightarrow> bind (sock_read n) f s = f xs (s\<lparr>unread := rest\<rparr>)"
  by (simp add: sock_read_def bind_run)

lemma bind_sock_read_int:
  "unread s = xs @ rest \<Longrightarrow> i = int (length xs) \<Longrightarrow>
    bind (sock_read_int i) f s = f xs (s\<lparr>unread := rest\<rparr>)"
  by (simp add: sock_read_int_def sock_read_def py_run)

lemma bind_read_u16:
  "unread s = u16 n @ rest \<Longrightarrow> n < 65536 \<Longrightarrow> bind read_u16 f s = f n (s\<lparr>unread := rest\<rparr>)"
  by (simp add: read_u16_run bind_run)

lemma bind_recv_len:
  "unread s = len_bytes n @ rest \<Longrightarrow> bind recv_len f s = f n (s\<lparr>unread := rest\<rparr>)"
  by (simp add: recv_len_run bind_run)

lemma bind_bind: "bind (bind m f) g s = bind m (\<lambda>x. bind (f x) g) s"
  by (simp add: bind_run split: prod.splits sum.splits)

lemma call_back_run: "cb_set s \<Longrightarrow> call_back topic msg s = (Inr (), s\<lparr>delivered := delivered s @ [(topic, msg)]\<rparr>)"
  by (simp add: call_back_def py_run)

definition puback :: "nat \<Rightarrow> bytes" where
  "puback p = [0x40, 2] @ u16 p"

lemma receive_run:
  assumes "unread s = tl (publish_frame topic msg retain qos p) @ rest"
    and "qos < 2" and "length topic < 65536" and "p < 65536" and "cb_set s"
  shows "receive_publish (publish_header retain qos ! 0) s =
    (Inr (), s\<lparr>unread := rest, delivered := delivered s @ [(topic, msg)],
      written := written s @ (if qos = 1 then puback p else [])\<rparr>)"
proof -
  have u: "unread s = len_bytes (publish_size topic msg qos)
      @ u16 (length topic) @ topic @ (if qos > 0 then u16 p else []) @ msg @ rest"
    using assms(1) by (simp add: publish_frame_run [OF assms(2)])
  have "qos = 0 \<or> qos = 1" using assms(2) by auto
  then show ?thesis
    using header_qos(2) [OF assms(2), of retain] assms(3-5)
    by (elim disjE; simp add: receive_publish_def bind_recv_len [OF u] bind_read_u16 bind_sock_read bind_sock_read_int
        publish_size_def call_back_run puback_def sock_write_def bind_bind bind_ret seq_run modify_run ret_run)
qed

lemma wait_msg_frame:
  assumes "unread s = publish_frame topic msg retain qos p @ rest"
    and "qos < 2" and "length topic < 65536" and "p < 65536" and "cb_set s"
  shows "wait_msg s =
    (Inr None, s\<lparr>unread := rest, blocking := True, delivered := delivered s @ [(topic, msg)],
      written := written s @ (if qos = 1 then puback p else [])\<rparr>)"
proof -
  let ?h = "publish_header retain qos ! 0"
  have u: "unread s = [?h] @ tl (publish_frame topic msg retain qos p) @ rest"
    using assms(1) by (simp add: publish_frame_run [OF assms(2)])
  let ?t = "s\<lparr>unread := tl (publish_frame topic msg retain qos p) @ rest, blocking := True\<rparr>"
  have "receive_publish ?h ?t = (Inr (), s\<lparr>unread := rest, blocking := True,
      delivered := delivered s @ [(topic, msg)],
      written := written s @ (if qos = 1 then puback p else [])\<rparr>)"
    using receive_run [of ?t, OF _ assms(2-4)] assms(5) by simp
  then show ?thesis
    using header_qos [OF assms(2), of retain] u
    by (simp add: wait_msg_def bind_sock_read [OF u] bind_gets seq_run modify_run ret_run)
qed

section \<open>The acknowledgement\<close>

lemma wait_msg_other:
  assumes "unread s = op # rest" and "op AND 0xF0 \<noteq> 0x30" and "op \<noteq> 0xD0"
  shows "wait_msg s = (Inr (Some op), s\<lparr>unread := rest, blocking := True\<rparr>)"
  using assms by (simp add: wait_msg_def bind_sock_read [of s "[op]" rest] bind_gets seq_run modify_run ret_run)

lemma await_puback_ack:
  assumes "unread s = puback p @ rest" and "p < 65536"
  shows "await_puback p s = (Inr (), s\<lparr>unread := rest, blocking := True\<rparr>)"
proof -
  have u: "unread s = 0x40 # 2 # u16 p @ rest" using assms(1) by (simp add: puback_def)
  have w: "wait_msg s = (Inr (Some 0x40), s\<lparr>unread := 2 # u16 p @ rest, blocking := True\<rparr>)"
    by (rule wait_msg_other [OF u]) simp_all
  show ?thesis
    using assms(2) by (subst await_puback.simps)
      (simp add: w bind_sock_read [of _ "[2]" "u16 p @ rest"] assert_py_def seq_run ret_run read_u16_run)
qed

lemma read_u16_bound: "read_u16 s = (Inr n, t) \<Longrightarrow> n < 65536"
proof -
  assume "read_u16 s = (Inr n, t)"
  then obtain h l :: "8 word" where n: "n = push_bit 8 (unat h) OR unat l"
    by (auto simp: read_u16_def py_run split: prod.splits sum.splits)
  have "n = unat l + unat h * 2 ^ 8"
    using or_shift [of "unat l" 8 "unat h"] byte_bound [of l] by (simp add: n or.commute)
  then show ?thesis using byte_bound [of l] byte_bound [of h] by simp
qed

lemma await_puback_over: "p \<ge> 65536 \<Longrightarrow> fst (await_puback p s) \<noteq> Inr ()"
proof (induction p s rule: await_puback.induct)
  case (1 p s)
  let ?ack = "bind (sock_read 1) (\<lambda>sz. seq (assert_py (sz = [2])) read_u16)"
  obtain r t where w: "wait_msg s = (r, t)" by fastforce
  obtain r' u where a: "?ack t = (r', u)" by fastforce
  have "r' = Inr n \<Longrightarrow> n < 65536" for n
    using a by (auto simp: bind_run seq_run dest: read_u16_bound split: prod.splits sum.splits)
  with 1 w a show ?case
    by (subst await_puback.simps) (auto split: sum.splits)
qed

section \<open>Properties\<close>

text \<open>
  C31: The bytes that \<open>publish\<close> writes are the PUBLISH packet of the protocol: for a topic of less
  than 65536 bytes, a packet of less than 2097152 bytes after its length, a quality of service 0
  or 1 and, for 1, a packet number of sixteen bits, they are the packet that \<open>publish_frame\<close> defines
  by the arithmetic of the standard, with the length of all that follows in its encoding of seven
  bits a byte; a message of quality of service 1 is then held until its acknowledgement is read.
\<close>
theorem publish_writes_frame:
  assumes "publish_size topic msg qos < 2097152" and "qos < 2" and "length topic < 65536"
    and "qos = 1 \<longrightarrow> pid s + 1 < 65536"
  shows "publish topic msg retain qos s =
    (let t = s\<lparr>pid := pid s + qos, written := written s @ publish_frame topic msg retain qos (pid s + qos)\<rparr>
     in if qos = 1 then await_puback (pid s + 1) t else (Inr (), t))"
  using assms(1,2) by (rule publish_run)

theorem publish_writes_frame_witness:
  "publish [0x61] (replicate 200 0x62) True 1 ((new_client [] None [] 0)\<lparr>unread := [0x40, 2, 0, 1]\<rparr>) =
    (Inr (), (new_client [] None [] 0)\<lparr>pid := 1,
      written := [0x33, 0xCD, 1, 0, 1, 0x61, 0, 1] @ replicate 200 0x62\<rparr>)"
proof -
  let ?s = "(new_client [] None [] 0)\<lparr>unread := [0x40, 2, 0, 1]\<rparr>"
  have "len_bytes 205 = [0xCD, 1]" by (simp add: len_bytes.simps)
  moreover have "await_puback 1 t = (Inr (), t\<lparr>unread := [], blocking := True\<rparr>)" if "unread t = [0x40, 2, 0, 1]" for t
    using await_puback_ack [of t 1 "[]"] that by (simp add: puback_def u16_def)
  ultimately show ?thesis
    using publish_writes_frame [of "[0x61]" "replicate 200 0x62" 1 ?s True]
    by (simp add: publish_size_def publish_frame_def publish_body_def two_bytes_def new_client_def Let_def)
qed

text \<open>
  C30: What one client publishes another receives: the bytes that \<open>publish\<close> writes, read by \<open>wait_msg\<close>,
  deliver that topic and that message once and leave the bytes behind them unread; the
  acknowledgement that \<open>wait_msg\<close> writes is the one that \<open>publish\<close> waits for.
\<close>
theorem publish_received:
  assumes "publish_size topic msg qos < 2097152" and "qos < 2" and "length topic < 65536"
    and "pid s + qos < 65536" and "cb_set r"
    and "unread s = (if qos = 1 then puback (pid s + 1) else [])"
  shows "\<exists>F ack. fst (publish topic msg retain qos s) = Inr ()
    \<and> written (snd (publish topic msg retain qos s)) = written s @ F
    \<and> wait_msg (r\<lparr>unread := F @ rest\<rparr>) =
      (Inr None, r\<lparr>unread := rest, blocking := True, delivered := delivered r @ [(topic, msg)],
        written := written r @ ack\<rparr>)
    \<and> unread s = ack"
proof -
  let ?F = "publish_frame topic msg retain qos (pid s + qos)"
  have q: "qos = 0 \<or> qos = 1" using assms(2) by auto
  have p: "fst (publish topic msg retain qos s) = Inr ()"
    "written (snd (publish topic msg retain qos s)) = written s @ ?F"
    using q assms(4,6) by (auto simp: publish_run [OF assms(1,2)] Let_def await_puback_ack [where rest = "[]"])
  have w: "wait_msg (r\<lparr>unread := ?F @ rest\<rparr>) =
      (Inr None, r\<lparr>unread := rest, blocking := True, delivered := delivered r @ [(topic, msg)],
        written := written r @ unread s\<rparr>)"
    using q wait_msg_frame [of "r\<lparr>unread := ?F @ rest\<rparr>", OF _ assms(2-4)] assms(5,6) by auto
  show ?thesis using p w by blast
qed

theorem publish_received_witness:
  "\<exists>F ack. fst (publish [0x61] [0x62] False 1 ((new_client [] None [] 0)\<lparr>unread := [0x40, 2, 0, 1]\<rparr>)) = Inr ()
    \<and> written (snd (publish [0x61] [0x62] False 1 ((new_client [] None [] 0)\<lparr>unread := [0x40, 2, 0, 1]\<rparr>))) = [] @ F
    \<and> delivered (snd (wait_msg ((new_client [] None [] 0)\<lparr>cb_set := True, unread := F @ [7]\<rparr>))) = [([0x61], [0x62])]
    \<and> ack = [0x40, 2, 0, 1]"
proof -
  let ?r = "(new_client [] None [] 0)\<lparr>cb_set := True\<rparr>"
  let ?s = "(new_client [] None [] 0)\<lparr>unread := [0x40, 2, 0, 1]\<rparr>"
  have u: "unread ?s = (if 1 = (1 :: nat) then puback (pid ?s + 1) else [])"
    by (simp add: puback_def u16_def new_client_def)
  from publish_received [of "[0x61]" "[0x62]" 1 ?s ?r False "[7]", OF _ _ _ _ _ u]
  obtain F where "fst (publish [0x61] [0x62] False 1 ?s) = Inr ()"
    "written (snd (publish [0x61] [0x62] False 1 ?s)) = [] @ F"
    "delivered (snd (wait_msg (?r\<lparr>unread := F @ [7]\<rparr>))) = [([0x61], [0x62])]"
    by (auto simp: publish_size_def new_client_def)
  then show ?thesis by auto
qed

text \<open>
  C32: The packet number is kept as an unbounded integer but written with sixteen bits: after 65535
  messages no input at all lets a \<open>publish\<close> of quality of service 1 return normally.
\<close>
theorem publish_after_wrap:
  assumes "pid s \<ge> 65535"
  shows "fst (publish topic msg retain 1 s) \<noteq> Inr ()"
proof (cases "publish_size topic msg 1 < 2097152")
  case True
  have "fst (await_puback (pid s + 1) t) \<noteq> Inr ()" for t
    using assms by (intro await_puback_over) simp
  then show ?thesis using publish_run [OF True, of retain s] by (simp add: Let_def)
next
  case False
  then show ?thesis by (simp add: publish_def publish_size_def Let_def assert_py_def seq_run raise_run)
qed

theorem publish_after_wrap_witness:
  "fst (publish [0x61] [] False 1 ((new_client [] None [] 0)\<lparr>pid := 65535, unread := [0x40, 2, 0, 0]\<rparr>)) \<noteq> Inr ()"
  by (rule publish_after_wrap) simp

text \<open>What \<open>connect\<close> writes after the fixed part of its packet.\<close>

definition connect_strings :: "mqtt_client \<Rightarrow> bytes" where
  "connect_strings c = u16 (length (client_id c)) @ client_id c
    @ (if lw_topic c \<noteq> [] then u16 (length (lw_topic c)) @ lw_topic c @ u16 (length (lw_msg c)) @ lw_msg c else [])
    @ (case user c of Some u \<Rightarrow> u16 (length u) @ u @ u16 (length (pswd c)) @ pswd c | None \<Rightarrow> [])"

lemma connect_writes:
  "keepalive c < 65536 \<Longrightarrow>
    written (snd (connect clean c)) = written c @ connect_packet clean c @ connect_strings c"
  by (simp add: connect_def connect_strings_def assert_py_def send_str_def sock_write_def sock_read_def py_run
      split: option.splits prod.splits sum.splits)

lemma connect_packet_size: "length (connect_packet clean c @ connect_strings c) = 2 + connect_length c"
  by (simp add: connect_packet_def connect_header_def connect_strings_def connect_length_def u16_def
      split: option.splits)

lemma connect_packet_length:
  "drop 1 (connect_packet clean c @ xs)
    = word_of_nat (connect_length c) # drop 2 (connect_packet clean c @ xs)"
proof -
  have "connect_packet clean c ! 1 = word_of_nat (connect_length c)" and "length (connect_packet clean c) = 12"
    by (simp_all add: connect_packet_def connect_header_def)
  then show ?thesis
    using Cons_nth_drop_Suc [of 1 "connect_packet clean c @ xs"] by (simp add: nth_append numeral_2_eq_2)
qed

lemma decode_one_byte:
  "decode_len 0 0 (b # bs) = (Inr n, bs) \<longleftrightarrow> unat b < 128 \<and> n = unat b"
proof (cases "unat b < 128")
  case True
  then show ?thesis by (auto simp: byte_and_80 byte_and_7F)
next
  case False
  have "decode_len m 7 bs \<noteq> (Inr n, bs)" for m
    using decode_len_consumes [of m 7 bs n bs] by auto
  with False show ?thesis by (simp add: byte_and_80 Let_def)
qed

lemma decode_length_byte: "decode_len 0 0 (word_of_nat n # bs) = (Inr n, bs) \<longleftrightarrow> n < 128"
proof -
  have "unat (word_of_nat n :: 8 word) = n mod 256" by (simp add: unat_of_nat take_bit_eq_mod)
  then show ?thesis unfolding decode_one_byte by auto
qed

text \<open>
  C33: The CONNECT packet: for a keep-alive that fits, \<open>connect\<close> writes two bytes and \<open>connect_length\<close> more, whatever
  the server answers, but its one length byte is right exactly for fewer than 128 of them.
\<close>
theorem connect_remaining_length:
  assumes "keepalive c < 65536"
  shows "\<exists>P. written (snd (connect clean c)) = written c @ P \<and> length (drop 2 P) = connect_length c
    \<and> (decode_len 0 0 (drop 1 P) = (Inr (length (drop 2 P)), drop 2 P) \<longleftrightarrow> connect_length c < 128)"
proof (intro exI conjI)
  let ?P = "connect_packet clean c @ connect_strings c"
  show "written (snd (connect clean c)) = written c @ ?P"
    using assms by (rule connect_writes)
  show l: "length (drop 2 ?P) = connect_length c"
    using connect_packet_size [of clean c] by simp
  show "decode_len 0 0 (drop 1 ?P) = (Inr (length (drop 2 ?P)), drop 2 ?P) \<longleftrightarrow> connect_length c < 128"
    unfolding l connect_packet_length by (rule decode_length_byte)
qed

theorem connect_remaining_length_witness:
  "\<exists>P. written (snd (connect True (new_client (replicate 120 0x61) None [] 60))) = P
    \<and> decode_len 0 0 (drop 1 P) \<noteq> (Inr (length (drop 2 P)), drop 2 P)"
  using connect_remaining_length [of "new_client (replicate 120 0x61) None [] 60" True]
  by (auto simp: new_client_def connect_length_def)

text \<open>
  C29: On what a finite stream holds, waiting ends: however many calls of \<open>wait_msg\<close> return one after
  the other, as in the loop of a node, they are at most twice the unread bytes and one more;
  the next call raises.
\<close>
theorem waiting_ends:
  assumes "\<forall>i < n. \<exists>r. wait_msg (s i) = (Inr r, s (Suc i))"
  shows "n \<le> 2 * length (unread (s 0)) + 1"
proof -
  have "waiting_size (s n) + n \<le> waiting_size (s 0)"
    using assms
  proof (induction n)
    case (Suc n)
    then obtain r where "wait_msg (s n) = (Inr r, s (Suc n))" by blast
    then have "waiting_size (s (Suc n)) < waiting_size (s n)" by (rule wait_msg_smaller(2))
    with Suc show ?case by simp
  qed simp
  then show ?thesis by (simp add: waiting_size_def split: if_splits)
qed

theorem waiting_ends_witness:
  "(1 :: nat) \<le> 2 * length (unread ((new_client [] None [] 0)\<lparr>unread := [0xD0, 0]\<rparr>)) + 1
   \<and> fst (wait_msg ((new_client [] None [] 0)\<lparr>unread := [0xD0, 0]\<rparr>)) = Inr None"
proof -
  let ?s = "(new_client [] None [] 0)\<lparr>unread := [0xD0, 0]\<rparr>"
  have w: "wait_msg ?s = (Inr None, ?s\<lparr>unread := [], blocking := True\<rparr>)"
    by (simp add: wait_msg_def sock_read_def byte_at_def assert_py_def new_client_def py_run)
  define f where "f i = (if i = 0 then ?s else ?s\<lparr>unread := [], blocking := True\<rparr>)" for i :: nat
  have "\<forall>i < 1. \<exists>r. wait_msg (f i) = (Inr r, f (Suc i))" using w by (simp add: f_def)
  from waiting_ends [OF this] w show ?thesis by (simp add: f_def)
qed

end
