(* ===== verification/Pycom_Node.thy ===== *)
theory Pycom_Node
  imports Umqtt_Correct Json_Text "HOL-Library.While_Combinator"
begin

text \<open>
  \<open>utils/pycom/main.py\<close>: the WiPy node, on top of the MQTT client of \<open>Umqtt\<close>.

  Texts and byte strings are the same bytes.  The client subscribes with quality of service 0, so
  what it receives needs no acknowledgement and the callback may be run when \<open>wait_msg\<close> has
  returned.  The text of the position is an argument, because MicroPython prints floats in its
  own way, and the resources are listed in the order in which the code writes them.  The answers of
  \<open>wlan.isconnected()\<close>, one after the other, are a function of the natural numbers.  The prints are
  left out; the LED is its colour.
\<close>

section \<open>Waiting for the network\<close>

text \<open>
  \<open>while not wlan.isconnected(): machine.idle()\<close>: the number of idle calls, or \<open>None\<close> when the loop
  does not end.
\<close>

definition wait_connected :: "(nat \<Rightarrow> bool) \<Rightarrow> nat option" where
  "wait_connected isconnected = while_option (\<lambda>polls. \<not> isconnected polls) Suc 0"

section \<open>The node\<close>

record pycom_node =
  mq :: mqtt_client
  led_text :: bytes
  lamp :: nat

definition on_mq :: "(mqtt_client, 'a) py \<Rightarrow> (pycom_node, 'a) py" where
  "on_mq m s = (case m (mq s) of (r, c) \<Rightarrow> (r, s\<lparr>mq := c\<rparr>))"

definition bytes_of :: "string \<Rightarrow> bytes" where
  "bytes_of = map (\<lambda>c. word_of_nat (of_char c))"

definition text_of :: "bytes \<Rightarrow> string" where
  "text_of = map (\<lambda>b. char_of (unat b))"

definition wipy_id :: string where
  "wipy_id = ''wipy-1''"

definition wipy_topic :: "string \<Rightarrow> bytes" where
  "wipy_topic res = bytes_of (''node/'' @ wipy_id @ ''/'' @ res)"

text \<open>\<open>NODE_RESOURCES\<close>: the value of \<open>led\<close> is the one \<open>LED_VALUE\<close> has when the dictionary is made.\<close>

definition wipy_resources :: "string \<Rightarrow> (string \<times> string) list" where
  "wipy_resources position =
     [(''name'', ''WiPy & MQTT''), (''os'', ''micropython''), (''board'', ''ESP8266''), (''position'', position),
      (''led'', ''0'')]"

definition publish_text :: "bytes \<Rightarrow> json \<Rightarrow> (pycom_node, unit) py" where
  "publish_text topic v = on_mq (publish topic (bytes_of (dumps v)) False 0)"

definition publish_alive :: "(pycom_node, unit) py" where
  "publish_alive = publish_text (bytes_of ''node/check'') (JObj [(''id'', JStr wipy_id)])"

definition publish_resources_list :: "string \<Rightarrow> (pycom_node, unit) py" where
  "publish_resources_list position =
     publish_text (wipy_topic ''resources'') (JList (map (JStr \<circ> fst) (wipy_resources position)))"

definition publish_resources_values :: "string \<Rightarrow> (pycom_node, unit) py" where
  "publish_resources_values position =
     for_each (wipy_resources position) (\<lambda>(res, v). publish_text (wipy_topic res) (JObj [(''value'', JStr v)]))"

definition publish_led_value :: "(pycom_node, unit) py" where
  "publish_led_value = bind (gets led_text) (\<lambda>v.
     publish_text (wipy_topic ''led'') (JObj [(''value'', JStr (text_of v))]))"

text \<open>\<open>int(msg)\<close>: an optional sign and digits, with white space around.\<close>

definition parse_int :: "string \<Rightarrow> exn + int" where
  "parse_int t =
     (let u = strip t;
          ds = (if u \<noteq> [] \<and> hd u \<in> {CHR ''+'', CHR ''-''} then tl u else u) in
      if ds = [] \<or> \<not> list_all is_digit ds then Inl ValueError
      else Inr ((if hd u = CHR ''-'' then -1 else 1) * int (nat_of_digits ds)))"

definition sub_callback :: "string \<Rightarrow> bytes \<Rightarrow> bytes \<Rightarrow> (pycom_node, unit) py" where
  "sub_callback position topic msg =
     (if topic = bytes_of ''gateway/check'' then publish_alive
      else if ends_with ''discover'' (text_of topic) then
        (if msg = bytes_of ''resources'' then publish_resources_list position
         else if msg = bytes_of ''values'' then publish_resources_values position
         else ret ())
      else if ends_with ''led/set'' (text_of topic) then
        seq (modify (\<lambda>s. s\<lparr>led_text := msg\<rparr>))
        (bind (lift (parse_int (text_of msg))) (\<lambda>i.
         seq (modify (\<lambda>s. s\<lparr>lamp := (if i \<noteq> 0 then 0x7f0000 else 0)\<rparr>))
         publish_led_value))
      else ret ())"

text \<open>The module from the client on, and one turn of its last loop.\<close>

definition wipy_setup :: "(pycom_node, unit) py" where
  "wipy_setup =
     seq (on_mq set_callback)
     (seq (on_mq (connect True))
     (seq (on_mq (subscribe (bytes_of (''gateway/'' @ wipy_id @ ''/discover'')) 0))
     (seq (on_mq (subscribe (bytes_of ''gateway/check'') 0))
     (seq (on_mq (subscribe (bytes_of (''gateway/'' @ wipy_id @ ''/led/set'')) 0))
     (seq publish_alive
     (modify (\<lambda>s. s\<lparr>lamp := 0\<rparr>)))))))"

definition wipy_turn :: "string \<Rightarrow> (pycom_node, unit) py" where
  "wipy_turn position =
     bind (gets (\<lambda>s. length (delivered (mq s)))) (\<lambda>k.
     seq (on_mq wait_msg)
     (bind (gets (\<lambda>s. drop k (delivered (mq s)))) (\<lambda>ds.
      for_each ds (\<lambda>(topic, msg). sub_callback position topic msg))))"

definition wipy_client :: mqtt_client where
  "wipy_client = new_client (bytes_of ''joe'') None [] 0"

definition wipy_start :: pycom_node where
  "wipy_start = \<lparr>mq = wipy_client, led_text = bytes_of ''0'', lamp = 0xff00\<rparr>"

section \<open>Properties\<close>

text \<open>
  The wait for the network ends exactly when the network is there at some poll, with the first such poll, after
  an idle call for each one before; while it is never there the program does not get past it.
\<close>

theorem network_awaited:
  "wait_connected isconnected = Some k \<longleftrightarrow> isconnected k \<and> (\<forall>j < k. \<not> isconnected j)"
  and network_never: "wait_connected isconnected = None \<longleftrightarrow> (\<forall>k. \<not> isconnected k)"
proof -
  have first: "isconnected k \<and> (\<forall>j < k. \<not> isconnected j)" if "wait_connected isconnected = Some k" for k
  proof -
    have "\<forall>j < k. \<not> isconnected j"
      using that unfolding wait_connected_def
      by (rule while_option_rule [where P = "\<lambda>k. \<forall>j < k. \<not> isconnected j", rotated]) (auto simp: less_Suc_eq)
    with while_option_stop [OF that [unfolded wait_connected_def]] show ?thesis by simp
  qed
  have never: "wait_connected isconnected \<noteq> None" if "isconnected k" for k
  proof -
    have "\<exists>t. while_option (\<lambda>polls. \<not> isconnected polls) Suc 0 = Some t"
      by (rule measure_while_option_Some [where P = "\<lambda>j. j \<le> k" and f = "\<lambda>j. k - j"])
        (use that in \<open>auto simp: Suc_le_eq le_less\<close>)
    then show ?thesis by (simp add: wait_connected_def)
  qed
  show "wait_connected isconnected = Some k \<longleftrightarrow> isconnected k \<and> (\<forall>j < k. \<not> isconnected j)"
  proof
    assume k: "isconnected k \<and> (\<forall>j < k. \<not> isconnected j)"
    then obtain k' where k': "wait_connected isconnected = Some k'" using never by blast
    with first have "isconnected k' \<and> (\<forall>j < k'. \<not> isconnected j)" by blast
    with k have "k' = k" by (metis nat_neq_iff)
    with k' show "wait_connected isconnected = Some k" by simp
  qed (rule first)
  show "wait_connected isconnected = None \<longleftrightarrow> (\<forall>k. \<not> isconnected k)"
    using first never by (metis not_Some_eq)
qed

lemma text_bytes [simp]: "text_of (bytes_of t) = t"
proof -
  have "char_of (unat (word_of_nat (of_char c) :: 8 word)) = c" for c
    using nat_of_char_less_256 [of c] by (simp add: unat_byte)
  then show ?thesis by (simp add: text_of_def bytes_of_def comp_def)
qed


lemma for_each_single: "for_each [x] f = f x"
  by (rule ext) (simp add: py_run split: prod.split sum.split)

lemma on_mq_run: "on_mq m s = (fst (m (mq s)), s\<lparr>mq := snd (m (mq s))\<rparr>)"
  by (simp add: on_mq_def split: prod.split)

text \<open>A text that is not too long is published as one packet.\<close>

lemma publish_text_run:
  assumes "publish_size topic (bytes_of (dumps v)) 0 < 2097152"
  shows "publish_text topic v s =
    (Inr (), s\<lparr>mq := (mq s)\<lparr>written := written (mq s) @ publish_frame topic (bytes_of (dumps v)) False 0 (pid (mq s))\<rparr>\<rparr>)"
  using publish_run [OF assms, of False "mq s"] by (simp add: publish_text_def on_mq_run)

definition led_set_topic :: bytes where
  "led_set_topic = bytes_of (''gateway/'' @ wipy_id @ ''/led/set'')"

lemma led_set_callback:
  assumes "parse_int (text_of msg) = Inr i"
    and "publish_size (wipy_topic ''led'') (bytes_of (dumps (JObj [(''value'', JStr (text_of msg))]))) 0 < 2097152"
  shows "sub_callback position led_set_topic msg s =
    (Inr (), s\<lparr>led_text := msg, lamp := (if i \<noteq> 0 then 0x7f0000 else 0),
       mq := (mq s)\<lparr>written := written (mq s) @ publish_frame (wipy_topic ''led'')
         (bytes_of (dumps (JObj [(''value'', JStr (text_of msg))]))) False 0 (pid (mq s))\<rparr>\<rparr>)"
proof -
  have "led_set_topic \<noteq> bytes_of ''gateway/check''"
  proof
    assume "led_set_topic = bytes_of ''gateway/check''"
    then have "text_of led_set_topic = text_of (bytes_of ''gateway/check'')" by (rule arg_cong)
    then have "text_of led_set_topic = ''gateway/check''" by (simp only: text_bytes)
    then show False by (simp add: led_set_topic_def wipy_id_def)
  qed
  moreover have "\<not> ends_with ''discover'' (text_of led_set_topic)" "ends_with ''led/set'' (text_of led_set_topic)"
    by (simp_all add: led_set_topic_def wipy_id_def ends_with_def)
  ultimately show ?thesis
    using assms(1) publish_text_run [OF assms(2)]
    by (simp add: sub_callback_def publish_led_value_def bind_gets seq_modify)
qed


lemma frame_pid: "publish_frame topic msg retain 0 p = publish_frame topic msg retain 0 0"
  by (simp add: publish_frame_def publish_body_def)

lemma frame_read:
  assumes "cb_set r" and "length topic < 65536"
  shows "wait_msg (r\<lparr>unread := publish_frame topic msg retain 0 p @ rest\<rparr>) =
    (Inr None, r\<lparr>unread := rest, blocking := True, delivered := delivered r @ [(topic, msg)]\<rparr>)"
  using wait_msg_frame [of "r\<lparr>unread := publish_frame topic msg retain 0 p @ rest\<rparr>" topic msg retain 0 0 rest]
    assms frame_pid [of topic msg retain p] by simp

text \<open>
  C26: Setting the LED of the WiPy node: when a publication to its \<open>led/set\<close> topic with a number arrives, one
  turn of its loop takes just that packet, sets the LED and writes one packet, from which a
  client reads the new value on the topic of the LED.
\<close>

theorem led_set_answered:
  assumes "cb_set (mq s)" and "unread (mq s) = publish_frame led_set_topic msg retain 0 p @ rest"
    and "parse_int (text_of msg) = Inr i"
    and "publish_size (wipy_topic ''led'') (bytes_of (dumps (JObj [(''value'', JStr (text_of msg))]))) 0 < 2097152"
    and "cb_set r"
  shows "\<exists>F s'. wipy_turn position s = (Inr (), s')
    \<and> led_text s' = msg \<and> lamp s' = (if i \<noteq> 0 then 0x7f0000 else 0)
    \<and> unread (mq s') = rest \<and> written (mq s') = written (mq s) @ F
    \<and> wait_msg (r\<lparr>unread := F @ later\<rparr>) = (Inr None, r\<lparr>unread := later, blocking := True,
        delivered := delivered r @ [(wipy_topic ''led'', bytes_of (dumps (JObj [(''value'', JStr (text_of msg))])))]\<rparr>)"
proof -
  have len: "length led_set_topic < 65536" "length (wipy_topic ''led'') < 65536"
    by (simp_all add: led_set_topic_def wipy_topic_def wipy_id_def bytes_of_def)
  let ?c = "(mq s)\<lparr>unread := rest, blocking := True, delivered := delivered (mq s) @ [(led_set_topic, msg)]\<rparr>"
  have "mq s = (mq s)\<lparr>unread := publish_frame led_set_topic msg retain 0 p @ rest\<rparr>"
    using assms(2) by (metis (no_types) mqtt_client.surjective mqtt_client.update_convs(11))
  then have "wait_msg (mq s) = (Inr None, ?c)"
    using frame_read [OF assms(1) len(1), of msg retain p rest] by simp
  then have w: "on_mq wait_msg s = (Inr None, s\<lparr>mq := ?c\<rparr>)" by (simp add: on_mq_run)
  have run: "wipy_turn position s = sub_callback position led_set_topic msg (s\<lparr>mq := ?c\<rparr>)"
    by (simp add: wipy_turn_def bind_gets seq_first [where m = "on_mq wait_msg", OF w] for_each_single del: for_each.simps)
  show ?thesis
    using led_set_callback [OF assms(3,4), of position "s\<lparr>mq := ?c\<rparr>"] run frame_read [OF assms(5) len(2)] by simp
qed

theorem led_set_answered_witness:
  "\<exists>s'. wipy_turn [] (wipy_start\<lparr>mq := wipy_client\<lparr>cb_set := True,
       unread := publish_frame led_set_topic (bytes_of ''1'') False 0 0\<rparr>\<rparr>) = (Inr (), s') \<and> lamp s' = 0x7f0000"
proof -
  let ?s = "wipy_start\<lparr>mq := wipy_client\<lparr>cb_set := True,
       unread := publish_frame led_set_topic (bytes_of ''1'') False 0 0\<rparr>\<rparr>"
  have i: "parse_int (text_of (bytes_of ''1'')) = Inr 1"
    by (simp add: parse_int_def strip_def is_space_def is_digit_def nat_of_digits_def digit_val_def Let_def)
  have n: "publish_size (wipy_topic ''led'') (bytes_of (dumps (JObj [(''value'', JStr (text_of (bytes_of ''1'')))]))) 0 < 2097152"
    unfolding text_bytes by (simp add: publish_size_def wipy_topic_def wipy_id_def bytes_of_def dumps_str_def escape_char_def)
  from led_set_answered [OF _ _ i n, of ?s False 0 "[]" "wipy_client\<lparr>cb_set := True\<rparr>" "[]"]
  show ?thesis by auto
qed

text \<open>
  Asked for its values, the WiPy node answers with the value its LED had at the start, whatever was
  set since: the dictionary of resources keeps the first value.
\<close>

theorem values_report_first_led:
  assumes "\<forall>(res, v) \<in> set (wipy_resources position).
      publish_size (wipy_topic res) (bytes_of (dumps (JObj [(''value'', JStr v)]))) 0 < 2097152"
  shows "\<exists>F G. \<forall>s. publish_resources_values position s = (Inr (), s\<lparr>mq := (mq s)\<lparr>written := written (mq s) @ F @ G\<rparr>\<rparr>)
    \<and> G = publish_frame (wipy_topic ''led'') (bytes_of (dumps (JObj [(''value'', JStr ''0'')]))) False 0 0"
proof -
  let ?f = "\<lambda>(res, v). publish_frame (wipy_topic res) (bytes_of (dumps (JObj [(''value'', JStr v)]))) False 0 0"
  have all: "for_each xs (\<lambda>(res, v). publish_text (wipy_topic res) (JObj [(''value'', JStr v)])) s =
      (Inr (), s\<lparr>mq := (mq s)\<lparr>written := written (mq s) @ concat (map ?f xs)\<rparr>\<rparr>)"
    if "\<forall>(res, v) \<in> set xs. publish_size (wipy_topic res) (bytes_of (dumps (JObj [(''value'', JStr v)]))) 0 < 2097152" for xs s
    using that
  proof (induction xs arbitrary: s)
    case (Cons p xs)
    obtain res v where p: "p = (res, v)" by fastforce
    define d where "d = JObj [(''value'', JStr v)]"
    have "publish_size (wipy_topic res) (bytes_of (dumps d)) 0 < 2097152" using Cons.prems by (simp add: p d_def)
    note one = publish_text_run [OF this] frame_pid [of "wipy_topic res" "bytes_of (dumps d)" False]
    have "concat (map ?f (p # xs)) = publish_frame (wipy_topic res) (bytes_of (dumps d)) False 0 0 @ concat (map ?f xs)"
      by (simp add: p d_def)
    then show ?case
      using Cons.IH Cons.prems one
      by (simp add: p d_def [symmetric] seq_run del: concat.simps list.map) 
  qed (simp add: ret_run)
  obtain fs where fs: "wipy_resources position = fs @ [(''led'', ''0'')]" by (simp add: wipy_resources_def)
  show ?thesis
    using all [OF assms] by (intro exI [of _ "concat (map ?f fs)"] exI [of _ "?f (''led'', ''0'')"]) (simp add: publish_resources_values_def fs)
qed


theorem values_report_first_led_witness:
  "\<exists>F. written (mq (snd (publish_resources_values [] (wipy_start\<lparr>led_text := bytes_of ''1''\<rparr>)))) =
    F @ publish_frame (wipy_topic ''led'') (bytes_of (dumps (JObj [(''value'', JStr ''0'')]))) False 0 0"
proof -
  have "publish_size (wipy_topic res) (bytes_of (dumps (JObj [(''value'', JStr v)]))) 0 < 2097152"
    if "length res < 1000" "length (dumps_str v) < 1000" for res v
    using that by (simp add: publish_size_def wipy_topic_def wipy_id_def bytes_of_def dumps_str_def escape_char_def)
  moreover have "\<forall>(res, v) \<in> set (wipy_resources []). length res < 1000 \<and> length (dumps_str v) < 1000"
    by (simp add: wipy_resources_def dumps_str_def escape_char_def)
  ultimately have "\<forall>(res, v) \<in> set (wipy_resources []).
      publish_size (wipy_topic res) (bytes_of (dumps (JObj [(''value'', JStr v)]))) 0 < 2097152"
    by fast
  from values_report_first_led [OF this] show ?thesis by force
qed

end
