(* ===== verification/Ws_Properties.thy ===== *)
theory Ws_Properties
  imports Ws_Gateway
begin

text \<open>
  What the websocket gateway does: like the MQTT gateway it is mute, since \<open>open\<close> does not await
  \<open>add_node\<close>, and so every operation that looks up the node of a socket fails.
\<close>

section \<open>The contract of the shared operations\<close>

lemma ws_grows [cache_keeps]:
  "cache.upholds fl (socket_of r)" "cache.upholds fl (ws_write w m)"
  by (auto simp: cache.upholds_def socket_of_def ws_write_def py_run cache.refl_state grows_def gateway_ok_def
      same_connection_def)

lemma ws_methods_grow:
  "cache.upholds fl (ws_discover_node r)" "cache.upholds fl (ws_await_update r k v)"
  unfolding ws_discover_node_def ws_await_update_def ws_update_node_resource_def
  by (intro cache_rules cache_keeps)+

interpretation wsgw: gateway_protocol fl ws_protocol ws_discover_node "\<lambda>_. ret ()" ws_await_update
  by unfold_locales (intro ws_methods_grow cache.upholds_ret)+

section \<open>The gateway is mute\<close>

lemma ws_mute [mute_keeps]:
  "muted.upholds (modify (\<lambda>s. s\<lparr>ws_mapping := f s\<rparr>))" "muted.upholds (ws_set_up w b)"
  "muted.upholds (ws_close w code r)" "muted.upholds (mapped_uid w)"
  unfolding ws_set_up_def ws_close_def mapped_uid_def
  by (intro mute_extension mute_rules; simp)+

lemma ws_handlers_mute [mute_keeps]:
  "muted.upholds (on_node_message w m)" "muted.upholds (ws_remove w)" "muted.upholds (ws_open w uuid)"
  unfolding on_node_message_def ws_remove_def ws_open_def by (intro mute_rules mute_keeps)+

lemma ws_on_message_mute [mute_keeps]: "muted.upholds (ws_on_message fl w raw)"
  unfolding ws_on_message_def by (intro mute_rules mute_keeps)

lemma ws_handle_mute: "muted.upholds (ws_handle fl enc ks ev)"
  by (cases ev) (auto simp: ws_on_close_def intro!: mute_rules mute_keeps)

interpretation ws_service: service "ws_handle fl enc ks" ws_enabled "ws_init now" mute
proof unfold_locales
  show "mute (ws_init now)" by (simp add: mute_def ws_init_def gateway_init_def gateway.defs)
  fix s :: ws_gateway and ev
  assume "mute s"
  then show "mute (snd (ws_handle fl enc ks ev s))"
    using muted.upholdsD [OF ws_handle_mute] unfolding stays_mute_def by blast
qed

section \<open>Properties\<close>

definition ws_demo_run :: "ws_event list" where
  "ws_demo_run = [NodeOpen 7 ''u7'', NodeLost 7]"

lemma ws_demo_reachable:
  "reachable (ws_handle fl enc ks) ws_enabled (ws_init 0) (run_events (ws_handle fl enc ks) (ws_init 0) ws_demo_run)"
  by (rule reachable_run [OF reach_start])
    (simp add: ws_demo_run_def ws_init_def gateway_init_def gateway.defs ws_set_up_def py_run)

lemma ws_demo_mapping: "ws_mapping (run_events (ws_handle fl enc ks) (ws_init 0) ws_demo_run) = [(7, ''u7'')]"
  by (simp add: ws_demo_run_def ws_init_def gateway_init_def gateway.defs ws_set_up_def ws_open_def
      new_object_def py_run)

text \<open>
  C37: The websocket gateway never announces a node: in every state it can reach its cache is
  empty and it has told the broker nothing but that it is alive, because \<open>open\<close> calls \<open>add_node\<close>
  without awaiting it.
\<close>

theorem ws_announces_nothing:
  assumes "reachable (ws_handle fl enc ks) ws_enabled (ws_init now) s"
  shows "nodes s = [] \<and> set (outbox s) \<subseteq> {gateway_alive}"
  using ws_service.reachable_good [OF assms] by (simp add: mute_def)

theorem ws_announces_nothing_witness:
  "\<exists>s :: ws_gateway. ws_mapping s = [(7, ''u7'')] \<and> nodes s = [] \<and> set (outbox s) \<subseteq> {gateway_alive}"
  using ws_announces_nothing [OF ws_demo_reachable] ws_demo_mapping by blast

text \<open>
  In every state the websocket gateway can reach, the values a node sends are lost and its
  departure is not handled: a message with data raises \<open>KeyError\<close>, and so does the end of the
  connection, which leaves the dead socket in the table.
\<close>

theorem ws_nodes_not_served:
  assumes "reachable (ws_handle fl enc ks) ws_enabled (ws_init now) s" and "dict_has (ws_mapping s) w"
    and "loads fl m = Inr (JObj kvs)" and "dict_get kvs ''type'' = Some (JStr ''update'')"
    and "dict_get kvs ''data'' = Some (JObj (kv # data))"
  shows "ws_handle fl enc ks (NodeMessage w (Text m)) s = (Inl KeyError, s)
    \<and> ws_handle fl enc ks (NodeClose w) s = (Inl KeyError, s\<lparr>ws_up := (ws_up s)(w := False)\<rparr>)"
proof -
  have "nodes s = []" using ws_service.reachable_good [OF assms(1)] by (simp add: mute_def)
  moreover obtain u where "dict_get (ws_mapping s) w = Some u" using assms(2) by (auto simp: dict_has_def)
  moreover have "check_message fl (Text m) = Inr (Some (JObj kvs), None)"
    by (rule check_message_valid [OF assms(3)]) (use assms(4) in \<open>simp add: valid_message_def message_types_def\<close>)
  ultimately show ?thesis
    using assms(2,4,5)
    by (cases kv) (simp add: ws_on_message_def on_node_message_def py_getitem_def py_items_def mapped_uid_def
        get_node_def ws_set_up_def ws_on_close_def ws_remove_def py_run)
qed

theorem ws_nodes_not_served_witness:
  "\<exists>s :: ws_gateway. ws_mapping s = [(7, ''u7'')]
     \<and> fst (ws_handle id toy_enc \<lparr>private_key = ''k'', secret_key = ''s''\<rparr> (NodeClose 7) s) = Inl KeyError"
proof -
  let ?kvs = "[(''type'', JStr ''update''), (''data'', JObj [(''led'', JInt 1)])]"
  have "loads id (serialize (JObj ?kvs)) = Inr (JObj ?kvs)" by (rule serialize_read) simp
  from ws_nodes_not_served [OF ws_demo_reachable _ this, of toy_enc "\<lparr>private_key = ''k'', secret_key = ''s''\<rparr>" 7]
  have "fst (ws_handle id toy_enc \<lparr>private_key = ''k'', secret_key = ''s''\<rparr> (NodeClose 7)
      (run_events (ws_handle id toy_enc \<lparr>private_key = ''k'', secret_key = ''s''\<rparr>) (ws_init 0) ws_demo_run)) = Inl KeyError"
    by (simp add: ws_demo_mapping)
  with ws_demo_mapping show ?thesis by blast
qed

end
