(* ===== verification/Ws_Node.thy ===== *)
theory Ws_Node
  imports Messaging
begin

text \<open>
  \<open>utils/ws/ws_test_client.py\<close>: the websocket test client.

  The parsed arguments are a dictionary of attributes.  The outcome of
  \<open>websocket.create_connection\<close> and the texts that \<open>recv\<close> returns before it raises are arguments;
  \<open>node_sent\<close> holds the texts the client has sent.  They are ASCII, so the escaping of \<open>json.dumps\<close>
  does not show.
\<close>

section \<open>The client\<close>

record ws_node =
  connected_to :: "string option"
  node_sent :: "string list"

definition ws_send :: "json \<Rightarrow> (ws_node, unit) py" where
  "ws_send v = modify (\<lambda>n. n\<lparr>node_sent := node_sent n @ [dumps v]\<rparr>)"

definition init_node :: "(ws_node, unit) py" where
  "init_node = ws_send (JObj [(''type'', JStr ''update''),
     (''data'', JObj [(''node'', JStr ''fd00:aaaa:bbbb::1''), (''name'', JStr ''websocket''), (''led'', JStr ''0''),
                     (''os'', JStr ''riot'')])])"

definition answer_text :: "(string \<Rightarrow> string) \<Rightarrow> string \<Rightarrow> (ws_node, unit) py" where
  "answer_text fl msg =
     (if msg = discover_node_msg then init_node
      else bind (lift (loads fl msg)) (\<lambda>v.
           bind (lift (py_getitem v ''payload'')) (\<lambda>payload.
           ws_send (JObj [(''type'', JStr ''update''),
             (''data'', JObj [(''led'', JStr (if payload = JStr ''1'' then ''1'' else ''0''))])]))))"

definition arg_value :: "(string, string) dict \<Rightarrow> string \<Rightarrow> exn + string" where
  "arg_value args n = or_raise AttributeError (dict_get args n)"

definition ws_main :: "(string \<Rightarrow> string) \<Rightarrow> (string, string) dict \<Rightarrow> exn + unit \<Rightarrow> string list \<Rightarrow> (ws_node, unit) py" where
  "ws_main fl args connection received =
     bind (lift (arg_value args ''host'')) (\<lambda>h.
     bind (lift (arg_value args ''port'')) (\<lambda>p.
     (case connection of
        Inl e \<Rightarrow> if e = ConnectionRefusedError then ret () else raise e
      | Inr _ \<Rightarrow>
          seq (modify (\<lambda>n. n\<lparr>connected_to := Some (''ws://'' @ h @ '':'' @ p @ ''/node'')\<rparr>))
          (seq init_node
          (for_each received (answer_text fl))))))"

text \<open>What \<open>parse_args\<close> makes of the options: an option that is not given has its default.\<close>

definition client_args :: "string option \<Rightarrow> string option \<Rightarrow> (string, string) dict" where
  "client_args h p =
     [(''gateway_host'', case h of Some x \<Rightarrow> x | None \<Rightarrow> ''localhost''),
      (''gateway_port'', case p of Some x \<Rightarrow> x | None \<Rightarrow> ''8001'')]"

section \<open>Properties\<close>

text \<open>
  The client never connects: \<open>main\<close> reads the attributes \<open>host\<close> and \<open>port\<close>, which the parser does not
  make, so whatever the options it ends with \<open>AttributeError\<close>, before anything is sent.
\<close>

theorem ws_client_never_connects:
  "ws_main fl (client_args h p) connection received n = (Inl AttributeError, n)"
  by (simp add: ws_main_def client_args_def arg_value_def or_raise_def py_run)

text \<open>
  With the attributes that \<open>main\<close> expects, every text but a discovery request or JSON with a
  payload ends the client; a payload of \<open>1\<close> switches the LED it reports on, any other off.
\<close>

theorem ws_client_answers:
  assumes "loads fl msg = Inr (JObj kvs)" and "dict_get kvs ''payload'' = Some v" and "msg \<noteq> discover_node_msg"
  shows "answer_text fl msg n = (Inr (), n\<lparr>node_sent := node_sent n @
    [dumps (JObj [(''type'', JStr ''update''), (''data'', JObj [(''led'', JStr (if v = JStr ''1'' then ''1'' else ''0''))])])]\<rparr>)"
  using assms by (simp add: answer_text_def py_getitem_def ws_send_def py_run or_raise_def)

end
