(* ===== verification/Key_File.thy ===== *)
theory Key_File
  imports Auth
begin

text \<open>
  The key file of \<open>pyaiot/common/auth.py\<close>: \<open>write_keys_to_file\<close> and \<open>check_key_file\<close>, with what
  they use of \<open>configparser\<close> (CPython 3.12: strict, basic interpolation, delimiters \<open>=\<close> and \<open>:\<close>,
  full-line comments), of \<open>os.path\<close> and of the file system.  Files are ASCII text; every directory can
  be made and every file opened for writing (no errors of permissions, no file in place of a
  directory).
\<close>

section \<open>Reading a configuration\<close>

type_synonym raw_section = "(string, string list) dict"

text \<open>
  The parser half-way through a file: \<open>current\<close> is the section options go to, \<open>option_name\<close> the
  option that a deeper line continues (empty: none), \<open>bad\<close> that a line was no option.
\<close>

record ini =
  defaults :: raw_section
  sections :: "(string, raw_section) dict"
  current_section :: "string option"
  option_name :: string
  indent :: nat
  bad :: bool

definition default_section :: string where
  "default_section = ''DEFAULT''"

definition section_named :: "ini \<Rightarrow> string \<Rightarrow> raw_section" where
  "section_named s c = (if c = default_section then defaults s
     else case dict_get (sections s) c of Some d \<Rightarrow> d | None \<Rightarrow> [])"

definition put_section :: "ini \<Rightarrow> string \<Rightarrow> raw_section \<Rightarrow> ini" where
  "put_section s c d = (if c = default_section then s\<lparr>defaults := d\<rparr>
     else s\<lparr>sections := dict_put (sections s) c d\<rparr>)"

definition add_line :: "ini \<Rightarrow> string \<Rightarrow> string \<Rightarrow> ini" where
  "add_line s c v =
     (let d = section_named s c in
      case dict_get d (option_name s) of
        Some vs \<Rightarrow> put_section s c (dict_put d (option_name s) (vs @ [v]))
      | None \<Rightarrow> s)"

definition lower_char :: "char \<Rightarrow> char" where
  "lower_char c = (if CHR ''A'' \<le> c \<and> c \<le> CHR ''Z'' then char_of (of_char c + 32 :: nat) else c)"

definition lower :: "string \<Rightarrow> string" where
  "lower = map lower_char"

definition rstrip :: "string \<Rightarrow> string" where
  "rstrip s = rev (dropWhile is_space (rev s))"

text \<open>A section header: brackets around at least one character, up to the last closing one.\<close>

definition header_name :: "string \<Rightarrow> string option" where
  "header_name v = (case v of
     c # r \<Rightarrow> (let h = rev (tl (dropWhile (\<lambda>x. x \<noteq> CHR '']'') (rev r))) in
       if c = CHR ''['' \<and> CHR '']'' \<in> set r \<and> h \<noteq> [] then Some h else None)
   | [] \<Rightarrow> None)"

definition is_delimiter :: "char \<Rightarrow> bool" where
  "is_delimiter c \<longleftrightarrow> c = CHR ''='' \<or> c = CHR '':''"

definition option_line :: "string \<Rightarrow> (string \<times> string) option" where
  "option_line v =
     (if list_ex is_delimiter v
      then Some (rstrip (takeWhile (\<lambda>c. \<not> is_delimiter c) v), strip (tl (dropWhile (\<lambda>c. \<not> is_delimiter c) v)))
      else None)"

definition read_entry :: "string \<Rightarrow> ini \<Rightarrow> exn + ini" where
  "read_entry v s =
     (case header_name v of
        Some h \<Rightarrow>
          if dict_has (sections s) h then Inl ConfigError
          else if h = default_section then Inr (s\<lparr>current_section := Some h, option_name := []\<rparr>)
          else Inr (s\<lparr>sections := sections s @ [(h, [])], current_section := Some h, option_name := []\<rparr>)
      | None \<Rightarrow>
          (case current_section s of
             None \<Rightarrow> Inl ConfigError
           | Some c \<Rightarrow>
               (case option_line v of
                  None \<Rightarrow> Inr (s\<lparr>bad := True\<rparr>)
                | Some (n, x) \<Rightarrow>
                    let d = section_named s c in
                    if dict_has d (lower n) then Inl ConfigError
                    else Inr (put_section s c (dict_put d (lower n) [x])
                           \<lparr>option_name := lower n, bad := bad s \<or> n = []\<rparr>))))"

definition read_line :: "string \<Rightarrow> ini \<Rightarrow> exn + ini" where
  "read_line line s =
     (let comment = (strip line \<noteq> [] \<and> hd (strip line) \<in> {CHR ''#'', CHR '';''});
          value = (if comment then [] else strip line);
          level = length (takeWhile is_space line) in
      if value = [] then
        Inr (case current_section s of
               Some c \<Rightarrow> if \<not> comment \<and> option_name s \<noteq> [] then add_line s c [] else s
             | None \<Rightarrow> s)
      else case current_section s of
        Some c \<Rightarrow>
          if option_name s \<noteq> [] \<and> level > indent s then Inr (add_line s c value)
          else read_entry value (s\<lparr>indent := level\<rparr>)
      | None \<Rightarrow> read_entry value (s\<lparr>indent := level\<rparr>))"


fun read_lines :: "string list \<Rightarrow> ini \<Rightarrow> exn + ini" where
  "read_lines [] s = Inr s"
| "read_lines (l # ls) s = (case read_line l s of Inl e \<Rightarrow> Inl e | Inr t \<Rightarrow> read_lines ls t)"

text \<open>The lines of a file: a final newline ends the last line.\<close>

definition file_lines :: "string \<Rightarrow> string list" where
  "file_lines t = (let ls = split_on CHR 0x0A t in if last ls = [] then butlast ls else ls)"

definition empty_ini :: ini where
  "empty_ini = \<lparr>defaults = [], sections = [], current_section = None, option_name = [], indent = 0, bad = False\<rparr>"

definition joined :: "string list \<Rightarrow> string" where
  "joined vs = rstrip (join_with [CHR 0x0A] vs)"

text \<open>\<open>config.read\<close> of one file; options of the default section show through in every section.\<close>

definition read_config :: "string \<Rightarrow> exn + ini" where
  "read_config t =
     (case read_lines (file_lines t) empty_ini of
        Inl e \<Rightarrow> Inl e | Inr s \<Rightarrow> if bad s then Inl ConfigError else Inr s)"

definition raw_option :: "ini \<Rightarrow> string \<Rightarrow> string \<Rightarrow> string option" where
  "raw_option s c n =
     (case dict_get (sections s) c of
        None \<Rightarrow> None
      | Some d \<Rightarrow> map_option joined (case dict_get d n of Some vs \<Rightarrow> Some vs | None \<Rightarrow> dict_get (defaults s) n))"

section \<open>Interpolation\<close>

text \<open>What follows \<open>%(\<close> when it is the rest of a reference \<open>%(name)s\<close>.\<close>

definition reference :: "string \<Rightarrow> (string \<times> string) option" where
  "reference r =
     (let n = takeWhile (\<lambda>c. c \<noteq> CHR '')'') r in
      case dropWhile (\<lambda>c. c \<noteq> CHR '')'') r of
        _ # c # u \<Rightarrow> if n \<noteq> [] \<and> c = CHR ''s'' then Some (n, u) else None
      | _ \<Rightarrow> None)"

lemma reference_shorter: "reference r = Some (n, u) \<Longrightarrow> length u < length r"
  using length_dropWhile_le [of "\<lambda>c. c \<noteq> CHR '')''" r]
  by (auto simp: reference_def Let_def split: list.splits if_splits)

function interpolate :: "nat \<Rightarrow> (string \<Rightarrow> string option) \<Rightarrow> string \<Rightarrow> exn + string" where
  "interpolate d m s =
     (case s of
        [] \<Rightarrow> Inr []
      | c # r \<Rightarrow>
          if c \<noteq> CHR ''%'' then map_sum id (Cons c) (interpolate d m r)
          else (case r of
            [] \<Rightarrow> Inl ConfigError
          | x # u \<Rightarrow>
              if x = CHR ''%'' then map_sum id (Cons x) (interpolate d m u)
              else if x \<noteq> CHR ''('' then Inl ConfigError
              else (case reference u of
                None \<Rightarrow> Inl ConfigError
              | Some (n, w) \<Rightarrow>
                  (case m (lower n) of
                     None \<Rightarrow> Inl ConfigError
                   | Some v \<Rightarrow>
                       (case (if CHR ''%'' \<notin> set v then Inr v
                              else if d = 0 then Inl ConfigError else interpolate (d - 1) m v) of
                          Inl e \<Rightarrow> Inl e
                        | Inr v' \<Rightarrow> map_sum id (append v') (interpolate d m w))))))"
  by pat_completeness auto
termination
  by (relation "measures [\<lambda>(d, m, s). d, \<lambda>(d, m, s). length s]") (auto dest!: reference_shorter)

declare interpolate.simps [simp del]

text \<open>\<open>config[section][option]\<close>; references nest at most ten deep.\<close>

definition config_option :: "ini \<Rightarrow> string \<Rightarrow> string \<Rightarrow> exn + string" where
  "config_option s c n =
     (case raw_option s c n of
        None \<Rightarrow> Inl KeyError
      | Some v \<Rightarrow> interpolate 9 (raw_option s c) v)"

text \<open>A value that may be set: no percent sign outside \<open>%%\<close> and \<open>%(name)s\<close>.\<close>

fun drop_doubled :: "string \<Rightarrow> string" where
  "drop_doubled (c # d # s) =
     (if c = CHR ''%'' \<and> d = CHR ''%'' then drop_doubled s else c # drop_doubled (d # s))"
| "drop_doubled s = s"

function drop_references :: "string \<Rightarrow> string" where
  "drop_references s =
     (case s of
        [] \<Rightarrow> []
      | c # r \<Rightarrow>
          (case (if c = CHR ''%'' \<and> r \<noteq> [] \<and> hd r = CHR ''('' then reference (tl r) else None) of
             Some (n, u) \<Rightarrow> drop_references u
           | None \<Rightarrow> c # drop_references r))"
  by pat_completeness auto
termination
  by (relation "measure length") (auto dest!: reference_shorter split: if_splits)

declare drop_references.simps [simp del]

definition before_set :: "string \<Rightarrow> exn + unit" where
  "before_set v = (if CHR ''%'' \<in> set (drop_references (drop_doubled v)) then Inl ValueError else Inr ())"

section \<open>The file system\<close>

record disk =
  files :: "string \<Rightarrow> string option"
  directories :: "string set"
  home :: "string \<Rightarrow> string option"

text \<open>
  \<open>home d name\<close> is the home directory of the user of that name, of the own user for the empty name.
  \<open>os.path.dirname\<close>, and \<open>os.path.expanduser\<close>: a tilde and the name behind it, up to the first slash,
  become that user's directory without slashes at its end; an unknown user's path stays as it is.
\<close>

definition dirname :: "string \<Rightarrow> string" where
  "dirname p =
     (let h = rev (dropWhile (\<lambda>c. c \<noteq> CHR ''/'') (rev p)) in
      if list_all (\<lambda>c. c = CHR ''/'') h then h
      else rev (dropWhile (\<lambda>c. c = CHR ''/'') (rev h)))"

definition expanduser :: "disk \<Rightarrow> string \<Rightarrow> string" where
  "expanduser d p =
     (case p of
        [] \<Rightarrow> []
      | c # q \<Rightarrow>
          if c \<noteq> CHR ''~'' then p
          else let name = takeWhile (\<lambda>x. x \<noteq> CHR ''/'') q in
            case home d name of
              None \<Rightarrow> p
            | Some h \<Rightarrow>
                let e = rev (dropWhile (\<lambda>x. x = CHR ''/'') (rev h)) @ drop (length name) q
                in if e = [] then ''/'' else e)"

definition makedirs :: "string \<Rightarrow> (disk, unit) py" where
  "makedirs p = (if p = [] then raise FileNotFoundError
     else modify (\<lambda>d. d\<lparr>directories := insert p (directories d)\<rparr>))"

section \<open>Writing and checking the keys\<close>

definition keys_text :: "keys \<Rightarrow> string" where
  "keys_text ks =
     (let indented = (\<lambda>v. join_with [CHR 0x0A, CHR 0x09] (split_on CHR 0x0A v)) in
      ''[keys]'' @ [CHR 0x0A]
      @ ''secret = '' @ indented (secret_key ks) @ [CHR 0x0A]
      @ ''private = '' @ indented (private_key ks) @ [CHR 0x0A] @ [CHR 0x0A])"

definition write_keys_to_file :: "string \<Rightarrow> keys \<Rightarrow> (disk, unit) py" where
  "write_keys_to_file filename ks =
     seq (lift (before_set (secret_key ks)))
     (seq (lift (before_set (private_key ks)))
     (bind (gets directories) (\<lambda>ds.
      seq (if dirname filename \<notin> ds then makedirs (dirname filename) else ret ())
     (modify (\<lambda>d. d\<lparr>files := (files d)(filename \<mapsto> keys_text ks)\<rparr>)))))"

definition check_key_file :: "string \<Rightarrow> (disk, keys) py" where
  "check_key_file filename =
     bind (gets (\<lambda>d. files d (expanduser d filename))) (\<lambda>content.
     case content of
       None \<Rightarrow> raise ValueError
     | Some t \<Rightarrow>
         bind (lift (read_config t)) (\<lambda>s.
         if raw_option s ''keys'' ''secret'' = None \<or> raw_option s ''keys'' ''private'' = None then raise ValueError
         else bind (lift (config_option s ''keys'' ''private'')) (\<lambda>private.
              bind (lift (config_option s ''keys'' ''secret'')) (\<lambda>secret.
              ret \<lparr>private_key = private, secret_key = secret\<rparr>))))"


section \<open>Properties\<close>

text \<open>Texts that need no quoting: no white space and no percent sign.\<close>

definition plain :: "string \<Rightarrow> bool" where
  "plain v \<longleftrightarrow> list_all (\<lambda>c. \<not> is_space c \<and> c \<noteq> CHR ''%'') v"

lemma plain_no_newline: "plain v \<Longrightarrow> CHR 0x0A \<notin> set v"
proof -
  have "is_space CHR 0x0A" by (simp add: is_space_def)
  then show "plain v \<Longrightarrow> CHR 0x0A \<notin> set v" by (auto simp: plain_def list_all_iff)
qed

lemma plain_no_percent: "plain v \<Longrightarrow> CHR ''%'' \<notin> set v"
  by (auto simp: plain_def list_all_iff)

lemma dropWhile_hd: "xs = [] \<or> \<not> P (hd xs) \<Longrightarrow> dropWhile P xs = xs"
  by (cases xs) auto

lemma strip_tight: "xs = [] \<or> \<not> is_space (hd xs) \<and> \<not> is_space (last xs) \<Longrightarrow> strip xs = xs"
  by (cases "xs = []") (simp_all add: strip_def dropWhile_hd hd_rev)

lemma rstrip_tight: "xs = [] \<or> \<not> is_space (last xs) \<Longrightarrow> rstrip xs = xs"
  by (cases "xs = []") (simp_all add: rstrip_def dropWhile_hd hd_rev)

lemma strip_blank: "strip (CHR '' '' # xs) = strip xs" "rstrip (xs @ [CHR '' '']) = rstrip xs"
  by (simp_all add: strip_def rstrip_def is_space_def)

lemma strip_trailing: "strip (xs @ [CHR '' '']) = strip xs"
proof -
  have "is_space CHR '' ''" by (simp add: is_space_def)
  then show ?thesis
    by (cases "list_all is_space xs")
      (auto simp: strip_def list_all_iff dropWhile_append1 dropWhile_append2 dropWhile_eq_Nil_conv [THEN iffD2])
qed

lemma plain_ends: "plain v \<Longrightarrow> v = [] \<or> \<not> is_space (hd v) \<and> \<not> is_space (last v)"
  by (cases "v = []") (auto simp: plain_def list_all_iff)

lemma interpolate_plain: "CHR ''%'' \<notin> set v \<Longrightarrow> interpolate d m v = Inr v"
proof (induction v)
  case Nil
  then show ?case by (subst interpolate.simps) simp
next
  case (Cons c v)
  then show ?case by (subst interpolate.simps) auto
qed

lemma drop_doubled_plain: "CHR ''%'' \<notin> set v \<Longrightarrow> drop_doubled v = v"
  by (induction v rule: drop_doubled.induct) auto

lemma drop_references_plain: "CHR ''%'' \<notin> set v \<Longrightarrow> drop_references v = v"
proof (induction v)
  case Nil
  then show ?case by (subst drop_references.simps) simp
next
  case (Cons c v)
  then show ?case by (subst drop_references.simps) auto
qed

lemma before_set_plain: "plain v \<Longrightarrow> before_set v = Inr ()"
  using plain_no_percent by (simp add: before_set_def drop_doubled_plain drop_references_plain)

text \<open>A line \<open>name = value\<close>.\<close>

lemma strip_line:
  assumes "plain (c # n)" and "plain v"
  shows "strip (c # n @ '' = '' @ v) = (if v = [] then c # n @ '' ='' else c # n @ '' = '' @ v)"
proof (cases "v = []")
  case True
  have "strip (c # n @ '' ='') = c # n @ '' =''"
    using assms(1) by (intro strip_tight) (simp add: plain_def is_space_def)
  moreover have "strip ((c # n @ '' ='') @ [CHR '' '']) = strip (c # n @ '' ='')"
    using strip_trailing [of "c # n @ '' =''"] .
  moreover have "c # n @ '' = '' @ v = (c # n @ '' ='') @ [CHR '' '']" using True by simp
  ultimately show ?thesis using True by (simp only: if_True simp_thms)
next
  case False
  have "strip (c # n @ '' = '' @ v) = c # n @ '' = '' @ v"
    using assms False plain_ends [OF assms(2)] by (intro strip_tight) (simp add: plain_def)
  then show ?thesis using False by (simp only: if_False)
qed

lemma option_line_plain:
  assumes "plain (c # n)" and "plain v" and "\<not> list_ex is_delimiter (c # n)"
  shows "option_line (strip (c # n @ '' = '' @ v)) = Some (c # n, v)"
proof -
  have space: "is_space CHR '' ''" "\<not> is_delimiter CHR '' ''" "is_delimiter CHR ''=''"
    by (simp_all add: is_space_def is_delimiter_def)
  let ?k = "c # n" and ?r = "if v = [] then [] else CHR '' '' # v"
  have s: "strip (c # n @ '' = '' @ v) = ?k @ CHR '' '' # CHR ''='' # ?r"
    unfolding strip_line [OF assms(1,2)] by simp
  have none: "\<forall>x \<in> set ?k. \<not> is_delimiter x" using assms(3) by (auto simp: list_ex_iff)
  have take: "takeWhile (\<lambda>x. \<not> is_delimiter x) (?k @ CHR '' '' # CHR ''='' # ?r) = ?k @ '' ''"
    "dropWhile (\<lambda>x. \<not> is_delimiter x) (?k @ CHR '' '' # CHR ''='' # ?r) = CHR ''='' # ?r"
    using none space by (auto simp: takeWhile_append dropWhile_append)
  have k: "rstrip (?k @ '' '') = ?k"
    using rstrip_tight [of ?k] plain_ends [OF assms(1)] strip_blank(2) [of ?k] by simp
  have r: "strip ?r = v" using strip_tight [OF plain_ends [OF assms(2)]] by (simp add: strip_blank) (simp add: strip_def)
  show ?thesis
    unfolding s option_line_def take using space k r by simp
qed


lemma read_option:
  assumes "plain (c # n)" and "plain v" and "\<not> list_ex is_delimiter (c # n)" and "c \<notin> {CHR ''#'', CHR '';'', CHR ''[''}"
    and "lower (c # n) = c # n" and "current_section s = Some k" and "\<not> dict_has (section_named (s\<lparr>indent := 0\<rparr>) k) (c # n)"
  shows "read_line (c # n @ '' = '' @ v) s =
    Inr (put_section (s\<lparr>indent := 0\<rparr>) k (dict_put (section_named (s\<lparr>indent := 0\<rparr>) k) (c # n) [v])
      \<lparr>option_name := c # n, bad := bad s\<rparr>)"
proof -
  define line where "line = c # n @ '' = '' @ v"
  obtain w where w: "strip line = c # w"
    unfolding line_def strip_line [OF assms(1,2)] by (cases "v = []") simp_all
  have "\<not> is_space c" using assms(1) by (simp add: plain_def)
  then have level: "takeWhile is_space line = []" by (simp add: line_def)
  have "header_name (strip line) = None" using w assms(4) by (simp add: header_name_def)
  moreover have "option_line (strip line) = Some (c # n, v)"
    unfolding line_def by (rule option_line_plain [OF assms(1-3)])
  ultimately have "read_line line s = Inr (put_section (s\<lparr>indent := 0\<rparr>) k (dict_put (section_named (s\<lparr>indent := 0\<rparr>) k) (c # n) [v])
      \<lparr>option_name := c # n, bad := bad s\<rparr>)"
    using w level assms(4-7) by (simp add: read_line_def read_entry_def Let_def)
  then show ?thesis by (simp only: line_def)
qed

lemma keys_lines:
  assumes "plain (secret_key ks)" and "plain (private_key ks)"
  shows "file_lines (keys_text ks) = [''[keys]'', ''secret = '' @ secret_key ks, ''private = '' @ private_key ks, []]"
proof -
  have "keys_text ks = join_with [CHR 0x0A] [''[keys]'', ''secret = '' @ secret_key ks, ''private = '' @ private_key ks, [], []]"
    using assms plain_no_newline by (simp add: keys_text_def split_on_clean)
  moreover have "split_on CHR 0x0A (join_with [CHR 0x0A] [''[keys]'', ''secret = '' @ secret_key ks, ''private = '' @ private_key ks, [], []])
      = [''[keys]'', ''secret = '' @ secret_key ks, ''private = '' @ private_key ks, [], []]"
    using assms plain_no_newline by (intro split_on_join) auto
  ultimately show ?thesis by (simp add: file_lines_def)
qed

lemma read_keys:
  assumes "plain (secret_key ks)" and "plain (private_key ks)"
  shows "\<exists>s. read_config (keys_text ks) = Inr s
    \<and> raw_option s ''keys'' ''secret'' = Some (secret_key ks) \<and> raw_option s ''keys'' ''private'' = Some (private_key ks)"
proof -
  define s0 where "s0 = empty_ini\<lparr>sections := [(''keys'', [])], current_section := Some ''keys''\<rparr>"
  have l0: "read_line ''[keys]'' empty_ini = Inr s0"
    by (simp add: read_line_def strip_def is_space_def read_entry_def header_name_def empty_ini_def s0_def default_section_def)
  have s: "plain ''secret''" "\<not> list_ex is_delimiter ''secret''" "lower ''secret'' = ''secret''"
    and p: "plain ''private''" "\<not> list_ex is_delimiter ''private''" "lower ''private'' = ''private''"
    by (simp_all add: plain_def is_space_def is_delimiter_def lower_def lower_char_def less_eq_char_def)
  define s1 where "s1 = s0\<lparr>sections := [(''keys'', [(''secret'', [secret_key ks])])], option_name := ''secret''\<rparr>"
  have l1: "read_line (''secret = '' @ secret_key ks) s0 = Inr s1"
    using read_option [OF s(1) assms(1) s(2) _ s(3), of s0 "''keys''"]
    by (simp add: s0_def s1_def empty_ini_def section_named_def put_section_def default_section_def)
  define s2 where "s2 = s0\<lparr>sections := [(''keys'', [(''secret'', [secret_key ks]), (''private'', [private_key ks])])], option_name := ''private''\<rparr>"
  have l2: "read_line (''private = '' @ private_key ks) s1 = Inr s2"
    using read_option [OF p(1) assms(2) p(2) _ p(3), of s1 "''keys''"]
    by (simp add: s0_def s1_def s2_def empty_ini_def section_named_def put_section_def default_section_def)
  define s3 where "s3 = s0\<lparr>sections := [(''keys'', [(''secret'', [secret_key ks]), (''private'', [private_key ks, []])])], option_name := ''private''\<rparr>"
  have l3: "read_line [] s2 = Inr s3"
    by (simp add: read_line_def strip_def s0_def s2_def s3_def empty_ini_def add_line_def section_named_def put_section_def default_section_def)
  have "read_config (keys_text ks) = Inr s3"
    unfolding read_config_def keys_lines [OF assms] read_lines.simps l0 l1 l2 l3 sum.case
    by (simp add: s3_def s0_def empty_ini_def)
  moreover have "rstrip (private_key ks @ [CHR 0x0A]) = private_key ks"
  proof -
    have "is_space CHR 0x0A" by (simp add: is_space_def)
    then have "rstrip (private_key ks @ [CHR 0x0A]) = rstrip (private_key ks)" by (simp add: rstrip_def)
    then show ?thesis using rstrip_tight plain_ends [OF assms(2)] by auto
  qed
  ultimately show ?thesis
    using rstrip_tight [of "secret_key ks"] plain_ends [OF assms(1)]
    by (auto simp: raw_option_def s3_def joined_def)
qed

lemma expanduser_plain: "\<not> starts_with ''~'' f \<Longrightarrow> expanduser d f = f"
  by (cases f) (auto simp: expanduser_def)

lemma check_written:
  assumes "plain (secret_key ks)" and "plain (private_key ks)"
    and "files d (expanduser d f) = Some (keys_text ks)"
  shows "check_key_file f d = (Inr ks, d)"
proof -
  obtain s where "read_config (keys_text ks) = Inr s"
    "raw_option s ''keys'' ''secret'' = Some (secret_key ks)" "raw_option s ''keys'' ''private'' = Some (private_key ks)"
    using read_keys [OF assms(1,2)] by blast
  then show ?thesis
    using assms(3)
    by (simp add: check_key_file_def bind_gets config_option_def interpolate_plain plain_no_percent assms(1,2) ret_run)
qed

lemma check_same_file:
  assumes "files d' (expanduser d' f) = files d (expanduser d f)"
  shows "check_key_file f d' = (fst (check_key_file f d), d')"
  using assms by (auto simp: check_key_file_def bind_run gets_run raise_run lift_run ret_run split: option.split sum.split)



text \<open>
  A key file that is refused: one that is not there, and one without the two options, is an error
  with \<open>ValueError\<close>; a file whose first line is no section header, or that is no configuration
  file in another way, raises an error of the parser, which is no \<open>ValueError\<close>.
\<close>

theorem key_file_refused:
  assumes "files d (expanduser d f) = content"
  shows "(content = None \<longrightarrow> check_key_file f d = (Inl ValueError, d))
    \<and> (content = Some t \<longrightarrow>
        (\<forall>e. read_config t = Inl e \<longrightarrow> check_key_file f d = (Inl e, d))
      \<and> (\<forall>s. read_config t = Inr s \<and> (raw_option s ''keys'' ''secret'' = None \<or> raw_option s ''keys'' ''private'' = None)
          \<longrightarrow> check_key_file f d = (Inl ValueError, d)))"
  using assms by (auto simp: check_key_file_def py_run)

theorem key_file_refused_witness:
  "check_key_file ''k'' \<lparr>files = (\<lambda>_. None)(''k'' \<mapsto> ''secret = x''), directories = {}, home = (\<lambda>_. None)\<rparr>
    = (Inl ConfigError, \<lparr>files = (\<lambda>_. None)(''k'' \<mapsto> ''secret = x''), directories = {}, home = (\<lambda>_. None)\<rparr>)"
proof -
  let ?d = "\<lparr>files = (\<lambda>_. None)(''k'' \<mapsto> ''secret = x''), directories = {}, home = (\<lambda>_. None)\<rparr>"
  have "file_lines ''secret = x'' = [''secret = x'']" by (simp add: file_lines_def)
  moreover have "read_line ''secret = x'' empty_ini = Inl ConfigError"
    by (simp add: read_line_def strip_def is_space_def read_entry_def header_name_def empty_ini_def)
  ultimately have "read_config ''secret = x'' = Inl ConfigError" by (simp add: read_config_def)
  then show ?thesis
    using key_file_refused [of ?d "''k''" "Some ''secret = x''" "''secret = x''"] by (simp add: expanduser_def)
qed

end
