(* ===== verification/Startup.thy ===== *)
theory Startup
  imports Key_File Json
begin

text \<open>
  How an application starts: \<open>pyaiot/common/helpers.py\<close> and the \<open>run\<close> functions of the broker, the
  gateways and the dashboard.

  The options of Tornado are a dictionary from names to values.  Its two parsers are
  parameters: \<open>cli argv\<close> is \<open>options.parse_command_line()\<close> and \<open>cfg disk path\<close> is
  \<open>options.parse_config_file(path)\<close>, each with the exception it may raise.  \<open>rep\<close> is the text of a
  value that is neither a string nor a number.  The process holds what was started: the
  applications, the port each listens on, and whether a signal closes its client.
\<close>

section \<open>Options\<close>

type_synonym options = "(string, json) dict"
type_synonym cli_parser = "string list \<Rightarrow> options \<Rightarrow> exn + options"
type_synonym config_parser = "disk \<Rightarrow> json \<Rightarrow> options \<Rightarrow> exn + options"

datatype program = BrokerProgram | CoapProgram | MqttProgram | WsProgram | DashboardProgram

record started =
  program :: program
  started_keys :: "keys option"
  listens_on :: "json option"
  closes_client :: bool

record process =
  opts :: options
  argv :: "string list"
  storage :: disk
  running :: "started list"

text \<open>
  The truth of a value; a float is false when its literal is zero (the letters are those of
  \<open>NaN\<close> and \<open>Infinity\<close>).
\<close>

definition truthy :: "json \<Rightarrow> bool" where
  "truthy v = (case v of
     JNull \<Rightarrow> False | JBool b \<Rightarrow> b | JInt i \<Rightarrow> i \<noteq> 0 | JStr s \<Rightarrow> s \<noteq> []
   | JList vs \<Rightarrow> vs \<noteq> [] | JObj kvs \<Rightarrow> kvs \<noteq> []
   | JFloat f \<Rightarrow> list_ex (\<lambda>c. c \<in> set ''123456789an'') (takeWhile (\<lambda>c. c \<noteq> CHR ''e'' \<and> c \<noteq> CHR ''E'') f))"

text \<open>\<open>if not hasattr(options, name): define(name, default)\<close>\<close>

definition define_option :: "string \<times> json \<Rightarrow> options \<Rightarrow> options" where
  "define_option p o1 = (if dict_has o1 (fst p) then o1 else o1 @ [p])"

definition define_options :: "(string \<times> json) list \<Rightarrow> options \<Rightarrow> options" where
  "define_options ps o1 = fold define_option ps o1"

definition option_value :: "string \<Rightarrow> (process, json) py" where
  "option_value n = bind (gets opts) (\<lambda>o1. lift (or_raise AttributeError (dict_get o1 n)))"

text \<open>\<open>DEFAULT_KEY_FILENAME\<close>\<close>

definition default_key_filename :: "disk \<Rightarrow> string" where
  "default_key_filename d = expanduser d ''~'' @ ''/.pyaiot/keys''"

definition common_args :: "disk \<Rightarrow> (string \<times> json) list" where
  "common_args d =
     [(''config'', JNull), (''broker_host'', JStr ''localhost''), (''broker_port'', JInt 8000),
      (''debug'', JBool False), (''key_file'', JStr (default_key_filename d))]"

definition coap_extra_args :: "(string \<times> json) list" where
  "coap_extra_args = [(''coap_port'', JInt 5683), (''interface'', JNull), (''max_time'', JInt 120)]"

definition mqtt_extra_args :: "(string \<times> json) list" where
  "mqtt_extra_args = [(''mqtt_host'', JStr ''localhost''), (''mqtt_port'', JInt 1886), (''max_time'', JInt 120)]"

definition ws_extra_args :: "(string \<times> json) list" where
  "ws_extra_args = [(''gateway_port'', JInt 8001)]"

definition dashboard_extra_args :: "string \<Rightarrow> (string \<times> json) list" where
  "dashboard_extra_args static =
     [(''static_path'', JStr static), (''web_port'', JInt 8080), (''broker_ssl'', JBool False),
      (''camera_url'', JNull), (''title'', JStr ''IoT Dashboard''), (''logo'', JNull), (''favicon'', JNull),
      (''map_api_key'', JStr [])]"

definition parse_options :: "cli_parser \<Rightarrow> (process, unit) py" where
  "parse_options cli =
     bind (gets (\<lambda>p. cli (argv p) (opts p))) (\<lambda>r. bind (lift r) (\<lambda>o1. modify (\<lambda>p. p\<lparr>opts := o1\<rparr>)))"

definition parse_config_file :: "config_parser \<Rightarrow> json \<Rightarrow> (process, unit) py" where
  "parse_config_file cfg path =
     bind (gets (\<lambda>p. cfg (storage p) path (opts p))) (\<lambda>r. bind (lift r) (\<lambda>o1. modify (\<lambda>p. p\<lparr>opts := o1\<rparr>)))"

definition parse_command_line :: "cli_parser \<Rightarrow> config_parser \<Rightarrow> (string \<times> json) list \<Rightarrow> (process, unit) py" where
  "parse_command_line cli cfg extra =
     seq (modify (\<lambda>p. p\<lparr>opts := define_options (common_args (storage p)) (opts p)\<rparr>))
     (seq (modify (\<lambda>p. p\<lparr>opts := define_options extra (opts p)\<rparr>))
     (seq (parse_options cli)
     (bind (option_value ''config'') (\<lambda>path.
      seq (if truthy path then parse_config_file cfg path else ret ())
     (parse_options cli)))))"

section \<open>Running\<close>

definition start_application :: "program \<Rightarrow> keys option \<Rightarrow> json option \<Rightarrow> bool \<Rightarrow> (process, unit) py" where
  "start_application prog ks port close_client =
     modify (\<lambda>p. p\<lparr>running := running p @
       [\<lparr>program = prog, started_keys = ks, listens_on = port, closes_client = close_client\<rparr>]\<rparr>)"

text \<open>What a signal makes the event loop do, in order.\<close>

datatype stop_step = StopAsyncioLoop | CloseClient | StopServer | StopIoloop

definition signal_handler :: "started \<Rightarrow> stop_step list" where
  "signal_handler a =
     [StopAsyncioLoop] @ (if closes_client a then [CloseClient] else [])
     @ (if listens_on a \<noteq> None then [StopServer] else []) @ [StopIoloop]"

text \<open>\<open>try: m except caught: log it\<close>, with \<open>None\<close> for the exception.\<close>

definition attempt :: "exn list \<Rightarrow> (process, 'a) py \<Rightarrow> (process, 'a option) py" where
  "attempt caught m p =
     (case m p of
        (Inr x, q) \<Rightarrow> (Inr (Some x), q)
      | (Inl e, q) \<Rightarrow> if e \<in> set caught then (Inr None, q) else (Inl e, q))"

definition set_argv :: "string list \<Rightarrow> (process, unit) py" where
  "set_argv arguments =
     (if arguments \<noteq> [] then modify (\<lambda>p. p\<lparr>argv := take 1 (argv p) @ arguments\<rparr>) else ret ())"

definition checked_keys :: "(process, keys) py" where
  "checked_keys = bind (option_value ''key_file'') (\<lambda>v.
     case v of
       JStr f \<Rightarrow> bind (gets (\<lambda>p. fst (check_key_file f (storage p)))) lift
     | _ \<Rightarrow> raise TypeError)"

text \<open>
  The \<open>run\<close> functions of the broker and the gateways are the same but for the options they
  define, the application they make, its port and whether a signal closes its client.
\<close>

definition run_server ::
  "cli_parser \<Rightarrow> config_parser \<Rightarrow> (string \<times> json) list \<Rightarrow> program \<Rightarrow> string option \<Rightarrow> bool \<Rightarrow>
   string list \<Rightarrow> (process, unit) py" where
  "run_server cli cfg extra prog port_option close_client arguments =
     seq (set_argv arguments)
     (bind (attempt [SyntaxError, FileNotFoundError] (parse_command_line cli cfg extra)) (\<lambda>parsed.
      if parsed = None then ret ()
      else bind (attempt [ValueError] checked_keys) (\<lambda>found.
        case found of
          None \<Rightarrow> ret ()
        | Some ks \<Rightarrow>
            bind (case port_option of None \<Rightarrow> ret None
                  | Some n \<Rightarrow> bind (option_value n) (\<lambda>v. ret (if v = JNull then None else Some v))) (\<lambda>port.
            start_application prog (Some ks) port close_client))))"

definition broker_run :: "cli_parser \<Rightarrow> config_parser \<Rightarrow> string list \<Rightarrow> (process, unit) py" where
  "broker_run cli cfg = run_server cli cfg [] BrokerProgram (Some ''broker_port'') False"

definition coap_run :: "cli_parser \<Rightarrow> config_parser \<Rightarrow> string list \<Rightarrow> (process, unit) py" where
  "coap_run cli cfg = run_server cli cfg coap_extra_args CoapProgram None True"

definition mqtt_run :: "cli_parser \<Rightarrow> config_parser \<Rightarrow> string list \<Rightarrow> (process, unit) py" where
  "mqtt_run cli cfg = run_server cli cfg mqtt_extra_args MqttProgram None True"

definition ws_run :: "cli_parser \<Rightarrow> config_parser \<Rightarrow> string list \<Rightarrow> (process, unit) py" where
  "ws_run cli cfg = run_server cli cfg ws_extra_args WsProgram (Some ''gateway_port'') True"

section \<open>The dashboard\<close>

definition shown :: "(json \<Rightarrow> string) \<Rightarrow> json \<Rightarrow> string" where
  "shown rep v = (case v of JStr s \<Rightarrow> s | JInt i \<Rightarrow> int_literal i | _ \<Rightarrow> rep v)"

text \<open>The arguments of the page.\<close>

definition dashboard_get :: "(json \<Rightarrow> string) \<Rightarrow> (process, (string \<times> json) list) py" where
  "dashboard_get rep =
     bind (option_value ''broker_ssl'') (\<lambda>ssl.
     bind (option_value ''broker_host'') (\<lambda>host.
     bind (option_value ''broker_port'') (\<lambda>port.
     bind (option_value ''camera_url'') (\<lambda>camera.
     bind (option_value ''favicon'') (\<lambda>favicon.
     bind (option_value ''logo'') (\<lambda>logo.
     bind (option_value ''map_api_key'') (\<lambda>map_key.
     bind (option_value ''title'') (\<lambda>title.
     ret [(''wsproto'', JStr (if truthy ssl then ''wss'' else ''ws'')),
          (''wsserver'', JStr (shown rep host @ '':'' @ shown rep port)),
          (''camera_url'', camera), (''favicon'', favicon), (''logo_url'', logo),
          (''map_api_key'', map_key), (''title'', title)]))))))))"

text \<open>
  Making the application reads the options; the result is the settings handed to Tornado with
  the one route.  (The attribute \<open>_nodes\<close> is set to an empty dictionary and never used.)
\<close>

definition dashboard_init :: "(process, string list \<times> (string \<times> json) list) py" where
  "dashboard_init =
     bind (option_value ''debug'') (\<lambda>_.
     bind (option_value ''static_path'') (\<lambda>static.
     bind (option_value ''static_path'') (\<lambda>templates.
     bind (option_value ''web_port'') (\<lambda>_.
     ret ([''/''],
       [(''debug'', JBool True), (''cookie_secret'', JStr ''MY_COOKIE_ID''), (''xsrf_cookies'', JBool False),
        (''static_path'', static), (''template_path'', templates)])))))"

definition dashboard_run :: "cli_parser \<Rightarrow> config_parser \<Rightarrow> string \<Rightarrow> string list \<Rightarrow> (process, unit) py" where
  "dashboard_run cli cfg static arguments =
     seq (set_argv arguments)
     (bind (attempt [SyntaxError, FileNotFoundError] (parse_command_line cli cfg (dashboard_extra_args static))) (\<lambda>parsed.
      if parsed = None then ret ()
      else seq dashboard_init
          (bind (option_value ''web_port'') (\<lambda>port.
           start_application DashboardProgram None (if port = JNull then None else Some port) False))))"

section \<open>Properties\<close>

lemma define_option_get:
  "dict_get (define_option p d) n = (case dict_get d n of Some v \<Rightarrow> Some v | None \<Rightarrow> if n = fst p then Some (snd p) else None)"
  by (cases p) (auto simp: define_option_def dict_has_def map_add_def split: option.splits)

text \<open>What a parser of options is documented to do: it sets the options it is given, among those defined.\<close>

definition sets_options :: "(string \<Rightarrow> json option) \<Rightarrow> options \<Rightarrow> exn + options \<Rightarrow> bool" where
  "sets_options given d r \<longleftrightarrow>
     (\<forall>e. r = Inr e \<longrightarrow> (\<forall>n. dict_get e n =
        (case dict_get d n of None \<Rightarrow> None | Some v \<Rightarrow> Some (case given n of Some w \<Rightarrow> w | None \<Rightarrow> v))))"

text \<open>A parser that meets the contract, for witnesses.\<close>

definition override :: "(string \<times> json) list \<Rightarrow> options \<Rightarrow> exn + options" where
  "override given d = Inr (map (\<lambda>(n, v). (n, case dict_get given n of Some w \<Rightarrow> w | None \<Rightarrow> v)) d)"

lemma override_get:
  "dict_get (map (\<lambda>(n, v). (n, case dict_get given n of Some w \<Rightarrow> w | None \<Rightarrow> v)) d) n
    = (case dict_get d n of None \<Rightarrow> None | Some v \<Rightarrow> Some (case dict_get given n of Some w \<Rightarrow> w | None \<Rightarrow> v))"
  by (induction d) (auto split: option.split)

lemma override_sets: "sets_options (dict_get given) d (override given d)"
  by (simp add: sets_options_def override_def override_get)

lemma override_runs:
  assumes "dict_get (define_options extra (define_options (common_args (storage p)) (opts p))) ''config'' = Some v"
  shows "fst (parse_command_line (\<lambda>_. override given) (\<lambda>_ _. override in_file) extra p) = Inr ()"
  using assms
  by (simp add: parse_command_line_def parse_options_def parse_config_file_def option_value_def py_run
      override_def override_get or_raise_def)

text \<open>
  The command line wins over the configuration file, and the file over the defaults: after
  \<open>parse_command_line\<close> an option has the value of the command line if it is given there, else
  that of the file which the command line or the defaults name, else its default; options
  defined before keep their value as the default.
\<close>

theorem command_line_wins:
  assumes "\<forall>d. sets_options given d (cli (argv p) d)"
    and "\<forall>path d. sets_options (in_file path) d (cfg (storage p) path d)"
    and "parse_command_line cli cfg extra p = (Inr (), q)"
    and "dict_get (define_options extra (define_options (common_args (storage p)) (opts p))) n = Some preset"
    and "dict_get (define_options extra (define_options (common_args (storage p)) (opts p))) ''config'' = Some no_file"
  shows "dict_get (opts q) n = Some
    (case given n of
       Some v \<Rightarrow> v
     | None \<Rightarrow>
         (let path = (case given ''config'' of Some f \<Rightarrow> f | None \<Rightarrow> no_file) in
          case (if truthy path then in_file path n else None) of Some v \<Rightarrow> v | None \<Rightarrow> preset))"
proof -
  define d0 where "d0 = define_options extra (define_options (common_args (storage p)) (opts p))"
  define path where "path = (case given ''config'' of Some f \<Rightarrow> f | None \<Rightarrow> no_file)"
  obtain d1 where d1: "cli (argv p) d0 = Inr d1"
    using assms(3) by (auto simp: parse_command_line_def parse_options_def py_run d0_def split: sum.splits)
  have g1: "dict_get d1 m = (case dict_get d0 m of None \<Rightarrow> None | Some v \<Rightarrow> Some (case given m of Some w \<Rightarrow> w | None \<Rightarrow> v))" for m
    using assms(1) d1 by (simp add: sets_options_def)
  then have config: "dict_get d1 ''config'' = Some path" using assms(5) by (simp add: d0_def path_def)
  obtain d2 where d2: "(if truthy path then cfg (storage p) path d1 else Inr d1) = Inr d2" and q: "cli (argv p) d2 = Inr (opts q)"
    using assms(3) config
    by (auto simp: parse_command_line_def parse_options_def parse_config_file_def option_value_def py_run d1 d0_def [symmetric]
        split: sum.splits if_splits)
  have g2: "dict_get d2 n = (case dict_get d1 n of None \<Rightarrow> None | Some v \<Rightarrow>
      Some (case (if truthy path then in_file path n else None) of Some w \<Rightarrow> w | None \<Rightarrow> v))"
    using assms(2) d2 by (cases "truthy path") (auto simp: sets_options_def split: option.split)
  have "dict_get (opts q) n = (case dict_get d2 n of None \<Rightarrow> None | Some v \<Rightarrow> Some (case given n of Some w \<Rightarrow> w | None \<Rightarrow> v))"
    using assms(1) q by (simp add: sets_options_def)
  then show ?thesis
    using g2 g1 [of n] assms(4) by (simp add: d0_def [symmetric] path_def [symmetric] Let_def split: option.split)
qed

interpretation quiet: state_preorder "\<lambda>p q. running q = running p \<and> storage q = storage p"
  by unfold_locales auto

lemma quiet_parse: "quiet.upholds (set_argv args)" "quiet.upholds (parse_command_line cli cfg extra)"
proof -
  have opts: "quiet.upholds (modify (\<lambda>p. p\<lparr>opts := f p\<rparr>))" for f
    by (rule quiet.upholds_modify) simp
  then show "quiet.upholds (parse_command_line cli cfg extra)"
    unfolding parse_command_line_def parse_options_def parse_config_file_def option_value_def
    by (intro quiet.upholds_rules) simp_all
  show "quiet.upholds (set_argv args)"
    unfolding set_argv_def by (intro quiet.upholds_rules) simp
qed

lemma quiet_attempt: "quiet.upholds m \<Longrightarrow> quiet.upholds (attempt es m)"
  by (auto simp: quiet.upholds_def attempt_def split: prod.splits sum.splits) (metis snd_conv)+

lemma checked_keys_run:
  "checked_keys p = (Inr ks, q) \<Longrightarrow> q = p \<and> (\<exists>file. dict_get (opts p) ''key_file'' = Some (JStr file)
     \<and> fst (check_key_file file (storage p)) = Inr ks)"
  "checked_keys p = (Inl e, q) \<Longrightarrow> q = p"
  by (auto simp: checked_keys_def option_value_def or_raise_def py_run split: sum.splits option.splits json.splits)

lemma run_server_starts:
  assumes "run_server cli cfg extra prog port_option closes args p = (r, q)"
  shows "running q = running p
    \<or> (\<exists>ks port file. running q = running p @ [\<lparr>program = prog, started_keys = Some ks, listens_on = port, closes_client = closes\<rparr>]
        \<and> r = Inr () \<and> dict_get (opts q) ''key_file'' = Some (JStr file) \<and> fst (check_key_file file (storage p)) = Inr ks)"
proof -
  define m where "m = seq (set_argv args) (attempt [SyntaxError, FileNotFoundError] (parse_command_line cli cfg extra))"
  obtain x p1 where "m p = (x, p1)" by fastforce
  moreover have "quiet.upholds m" unfolding m_def by (intro quiet.upholds_seq quiet_attempt quiet_parse)
  ultimately have quiet: "running p1 = running p \<and> storage p1 = storage p" by (rule quiet.upholds_run [rotated])
  have p1: "seq (set_argv args) (attempt [SyntaxError, FileNotFoundError] (parse_command_line cli cfg extra)) p = (x, p1)"
    using \<open>m p = (x, p1)\<close> by (simp add: m_def)
  let ?start = "\<lambda>ks. bind (case port_option of None \<Rightarrow> ret None
        | Some n \<Rightarrow> bind (option_value n) (\<lambda>v. ret (if v = JNull then None else Some v)))
      (\<lambda>port. start_application prog (Some ks) port closes)"
  let ?k = "\<lambda>parsed. if parsed = None then ret ()
      else bind (attempt [ValueError] checked_keys) (\<lambda>found. case found of None \<Rightarrow> ret () | Some ks \<Rightarrow> ?start ks)"
  have all: "(r, q) = (case x of Inl e \<Rightarrow> (Inl e, p1) | Inr parsed \<Rightarrow> ?k parsed p1)"
    using assms p1 by (auto simp: run_server_def seq_run bind_run split: sum.splits prod.splits)
  show ?thesis
  proof (cases "x = Inr (Some ())")
    case False
    then have "(\<exists>e. x = Inl e) \<or> x = Inr None" by (cases x) (auto intro: option.exhaust)
    with all quiet show ?thesis by (auto simp: ret_run)
  next
    case True
    with all have rest: "(r, q) = bind (attempt [ValueError] checked_keys) (\<lambda>found. case found of None \<Rightarrow> ret () | Some ks \<Rightarrow> ?start ks) p1"
      by simp
    obtain y p2 where y: "checked_keys p1 = (y, p2)" by fastforce
    show ?thesis
    proof (cases y)
      case (Inl e)
      with rest y checked_keys_run(2) quiet show ?thesis
        by (auto simp: attempt_def bind_run ret_run split: if_splits)
    next
      case (Inr ks)
      note k = checked_keys_run(1) [OF y [unfolded Inr]]
      have "(r, q) = ?start ks p1" using rest y Inr k by (simp add: attempt_def bind_run)
      with k quiet show ?thesis
        by (cases port_option)
          (auto simp: start_application_def option_value_def or_raise_def py_run split: option.splits)
    qed
  qed
qed

definition demo_process :: process where
  "demo_process = \<lparr>opts = [], argv = [''aiot-broker''],
     storage = \<lparr>files = (\<lambda>_. None), directories = {}, home = (\<lambda>_. Some ''/home/me'')\<rparr>, running = []\<rparr>"

theorem command_line_wins_witness:
  "\<exists>q. parse_command_line (\<lambda>_. override [(''config'', JStr ''c.py''), (''debug'', JBool True)])
      (\<lambda>_ _. override [(''debug'', JBool False), (''broker_port'', JInt 80)]) [] demo_process = (Inr (), q)
    \<and> dict_get (opts q) ''broker_port'' = Some (JInt 80) \<and> dict_get (opts q) ''debug'' = Some (JBool True)"
proof -
  let ?cli = "\<lambda>_. override [(''config'', JStr ''c.py''), (''debug'', JBool True)]"
  let ?cfg = "\<lambda>_ _. override [(''debug'', JBool False), (''broker_port'', JInt 80)]"
  have d: "define_options [] (define_options (common_args (storage demo_process)) (opts demo_process)) = common_args (storage demo_process)"
    by (simp add: define_options_def define_option_def common_args_def dict_has_def demo_process_def)
  have "fst (parse_command_line ?cli ?cfg [] demo_process) = Inr ()"
    by (rule override_runs) (unfold d, simp add: common_args_def)
  then obtain q where q: "parse_command_line ?cli ?cfg [] demo_process = (Inr (), q)" by (metis prod.collapse)
  have laws: "\<forall>d. sets_options (dict_get [(''config'', JStr ''c.py''), (''debug'', JBool True)]) d (?cli (argv demo_process) d)"
    "\<forall>path d. sets_options ((\<lambda>_. dict_get [(''debug'', JBool False), (''broker_port'', JInt 80)]) path) d (?cfg (storage demo_process) path d)"
    by (simp_all add: override_sets del: map_of.simps)
  from command_line_wins [OF laws q, of "''broker_port''" "JInt 8000" JNull]
    command_line_wins [OF laws q, of "''debug''" "JBool False" JNull]
  have "dict_get (opts q) ''broker_port'' = Some (JInt 80)" "dict_get (opts q) ''debug'' = Some (JBool True)"
    unfolding d by (simp_all add: common_args_def truthy_def)
  with q show ?thesis by blast
qed

text \<open>
  C27: A server only starts with the keys of its key file: whatever the command line and the files
  hold, \<open>run\<close> of the broker and the three gateways either starts nothing, or starts that one
  application, with the keys that the file named by the option \<open>key_file\<close> holds.
\<close>

theorem started_with_file_keys:
  assumes "(f, prog, closes) \<in> {(broker_run, BrokerProgram, False), (coap_run, CoapProgram, True),
      (mqtt_run, MqttProgram, True), (ws_run, WsProgram, True)}"
    and "f cli cfg args p = (r, q)"
  shows "running q = running p
    \<or> (\<exists>ks port file. running q = running p @ [\<lparr>program = prog, started_keys = Some ks, listens_on = port, closes_client = closes\<rparr>]
        \<and> r = Inr () \<and> dict_get (opts q) ''key_file'' = Some (JStr file) \<and> fst (check_key_file file (storage p)) = Inr ks)"
proof -
  obtain extra port_option where run: "run_server cli cfg extra prog port_option closes args p = (r, q)"
    using assms by (auto simp: broker_run_def coap_run_def mqtt_run_def ws_run_def)
  show ?thesis by (rule run_server_starts [OF run])
qed

theorem started_with_file_keys_witness:
  "running (snd (coap_run (\<lambda>_. override []) (\<lambda>_ _. override []) [] demo_process)) = []"
proof -
  obtain r q where run: "coap_run (\<lambda>_. override []) (\<lambda>_ _. override []) [] demo_process = (r, q)" by fastforce
  from started_with_file_keys [where f = coap_run, OF _ run, of CoapProgram True]
  have "running q = running demo_process \<or> (\<exists>ks f. fst (check_key_file f (storage demo_process)) = Inr ks)" by auto
  moreover have "fst (check_key_file f (storage demo_process)) = Inl ValueError" for f
    by (simp add: check_key_file_def py_run demo_process_def)
  ultimately have "running q = []" by (simp add: demo_process_def)
  then show ?thesis using run by simp
qed

end
