(* ===== verification/Key_Generation.thy ===== *)
theory Key_Generation
  imports Coap_Node Broker_Routing Startup
begin

text \<open>
  \<open>bin/aiot-generate-keys\<close> and \<open>generate_private_key\<close> of \<open>pyaiot/common/auth.py\<close>: making the keys,
  writing them, and starting the servers with them.

  \<open>Fernet.generate_key()\<close> is the argument \<open>key\<close>: it is documented to be 32 bytes in URL-safe
  base64, so all its bytes are \<open>base64_char\<close>.
\<close>

section \<open>The program\<close>

definition generate_private_key :: "string \<Rightarrow> exn + string" where
  "generate_private_key key = decode_utf8 key"

text \<open>The text printed.\<close>

definition generation_message :: "keys \<Rightarrow> string \<Rightarrow> string" where
  "generation_message ks file =
     ''Key generation done:'' @ [CHR 0x0A, CHR 0x0A]
     @ ''   - Secret key:  '' @ secret_key ks @ [CHR 0x0A]
     @ ''   - Private key: '' @ private_key ks @ [CHR 0x0A, CHR 0x0A]
     @ ''The keys have been written in '' @ file"

definition aiot_generate_keys :: "string \<Rightarrow> (nat \<Rightarrow> nat) \<Rightarrow> (disk, string) py" where
  "aiot_generate_keys key rnd =
     bind (gets default_key_filename) (\<lambda>file.
     bind (lift (generate_private_key key)) (\<lambda>private.
     let ks = \<lparr>private_key = private, secret_key = generate_secret_key rnd\<rparr> in
     seq (write_keys_to_file file ks)
     (ret (generation_message ks file))))"

section \<open>The keys\<close>

definition base64_char :: "char \<Rightarrow> bool" where
  "base64_char c \<longleftrightarrow> c \<in> set (ascii_letters @ digits @ ''-_='')"

lemma base64_plain: "list_all base64_char key \<Longrightarrow> plain key"
  and base64_ascii: "list_all base64_char key \<Longrightarrow> ascii key"
proof -
  have "list_all (\<lambda>c. \<not> is_space c \<and> c \<noteq> CHR ''%'' \<and> byte_in 0 127 c) (ascii_letters @ digits @ ''-_='')"
    by (simp add: ascii_letters_def digits_def is_space_def byte_in_def)
  then have "\<not> is_space c \<and> c \<noteq> CHR ''%'' \<and> byte_in 0 127 c" if "base64_char c" for c
    using that unfolding base64_char_def list_all_iff by blast
  then show "list_all base64_char key \<Longrightarrow> plain key" "list_all base64_char key \<Longrightarrow> ascii key"
    by (auto simp: plain_def list_all_iff)
qed

lemma secret_base64: "list_all base64_char (generate_secret_key rnd)"
proof -
  have "choice (ascii_letters @ digits) r \<in> set (ascii_letters @ digits)" for r
    unfolding choice_def by (rule nth_mem, rule mod_less_divisor) (simp add: ascii_letters_def)
  then show ?thesis by (auto simp: generate_secret_key_def list_all_iff base64_char_def)
qed

definition generated :: "string \<Rightarrow> (nat \<Rightarrow> nat) \<Rightarrow> keys" where
  "generated key rnd = \<lparr>private_key = key, secret_key = generate_secret_key rnd\<rparr>"

lemma default_file:
  assumes "\<not> starts_with ''~'' (expanduser d ''~'')"
  shows "dirname (default_key_filename d) \<noteq> []" and "expanduser d' (default_key_filename d) = default_key_filename d"
proof -
  have "\<not> starts_with ''~'' (default_key_filename d)"
    using assms by (cases "expanduser d ''~''") (auto simp: default_key_filename_def)
  then show "expanduser d' (default_key_filename d) = default_key_filename d" by (rule expanduser_plain)
  have "dropWhile (\<lambda>c. c \<noteq> CHR ''/'') (rev (default_key_filename d)) = ''/toiayp.'' @ CHR ''/'' # rev (expanduser d ''~'')"
    by (simp add: default_key_filename_def)
  then show "dirname (default_key_filename d) \<noteq> []" by (simp add: dirname_def)
qed

text \<open>The keys are written, and the file reads back as these keys.\<close>

lemma generation_run:
  assumes "list_all base64_char key" and "\<not> starts_with ''~'' (expanduser d ''~'')"
    and d': "d' = snd (aiot_generate_keys key rnd d)"
  shows "fst (aiot_generate_keys key rnd d) = Inr (generation_message (generated key rnd) (default_key_filename d))"
    and "check_key_file (default_key_filename d) d' = (Inr (generated key rnd), d')" and "home d' = home d"
proof -
  let ?ks = "generated key rnd" and ?f = "default_key_filename d"
  have k: "plain (secret_key ?ks)" "plain (private_key ?ks)"
    using base64_plain assms(1) secret_base64 by (simp_all add: generated_def)
  have w: "fst (write_keys_to_file ?f ?ks d) = Inr ()" "files (snd (write_keys_to_file ?f ?ks d)) ?f = Some (keys_text ?ks)"
    "home (snd (write_keys_to_file ?f ?ks d)) = home d"
    using default_file(1) [OF assms(2)] by (simp_all add: write_keys_to_file_def before_set_plain k makedirs_def py_run)
  obtain d1 where w1: "write_keys_to_file ?f ?ks d = (Inr (), d1)" using w(1) by (metis prod.collapse)
  have run: "aiot_generate_keys key rnd d = (Inr (generation_message ?ks ?f), snd (write_keys_to_file ?f ?ks d))"
    using w1 utf8_all_ascii [OF base64_ascii [OF assms(1)]]
    by (simp add: aiot_generate_keys_def generate_private_key_def decode_utf8_def bind_gets generated_def Let_def py_run)
  then show "fst (aiot_generate_keys key rnd d) = Inr (generation_message ?ks ?f)" "home d' = home d"
    using w by (simp_all add: d')
  show "check_key_file ?f d' = (Inr ?ks, d')"
    using check_written [OF k] w run default_file(2) [OF assms(2)] by (simp add: d')
qed

section \<open>Starting with them\<close>

lemma defaults_parsed:
  assumes "opts p = []" and "given ''config'' = None"
    and cli: "\<forall>d. \<exists>e. cli (argv p) d = Inr e \<and> sets_options given d (Inr e)"
    and "dict_get (define_options extra (define_options (common_args (storage p)) [])) ''config'' = Some JNull"
  shows "\<exists>q. parse_command_line cli cfg extra p = (Inr (), q) \<and> storage q = storage p \<and> running q = running p
    \<and> (\<forall>n v. dict_get (define_options extra (define_options (common_args (storage p)) [])) n = Some v \<longrightarrow>
        dict_get (opts q) n = Some (case given n of Some w \<Rightarrow> w | None \<Rightarrow> v))"
proof -
  define d0 where "d0 = define_options extra (define_options (common_args (storage p)) [])"
  obtain d1 where d1: "cli (argv p) d0 = Inr d1" "sets_options given d0 (Inr d1)" using cli by blast
  obtain d2 where d2: "cli (argv p) d1 = Inr d2" "sets_options given d1 (Inr d2)" using cli by blast
  have "dict_get d1 ''config'' = Some JNull" using d1(2) assms(2,4) by (simp add: sets_options_def d0_def)
  then have "parse_command_line cli cfg extra p = (Inr (), p\<lparr>opts := d2\<rparr>)"
    using d1(1) d2(1) assms(1)
    by (simp add: parse_command_line_def parse_options_def option_value_def truthy_def py_run d0_def)
  moreover have "dict_get d2 n = Some (case given n of Some w \<Rightarrow> w | None \<Rightarrow> v)" if "dict_get d0 n = Some v" for n v
    using that d1(2) d2(2) by (cases "given n") (simp_all add: sets_options_def)
  ultimately show ?thesis unfolding d0_def by (intro exI [of _ "p\<lparr>opts := d2\<rparr>"]) simp
qed

lemma server_started:
  assumes "parse_command_line cli cfg extra (snd (set_argv arguments p)) = (Inr (), q)"
    and "dict_get (opts q) ''key_file'' = Some (JStr f)" and "check_key_file f (storage q) = (Inr ks, storage q)"
    and "\<forall>n. port_option = Some n \<longrightarrow> dict_has (opts q) n"
  shows "\<exists>port. run_server cli cfg extra prog port_option closes arguments p = (Inr (), q\<lparr>running := running q @
      [\<lparr>program = prog, started_keys = Some ks, listens_on = port, closes_client = closes\<rparr>]\<rparr>)"
proof -
  have s: "set_argv arguments p = (Inr (), snd (set_argv arguments p))" by (simp add: set_argv_def py_run)
  have k: "checked_keys q = (Inr ks, q)" using assms(2,3) by (simp add: checked_keys_def option_value_def py_run)
  have a: "attempt [SyntaxError, FileNotFoundError] (parse_command_line cli cfg extra) (snd (set_argv arguments p)) = (Inr (Some ()), q)"
    "attempt [ValueError] checked_keys q = (Inr (Some ks), q)"
    using assms(1) k by (simp_all add: attempt_def)
  let ?port = "case port_option of None \<Rightarrow> ret None | Some n \<Rightarrow> bind (option_value n) (\<lambda>v. ret (if v = JNull then None else Some v))"
  have "run_server cli cfg extra prog port_option closes arguments p = bind ?port (\<lambda>port. start_application prog (Some ks) port closes) q"
    by (simp add: run_server_def seq_first [where m = "set_argv arguments", OF s]
        bind_first [where m = "attempt _ (parse_command_line cli cfg extra)", OF a(1)] bind_first [where m = "attempt _ checked_keys", OF a(2)])
  moreover obtain port where "?port q = (Inr port, q)"
    using assms(4) by (cases port_option) (auto simp: option_value_def dict_has_def py_run)
  ultimately show ?thesis by (auto simp: bind_run start_application_def modify_run)
qed

text \<open>The four servers, with the options they define.\<close>

definition server ::
  "(cli_parser \<Rightarrow> config_parser \<Rightarrow> string list \<Rightarrow> (process, unit) py) \<Rightarrow> (string \<times> json) list \<Rightarrow> program \<Rightarrow>
   string option \<Rightarrow> bool \<Rightarrow> bool" where
  "server f extra prog port_option closes \<longleftrightarrow>
     (f, extra, prog, port_option, closes) \<in>
       {(broker_run, [], BrokerProgram, Some ''broker_port'', False), (coap_run, coap_extra_args, CoapProgram, None, True),
        (mqtt_run, mqtt_extra_args, MqttProgram, None, True), (ws_run, ws_extra_args, WsProgram, Some ''gateway_port'', True)}"

lemma server_options:
  assumes "server f extra prog port_option closes"
  shows "f cli cfg = run_server cli cfg extra prog port_option closes"
    and "dict_get (define_options extra (define_options (common_args d) [])) ''config'' = Some JNull"
    and "dict_get (define_options extra (define_options (common_args d) [])) ''key_file'' = Some (JStr (default_key_filename d))"
    and "port_option = Some n \<Longrightarrow> dict_has (define_options extra (define_options (common_args d) [])) n"
  using assms
  by (auto simp: server_def broker_run_def coap_run_def mqtt_run_def ws_run_def define_options_def define_option_def common_args_def
      coap_extra_args_def mqtt_extra_args_def ws_extra_args_def dict_has_def)

text \<open>
  C24: Keys that were generated work at once: \<open>aiot-generate-keys\<close> writes the default key file (below a home
  directory whose name does not begin with a tilde), each server started without options for its
  keys and for a configuration file starts with exactly these keys, and the broker with these keys
  admits the token that a gateway makes from them.
\<close>

theorem generated_keys_admit:
  assumes "fernet_ok enc dec" and "list_all base64_char key" and "\<not> starts_with ''~'' (expanduser d ''~'')"
    and "server f extra prog port_option closes" and "opts p = []" and "storage p = snd (aiot_generate_keys key rnd d)"
    and "given ''config'' = None" and "given ''key_file'' = None"
    and "\<forall>e. \<exists>e'. cli (argv (snd (set_argv arguments p))) e = Inr e' \<and> sets_options given e (Inr e')"
  shows "fst (aiot_generate_keys key rnd d) = Inr (generation_message (generated key rnd) (default_key_filename d))
    \<and> (\<exists>port q. f cli cfg arguments p = (Inr (), q) \<and> running q = running p @
        [\<lparr>program = prog, started_keys = Some (generated key rnd), listens_on = port, closes_client = closes\<rparr>])
    \<and> (\<forall>tok. auth_token enc (generated key rnd) = Inr tok \<longrightarrow>
        gateway_get dec (generated key rnd) (Some (join_with '','' [''token'', tok])) = Inr Upgraded)"
proof (intro conjI allI impI)
  note gen = generation_run [OF assms(2,3) refl, of rnd]
  show "fst (aiot_generate_keys key rnd d) = Inr (generation_message (generated key rnd) (default_key_filename d))" by (rule gen(1))
  show "gateway_get dec (generated key rnd) (Some (join_with '','' [''token'', tok])) = Inr Upgraded"
    if "auth_token enc (generated key rnd) = Inr tok" for tok
    unfolding token_header [OF auth_token_verified(2) [OF assms(1) that]]
    using auth_token_verified(1) [OF assms(1) that] by simp
  let ?p = "snd (set_argv arguments p)"
  have p: "opts ?p = []" "storage ?p = storage p" "running ?p = running p" using assms(5) by (simp_all add: set_argv_def py_run)
  obtain q where q: "parse_command_line cli cfg extra ?p = (Inr (), q)" "storage q = storage p" "running q = running p"
    "\<And>n v. dict_get (define_options extra (define_options (common_args (storage p)) [])) n = Some v \<Longrightarrow>
        dict_get (opts q) n = Some (case given n of Some w \<Rightarrow> w | None \<Rightarrow> v)"
    using defaults_parsed [where given = given and cli = cli and cfg = cfg and extra = extra and p = ?p, OF p(1) assms(7,9)] server_options(2) [OF assms(4)] p(2,3) by auto
  have key_file: "default_key_filename (storage p) = default_key_filename d"
    using gen(3) assms(6) by (simp add: default_key_filename_def expanduser_def)
  then have "dict_get (opts q) ''key_file'' = Some (JStr (default_key_filename d))"
    using q(4) [OF server_options(3) [OF assms(4)]] assms(8) by simp
  moreover have "check_key_file (default_key_filename d) (storage q) = (Inr (generated key rnd), storage q)"
    using gen(2) q(2) assms(6) by simp
  moreover have "\<forall>n. port_option = Some n \<longrightarrow> dict_has (opts q) n"
    using server_options(4) [OF assms(4)] q(4) by (fastforce simp: dict_has_def)
  ultimately obtain port where "f cli cfg arguments p = (Inr (), q\<lparr>running := running q @
      [\<lparr>program = prog, started_keys = Some (generated key rnd), listens_on = port, closes_client = closes\<rparr>]\<rparr>)"
    using server_started [OF q(1)] server_options(1) [OF assms(4)] by metis
  with q(3) show "\<exists>port q. f cli cfg arguments p = (Inr (), q) \<and> running q = running p @
        [\<lparr>program = prog, started_keys = Some (generated key rnd), listens_on = port, closes_client = closes\<rparr>]" by force
qed

definition fresh_process :: process where
  "fresh_process = \<lparr>opts = [], argv = [''aiot-broker''],
     storage = snd (aiot_generate_keys ''QUJD-_=='' id \<lparr>files = (\<lambda>_. None), directories = {}, home = (\<lambda>_. Some ''/home/me'')\<rparr>), running = []\<rparr>"

theorem generated_keys_admit_witness:
  "map started_keys (running (snd (broker_run (\<lambda>_. override [(''debug'', JBool True)]) (\<lambda>_ _. override []) [''--debug''] fresh_process)))
    = [Some (generated ''QUJD-_=='' id)]"
proof -
  have b: "list_all base64_char ''QUJD-_==''" by (simp add: base64_char_def ascii_letters_def digits_def)
  have s: "server broker_run [] BrokerProgram (Some ''broker_port'') False" by (simp add: server_def)
  have cli: "\<forall>e. \<exists>e'. override [(''debug'', JBool True)] e = Inr e' \<and> sets_options (dict_get [(''debug'', JBool True)]) e (Inr e')"
  proof
    fix e
    show "\<exists>e'. override [(''debug'', JBool True)] e = Inr e' \<and> sets_options (dict_get [(''debug'', JBool True)]) e (Inr e')"
      using override_sets [of "[(''debug'', JBool True)]" e] by (simp add: override_def)
  qed
  have h: "\<not> starts_with ''~'' (expanduser \<lparr>files = (\<lambda>_. None), directories = {}, home = (\<lambda>_. Some ''/home/me'')\<rparr> ''~'')"
    by (simp add: expanduser_def)
  from generated_keys_admit [OF fernet_ok_toy b h s, where p = fresh_process and rnd = id and cli = "\<lambda>_. override [(''debug'', JBool True)]" and arguments = "[''--debug'']"
      and given = "dict_get [(''debug'', JBool True)]" and cfg = "\<lambda>_ _. override []"] cli
  show ?thesis by (auto simp: fresh_process_def)
qed

section \<open>Options that are refused\<close>

text \<open>
  A configuration file whose option the parser refuses (one that sets \<open>broker_port\<close> to a number, since the option is
  defined with the type of texts) ends every server with that error, before it looks at its
  keys: \<open>run\<close> catches a syntax error and a missing file only.
\<close>

theorem refused_option_ends_server:
  assumes "server f extra prog port_option closes" and "opts p = []"
    and "cli (argv (snd (set_argv arguments p))) (define_options extra (define_options (common_args (storage p)) [])) = Inr d1"
    and "dict_get d1 ''config'' = Some path" and "truthy path" and "cfg (storage p) path d1 = Inl OptionError"
  shows "fst (f cli cfg arguments p) = Inl OptionError \<and> running (snd (f cli cfg arguments p)) = running p"
proof -
  let ?p = "snd (set_argv arguments p)"
  have s: "set_argv arguments p = (Inr (), ?p)" by (simp add: set_argv_def py_run)
  have p: "opts ?p = []" "storage ?p = storage p" "running ?p = running p" using assms(2) by (simp_all add: set_argv_def py_run)
  have "parse_command_line cli cfg extra ?p = (Inl OptionError, ?p\<lparr>opts := d1\<rparr>)"
    using assms(3-6) p by (simp add: parse_command_line_def parse_options_def parse_config_file_def option_value_def py_run)
  then have "attempt [SyntaxError, FileNotFoundError] (parse_command_line cli cfg extra) ?p = (Inl OptionError, ?p\<lparr>opts := d1\<rparr>)"
    by (simp add: attempt_def)
  then have "run_server cli cfg extra prog port_option closes arguments p = (Inl OptionError, ?p\<lparr>opts := d1\<rparr>)"
    by (simp add: run_server_def seq_first [where m = "set_argv arguments", OF s]
        bind_fails [where m = "attempt _ (parse_command_line cli cfg extra)"])
  then show ?thesis using server_options(1) [OF assms(1)] p(3) by simp
qed

theorem refused_option_ends_server_witness:
  "fst (broker_run (\<lambda>_. override [(''config'', JStr ''c.py'')]) (\<lambda>_ _ _. Inl OptionError) [] demo_process) = Inl OptionError"
proof -
  have s: "server broker_run [] BrokerProgram (Some ''broker_port'') False" by (simp add: server_def)
  from refused_option_ends_server [OF s, of demo_process "\<lambda>_. override [(''config'', JStr ''c.py'')]" "[]" _ "JStr ''c.py''"
      "\<lambda>_ _ _. Inl OptionError"]
  show ?thesis
    by (simp add: demo_process_def override_def truthy_def define_options_def define_option_def common_args_def dict_has_def)
qed

end
