(* ===== verification/Packaging.thy ===== *)
theory Packaging
  imports Coap_Gateway Key_File
begin

text \<open>
  \<open>setup.py\<close>: the version and the description that the package is built with.

  A file is the bytes of its text; the package is read in the encoding of the locale, taken to be UTF-8,
  and relative to the working directory, the description relative to the directory of \<open>setup.py\<close>.
  \<open>eval\<close> of the text after the last \<open>=\<close> is modelled for a string literal without escapes; for any
  other expression it is the argument \<open>ev\<close>.  \<open>setuptools.setup\<close> is its keyword arguments, of which
  \<open>packages\<close> is what \<open>find_packages()\<close> found.
\<close>

section \<open>The functions\<close>

definition path_join :: "string \<Rightarrow> string \<Rightarrow> string" where
  "path_join a b =
     (if starts_with ''/'' b \<or> a = [] then b else if ends_with ''/'' a then a @ b else a @ ''/'' @ b)"

definition open_text :: "string \<Rightarrow> (disk, string) py" where
  "open_text p = bind (gets (\<lambda>d. files d p)) (\<lambda>c. bind (lift (or_raise FileNotFoundError c)) (\<lambda>t. lift (decode_utf8 t)))"

definition readme :: "string \<Rightarrow> string \<Rightarrow> (disk, string) py" where
  "readme dir fname = open_text (path_join dir fname)"

text \<open>A literal: a quote, characters that are no quote, backslash or line end, and the quote again.\<close>

definition string_literal :: "string \<Rightarrow> string option" where
  "string_literal t =
     (case t of
        q # r \<Rightarrow>
          if (q = quote_char \<or> q = CHR 39) \<and> r \<noteq> [] \<and> last r = q
            \<and> list_all (\<lambda>c. c \<noteq> q \<and> c \<noteq> CHR 92 \<and> c \<noteq> CHR 0x0A) (butlast r)
          then Some (butlast r) else None
      | [] \<Rightarrow> None)"

definition eval_text :: "(string \<Rightarrow> exn + json) \<Rightarrow> string \<Rightarrow> exn + json" where
  "eval_text ev t = (case string_literal (strip t) of Some v \<Rightarrow> Inr (JStr v) | None \<Rightarrow> ev t)"

text \<open>The loop over the lines, which returns at the first one that starts with \<open>__version__\<close>.\<close>

fun version_in :: "(string \<Rightarrow> exn + json) \<Rightarrow> string list \<Rightarrow> exn + json" where
  "version_in ev [] = Inr JNull"
| "version_in ev (line # rest) =
     (if starts_with ''__version__'' line then eval_text ev (last (split_on CHR ''='' line)) else version_in ev rest)"

definition get_version :: "(string \<Rightarrow> exn + json) \<Rightarrow> string \<Rightarrow> (disk, json) py" where
  "get_version ev package =
     bind (open_text (path_join package ''__init__.py'')) (\<lambda>t. lift (version_in ev (file_lines t)))"

definition PACKAGE :: string where
  "PACKAGE = ''pyaiot''"

definition setup_arguments :: "(string \<Rightarrow> exn + json) \<Rightarrow> string \<Rightarrow> string list \<Rightarrow> (disk, (string \<times> json) list) py" where
  "setup_arguments ev dir found =
     bind (get_version ev PACKAGE) (\<lambda>version.
     bind (readme dir ''README.md'') (\<lambda>long_description.
     ret [(''name'', JStr PACKAGE),
          (''version'', version),
          (''description'', JStr ''Provides tools for setting up a complete IoT dashboard using standards protocols.''),
          (''long_description'', JStr long_description),
          (''author'', JStr ''IoT-LAB Team''),
          (''author_email'', JStr ''admin@iot-lab.info''),
          (''url'', JStr ''http://www.iot-lab.info''),
          (''license'', JStr ''BSD''),
          (''keywords'', JStr ''iot demonstration web coap mqtt''),
          (''platforms'', JStr ''any''),
          (''packages'', JList (map JStr found)),
          (''scripts'', JList (map (JStr \<circ> path_join ''bin'')
             [''aiot-broker'', ''aiot-coap-gateway'', ''aiot-mqtt-gateway'', ''aiot-ws-gateway'', ''aiot-dashboard'',
              ''aiot-generate-keys''])),
          (''install_requires'', JList (map JStr [''tornado>=6.0'', ''aiocoap>=0.3'', ''gmqtt'', ''cryptography>=1.7.2''])),
          (''classifiers'', JList (map JStr
             [''Development Status :: 4 - Beta'', ''Programming Language :: Python :: 3 :: Only'',
              ''Programming Language :: Python :: 3.6'', ''Programming Language :: Python :: 3.7'',
              ''Programming Language :: Python :: 3.8'', ''Programming Language :: Python :: 3.9'',
              ''Intended Audience :: Developers'', ''Environment :: Console'', ''Topic :: Communications'',
              ''License :: OSI Approved :: '', ''License :: OSI Approved :: BSD License''])),
          (''zip_safe'', JBool False)]))"

text \<open>The one statement of \<open>pyaiot/__init__.py\<close>.\<close>

definition version_line :: "string \<Rightarrow> string" where
  "version_line v = ''__version__ = '' @ [quote_char] @ v @ [quote_char]"

definition package_init :: string where
  "package_init = version_line ''0.2.1-dev0''"

section \<open>Properties\<close>

text \<open>A version that may be written between quotes.\<close>

definition quotable :: "string \<Rightarrow> bool" where
  "quotable v \<longleftrightarrow> list_all (\<lambda>c. c \<noteq> quote_char \<and> c \<noteq> CHR 92 \<and> c \<noteq> CHR 0x0A \<and> c \<noteq> CHR ''='') v"

lemma version_line_read:
  assumes "quotable v"
  shows "eval_text ev (last (split_on CHR ''='' (version_line v))) = Inr (JStr v)"
proof -
  let ?q = "[quote_char] @ v @ [quote_char]"
  have "CHR ''='' \<notin> set (CHR '' '' # ?q)" using assms by (auto simp: quotable_def list_all_iff)
  then have "split_on CHR ''='' ((''__version__ '') @ CHR ''='' # (CHR '' '' # ?q)) = [''__version__ '', CHR '' '' # ?q]"
    using split_on_join [of "[''__version__ '', CHR '' '' # ?q]" "CHR ''=''"] by simp
  moreover have "version_line v = ''__version__ '' @ CHR ''='' # (CHR '' '' # ?q)" by (simp add: version_line_def)
  moreover have "strip (CHR '' '' # ?q) = ?q"
    by (simp only: strip_blank, rule strip_tight) (simp add: is_space_def)
  moreover have "string_literal ?q = Some v"
    using assms by (simp add: string_literal_def quotable_def butlast_append list_all_iff)
  ultimately show ?thesis by (simp only: eval_text_def last.simps list.simps if_False) simp
qed

text \<open>
  The package is built with the version that its \<open>__init__.py\<close> states, whatever else the file holds before and
  after the statement, as long as no line before starts with the same word.
\<close>

theorem version_stated_once:
  assumes "files d ''pyaiot/__init__.py'' = Some t" and "utf8_valid t"
    and "file_lines t = before @ version_line v # after" and "quotable v"
    and "\<forall>l \<in> set before. \<not> starts_with ''__version__'' l"
    and "files d (path_join dir ''README.md'') = Some text" and "utf8_valid text"
  shows "\<exists>args. setup_arguments ev dir found d = (Inr args, d) \<and> dict_get args ''version'' = Some (JStr v)
    \<and> dict_get args ''long_description'' = Some (JStr text)"
proof -
  have "version_in ev (before @ version_line v # after) = Inr (JStr v)"
    using assms(5) version_line_read [OF assms(4), of ev] by (induction before) (simp_all add: version_line_def)
  then have "get_version ev PACKAGE d = (Inr (JStr v), d)"
    using assms(1-3) by (simp add: get_version_def open_text_def PACKAGE_def path_join_def ends_with_def decode_utf8_def py_run)
  then show ?thesis
    using assms(6,7) by (simp add: setup_arguments_def readme_def open_text_def decode_utf8_def py_run)
qed

definition source_tree :: disk where
  "source_tree = \<lparr>files = (\<lambda>_. None)(''pyaiot/__init__.py'' \<mapsto> ''# License'' @ [CHR 0x0A, CHR 0x0A] @ package_init @ [CHR 0x0A],
     ''README.md'' \<mapsto> ''## Pyaiot''), directories = {''pyaiot''}, home = (\<lambda>_. None)\<rparr>"

theorem version_stated_once_witness:
  "\<exists>args. setup_arguments (\<lambda>_. Inl SyntaxError) [] [''pyaiot''] source_tree = (Inr args, source_tree)
    \<and> dict_get args ''version'' = Some (JStr ''0.2.1-dev0'')"
proof -
  let ?t = "''# License'' @ [CHR 0x0A, CHR 0x0A] @ package_init @ [CHR 0x0A]"
  have lines: "file_lines ?t = [''# License'', []] @ version_line ''0.2.1-dev0'' # []"
    by (simp add: file_lines_def package_init_def version_line_def)
  have f: "files source_tree ''pyaiot/__init__.py'' = Some ?t" "files source_tree (path_join [] ''README.md'') = Some ''## Pyaiot''"
    by (simp_all add: source_tree_def path_join_def)
  have v: "utf8_valid ?t" "utf8_valid ''## Pyaiot''" by (simp_all add: package_init_def version_line_def byte_in_def)
  from version_stated_once [OF f(1) v(1) lines _ _ f(2) v(2), of "\<lambda>_. Inl SyntaxError" "[''pyaiot'']"]
  show ?thesis by (auto simp: quotable_def)
qed

text \<open>Without such a line there is no version, and no error either.\<close>

theorem no_version_stated:
  assumes "files d (path_join package ''__init__.py'') = Some t" and "utf8_valid t"
    and "\<forall>l \<in> set (file_lines t). \<not> starts_with ''__version__'' l"
  shows "get_version ev package d = (Inr JNull, d)"
proof -
  have "version_in ev ls = Inr JNull" if "\<forall>l \<in> set ls. \<not> starts_with ''__version__'' l" for ls
    using that by (induction ls) simp_all
  then show ?thesis using assms by (simp add: get_version_def open_text_def decode_utf8_def py_run)
qed

end
