(* ===== verification/Unit_Tests.thy ===== *)
theory Unit_Tests
  imports Messaging
begin

text \<open>
  \<open>pyaiot/tests/test_messaging.py\<close>: what the repository's own tests assert, as statements about the
  model.  The cases that hand \<open>check_message\<close> byte strings are left out, as its model takes texts.
\<close>

definition quoted :: "string \<Rightarrow> string" where
  "quoted t = [quote_char] @ t @ [quote_char]"

lemma test_new_node:
  "new_node (JStr ''1234'') dst_all = ''{'' @ quoted ''type'' @ '': '' @ quoted ''new'' @ '', '' @ quoted ''uid'' @ '': ''
     @ quoted ''1234'' @ '', '' @ quoted ''dst'' @ '': '' @ quoted ''all'' @ ''}''"
  by (simp add: new_node_def serialize_def quoted_def dumps_str_def escape_char_def)

lemma test_update_node:
  "update_node (JStr ''1234'') (JStr ''test'') (JInt 1234) (JStr ''5678'') =
     ''{'' @ quoted ''type'' @ '': '' @ quoted ''update'' @ '', '' @ quoted ''uid'' @ '': '' @ quoted ''1234'' @ '', ''
     @ quoted ''endpoint'' @ '': '' @ quoted ''test'' @ '', '' @ quoted ''data'' @ '': 1234, '' @ quoted ''dst'' @ '': '' @ quoted ''5678'' @ ''}''"
  by (simp add: update_node_def serialize_def quoted_def dumps_str_def escape_char_def int_literal_def nat_digits.simps digit_char_def)

lemma test_check_message_bad_json:
  "check_message id (Text (''{'' @ quoted ''test'' @ '', '' @ quoted ''test'' @ ''}'')) =
     Inr (None, Some (NotJson (''{'' @ quoted ''test'' @ '', '' @ quoted ''test'' @ ''}'')))"
  "\<exists>m. check_message id (Text (''{'' @ quoted ''json'' @ '': '' @ quoted ''valid'' @ '', '' @ quoted ''content'' @ '': ''
     @ quoted ''invalid'' @ ''}'')) = Inr (None, Some (InvalidMessage m))"
  "check_message id NotText = Inr (None, Some (InvalidRaw NotText))"
  subgoal by code_simp
  subgoal by (rule exI [of _ "JObj [(''json'', JStr ''valid''), (''content'', JStr ''invalid'')]"]) code_simp
  subgoal by code_simp
  done

lemma test_check_message_bad_type:
  "check_message id (Text (''{'' @ quoted ''type'' @ '': '' @ quoted ''test'' @ ''}'')) = Inr (None, Some (InvalidType (JStr ''test'')))"
  by code_simp

lemma test_check_message_valid:
  "\<forall>t \<in> set message_types.
     check_message id (Text (''{'' @ quoted ''type'' @ '': '' @ quoted t @ '', '' @ quoted ''data'' @ '': '' @ quoted ''test'' @ ''}'')) =
       Inr (Some (JObj [(''type'', JStr t), (''data'', JStr ''test'')]), None)"
  by code_simp

end
