(* ===== verification/Spec2Isabelle.thy ===== *)
theory Spec2Isabelle
  imports Broker_Properties Gateway_Properties Composition_Nodes Deployment_Admission Deployment_Order
    Deployment_Updates Deployment_Presence Coap_Silence Coap_Speech Coap_Node_Tasks Mqtt_Node Pycom_Node Ws_Properties Ws_Node
    Key_Generation Packaging Unit_Tests
begin

text \<open>
  Pyaiot: a broker between dashboards and IoT nodes.

  \<^bold>\<open>The program.\<close>  Clients (the dashboard page) and gateways hold a websocket each to the broker
  (\<open>pyaiot/broker\<close>).  A gateway (\<open>pyaiot/gateway/coap\<close>, \<open>mqtt\<close>, \<open>ws\<close>, on the shared
  \<open>pyaiot/gateway/common\<close>) speaks the protocol of its nodes, caches what it has learned of them and
  announces it with the messages of \<open>pyaiot/common/messaging.py\<close>: \<open>new\<close>, \<open>update\<close>, \<open>reset\<close>,
  \<open>out\<close>.  The broker relays a gateway's message to everyone or to the client it is for, and every
  client's message to all gateways.  Gateways prove themselves with a token
  (\<open>pyaiot/common/auth.py\<close>).  \<open>utils\<close> holds the programs that run on nodes.

  \<^bold>\<open>How code is modelled.\<close>  A method is a function \<open>('s, 'a) py\<close> from the state of its object
  to a result, \<open>Inl\<close> an exception or \<open>Inr\<close> a value, and the new state; effects before an exception
  stay.  A component's events are a datatype, \<open>..._handle\<close> runs the code's handler for an event,
  \<open>..._enabled\<close> says which events the framework can deliver, and \<open>reachable\<close> closes the initial
  state under them.  A coroutine is cut at its waits: what it still needs is a value in a table of
  the state, and the event that resumes it carries what it waited for.

  \<^bold>\<open>Theories and sources.\<close>
  \<^item> \<open>Prelude\<close>: the exceptions, the monad and its rules (\<open>py_run\<close>), \<open>reachable\<close>, insertion-ordered
    dictionaries, and three locales: \<open>state_preorder\<close> (a relation between the states before and
    after, kept by every composition of operations that keep it), \<open>service\<close> (an invariant of the
    reachable states) and \<open>ordered_dict\<close>.
  \<^item> \<open>Json\<close>, \<open>Json_Text\<close>: \<open>json.dumps\<close>, \<open>json.loads\<close> and the operations on loaded values.
  \<^item> \<open>Messaging\<close>, \<open>Auth\<close>, \<open>Key_File\<close>, \<open>Startup\<close>: \<open>pyaiot/common\<close>, the \<open>run\<close> functions of all
    applications and \<open>pyaiot/dashboard/dashboard.py\<close>.  \<open>Key_Generation\<close>: \<open>bin/aiot-generate-keys\<close> and
    what becomes of its keys.  \<open>Packaging\<close>: \<open>setup.py\<close>.  \<open>Unit_Tests\<close>: the assertions of
    \<open>pyaiot/tests/test_messaging.py\<close>.
  \<^item> \<open>Broker\<close>: \<open>pyaiot/broker/broker.py\<close>; \<open>Broker_Correct\<close> its invariant, \<open>Broker_Routing\<close> the
    exact outcome of each operation and the specification \<open>route\<close>, \<open>Broker_Properties\<close> its claims.
  \<^item> \<open>Gateway_Node\<close>, \<open>Gateway\<close>: \<open>pyaiot/gateway/common\<close>.  \<open>Gateway_Correct\<close> has the invariant of the
    cache and the locale \<open>gateway_protocol\<close>, the contract of the abstract methods, interpreted on
    each of the three gateways; \<open>Gateway_View\<close> the reader of a gateway's messages (\<open>tell\<close>,
    \<open>cached\<close>, \<open>mirrored\<close>); \<open>Gateway_Mute\<close> gateways that never cache a node; \<open>Gateway_Properties\<close>.
  \<^item> \<open>Coap_Gateway\<close>: \<open>pyaiot/gateway/coap/gateway.py\<close>; \<open>Coap_Correct\<close>, \<open>Coap_Properties\<close>,
    \<open>Coap_Discovery\<close>, \<open>Coap_Updates\<close>, \<open>Coap_Cleanup\<close> and \<open>Coap_Speech\<close> are about it;
    \<open>Coap_Observer\<close> has the locales of the relations that speak of its cache, its texts and its
    time, interpreted for what one client hears (\<open>Coap_Follow\<close>), for the nodes a reader takes to be
    there (\<open>Coap_Roster\<close>), for the connection (\<open>Deployment\<close>) and for the time stamps of nodes
    (\<open>Coap_Presence\<close>, \<open>Coap_Silence\<close>: which nodes stay and which go).
  \<^item> \<open>Mqtt_Gateway\<close>, \<open>Mqtt_Properties\<close>: \<open>pyaiot/gateway/mqtt/gateway.py\<close>; \<open>Ws_Gateway\<close>,
    \<open>Ws_Properties\<close>: \<open>pyaiot/gateway/ws/gateway.py\<close>.
  \<^item> \<open>Composition\<close>, \<open>Composition_Properties\<close>, \<open>Composition_Updates\<close>, \<open>Composition_Nodes\<close>,
    \<open>Composition_Views\<close>: the broker and a CoAP gateway together, over one connection that delivers
    in order.  \<open>Deployment\<close>, \<open>Deployment_Admission\<close>,
    \<open>Deployment_Recovery\<close>, \<open>Deployment_Order\<close>, \<open>Deployment_Updates\<close>, \<open>Deployment_Presence\<close>: the broker with any number of CoAP gateways, over
    connections that are lost and made again, each admitted by its token; other gateways and all
    clients may do anything.
  \<^item> \<open>Coap_Node\<close>, \<open>Coap_Node_Tasks\<close>: \<open>utils/coap/coap-test-node.py\<close>; \<open>Mqtt_Node\<close>: \<open>utils/mqtt/mqtt-test-node.py\<close>;
    \<open>Umqtt\<close>, \<open>Umqtt_Correct\<close>: \<open>utils/pycom/libs/umqtt.py\<close>; \<open>Pycom_Node\<close>: \<open>utils/pycom/main.py\<close>;
    \<open>Ws_Node\<close>: \<open>utils/ws/ws_test_client.py\<close>.

  \<^bold>\<open>What is shown.\<close>
  \<^item> Of the system: the view of a client follows the cache of the gateway, whatever interleaves, and
    equals it when everything is read; a client's update reaches its node and, once accepted, the
    clients; what a node measures reaches the clients; a client that asks learns exactly the cache.
    Where a connection is closed, the clients reached are those before the first closed one in the
    broker's table (\<open>reached\<close>), because the broadcast ends there.
  \<^item> Of the deployment: in every reachable state the broker's table of a gateway's nodes, brought up
    to date by the texts on their way, is the gateway's cache; a gateway that reconnects restores the
    table and tells every client its cache; a loss that the broker notices late hides nodes;
    who does not hold the broker's keys never gets a connection; a client reads, in order and nothing
    twice, a part of what the broker reads from gateways and says of closed ones; a client's update is acted on by
    exactly the gateways that it reaches and that cache the node it names; a node that reports within \<open>max_time\<close> is never
    removed, and never missing from the broker's list once the broker has read what was written.
  \<^item> Of the broker: its tables stay consistent in every reachable state; its treatment of a message
    refines \<open>route\<close>; a message of a gateway touches no other gateway's nodes and reaches registered
    clients only; who is admitted, and what a lost gateway leaves.
  \<^item> Of the gateways: the invariant of every reachable state; each operation on the cache is
    mirrored by the messages it writes; discovery, update, post and cleanup of CoAP nodes from the
    first request to the last reply; the removal of a node that falls silent; the connection with the broker, its errors included; the MQTT
    and websocket gateways announce nothing, for the reason given with the theorems.
  \<^item> Of the CoAP test node: its tasks go on and post what the gateway accepts, and what ends them.
  \<^item> Of the rest: generated keys work at once for the servers that use them; what is written can be read again (JSON text, messages, keys, packets), waiting
    for an acknowledgement ends, the packet of a message against the protocol's own description
    (\<open>publish_frame\<close>, which shares no definition with the code's model), the encoding of lengths and its bounds, the priority of options, and
    what the nodes send against what the gateways make of it.

  Errors of the code are modelled as they are, and the theorems say what they lead to.

  \<^bold>\<open>Fuel and termination.\<close>  The JSON reader has fuel; \<open>enough_fuel\<close> gives twice the length of the
  text and two more, and \<open>scan_value_fuel\<close> shows that any larger fuel has the same result.
  Interpolation in the key file stops after the ten levels that \<open>configparser\<close> allows
  (\<open>MAX_INTERPOLATION_DEPTH\<close>), as in the code: the bound is part of the behaviour.  The loops of \<open>Umqtt\<close> that wait on the socket terminate because each
  round reads (\<open>shortens\<close>); the WiPy node's wait for the network is a \<open>while_option\<close> that ends exactly
  when the network comes up (\<open>network_awaited\<close>); all other recursion is structural or has a measure.

  \<^bold>\<open>Parameters.\<close>  Code that is not in the repository is an argument: \<open>fl\<close> (the literal Python prints
  for the float a literal denotes; \<open>canonical_floats\<close> is what theorems need of it, and \<open>keep_literal\<close>
  meets it), \<open>rep\<close> (how Python prints a list or a dictionary), \<open>enc\<close> and \<open>dec\<close> (Fernet, with
  \<open>fernet_ok\<close>, met by \<open>toy_enc\<close>), \<open>cli\<close> and \<open>cfg\<close> (Tornado's option parsers), \<open>ev\<close> (\<open>eval\<close> of anything but a plain string literal), the outcomes of CoAP
  requests and of the calls of the MQTT libraries, random numbers and times.

  \<^bold>\<open>Not modelled.\<close>  Binary websocket frames other than as refused, lone surrogates as an error of writing
  to a websocket, UTF-16 and UTF-32 payloads of MQTT messages, errors of the file system when keys are
  written, Python's limits on nesting depth and on integer literals, the equality of an integer with a float whose
  literal has an exponent (\<open>canon\<close>), logging, TLS and address lookup, the event loop's scheduling beyond the
  order of events, Tornado's HTTP handling and the rendering of the dashboard's template, the page's
  JavaScript, the example configuration (comments only), start scripts and containers.
  \<open>Composition\<close> has one gateway and the life of one of its connections; in \<open>Deployment\<close> the texts
  of a connection that was replaced count as those of an unknown gateway, which may say anything.
\<close>

end
